theory Spec2Isabelle
  imports Complex_Main "HOL-Library.Word"
begin

section \<open>Common data model\<close>

text \<open>
  The development embeds the ciphertext-arithmetic layer of two RNS schemes:
  \<^item> scheme A (BFV), file \<^verbatim>\<open>src/pke/lib/scheme/bfvrns/bfvrns-leveledshe.cpp\<close>;
  \<^item> scheme B (CKKS), file \<^verbatim>\<open>src/pke/lib/scheme/ckksrns/ckksrns-fhe.cpp\<close>.

  Conventions of the embedding.
  \<^item> The RNS polynomial type \<^verbatim>\<open>DCRTPoly\<close> is a type variable \<open>'p\<close>. Its ring
    operations (\<^verbatim>\<open>operator*\<close>, \<^verbatim>\<open>+=\<close>, \<^verbatim>\<open>-=\<close>) are those of a commutative ring;
    its basis conversions, roundings and format switches are functions of a kernel record
    that every operation receives, since their code is not part of the two files.
  \<^item> \<^verbatim>\<open>size_t\<close> and \<^verbatim>\<open>uint32_t\<close> values are natural numbers below \<open>2^64\<close> and
    \<open>2^32\<close>; an operation of the source that can wrap is written with
    its modulus.
  \<^item> \<^verbatim>\<open>double\<close> values are real numbers: no rounding, no infinities.
  \<^item> \<^verbatim>\<open>OPENFHE_THROW\<close> is the left injection of a sum type; reading a vector outside its
    range has no defined result in C++ and is the error \<open>OutOfRange\<close>.
  \<^item> \<^verbatim>\<open>Clone()\<close> produces a deep copy, which as a value is the ciphertext itself.
  \<^item> A function whose text, in some build, names an identifier that is declared nowhere has
    no run in that build; its outcome there is the error \<open>UndeclaredIdentifier\<close>.
\<close>

datatype Format = EVALUATION | COEFFICIENT

datatype MultiplicationTechnique = BEHZ | HPS | HPSPOVERQ | HPSPOVERQLEVELED

datatype KeySwitchTechnique = INVALID_KS_TECH | BV | HYBRID

datatype EncryptionTechnique = STANDARD | EXTENDED

datatype SecretKeyDist = GAUSSIAN | UNIFORM_TERNARY | SPARSE_TERNARY

datatype ScalingTechnique =
  FIXEDMANUAL | FIXEDAUTO | FLEXIBLEAUTO | FLEXIBLEAUTOEXT
  | COMPOSITESCALINGAUTO | COMPOSITESCALINGMANUAL | NORESCALE | INVALID_RS_TECHNIQUE

datatype error =
  ParameterMismatch
  | OutOfRange
  | EvalKeyNotFound nat
  | KeySwitchNotHybrid
  | NativeInt128Unsupported
  | InvalidIterationCount
  | PrecomputationsNotGenerated "32 word"
  | DegreeExceedsCorrectionFactor
  | IndexListSizeNegative
  | LevelBudgetLessThanFlagRem
  | DivisionByZero
  | UndeclaredIdentifier string

text \<open>Preprocessor symbols that select code in the two files; their definitions are not
  in the files, so they are inputs.\<close>

record Build =
  USE_KARATSUBA :: bool
  WITH_REDUCED_NOISE :: bool
  NATIVEINT :: nat

type_synonym uint32 = "32 word"

record ('p, 'cp) Ciphertext =
  Elements :: "'p list"
  NoiseScaleDeg :: nat
  Level :: nat
  Slots :: uint32
  KeyTag :: string
  ScalingFactor :: real
  CryptoParameters :: 'cp

text \<open>\<^verbatim>\<open>size_t\<close> and \<^verbatim>\<open>uint32_t\<close> arithmetic.\<close>

definition size_t_sub :: "nat \<Rightarrow> nat \<Rightarrow> nat" where
  "size_t_sub a b = (a + 2 ^ 64 - b mod 2 ^ 64) mod 2 ^ 64"

definition size_t_add :: "nat \<Rightarrow> nat \<Rightarrow> nat" where
  "size_t_add a b = (a + b) mod 2 ^ 64"

definition to_uint32 :: "nat \<Rightarrow> nat" where
  "to_uint32 a = a mod 2 ^ 32"

section \<open>Scheme A: level tracker\<close>

record CryptoParametersBFVRNS =
  DistributionParameter :: real
  AssuranceMeasure :: real
  PlaintextModulus :: nat
  RingDimension :: nat
  DigitSize :: nat
  KeySwitchTech :: KeySwitchTechnique
  EncryptionTech :: EncryptionTechnique
  NumPerPartQ :: nat
  NumPartQ :: nat
  ThresholdNumOfParties :: nat
  SecretKeyDistribution :: SecretKeyDist
  MultiplicationTech :: MultiplicationTechnique
  ParamsSize :: nat
  ParamsPSize :: nat

text \<open>The lambdas of \<^verbatim>\<open>FindLevelsToDrop\<close> (lines 111--168), in the order of the source.\<close>

definition Berr :: "CryptoParametersBFVRNS \<Rightarrow> real" where
  "Berr cp = DistributionParameter cp * sqrt (AssuranceMeasure cp)"

definition Bkey :: "CryptoParametersBFVRNS \<Rightarrow> real" where
  "Bkey cp =
     (if SecretKeyDistribution cp = GAUSSIAN
      then sqrt (real (ThresholdNumOfParties cp)) * Berr cp
      else real (ThresholdNumOfParties cp))"

definition relin_w :: "CryptoParametersBFVRNS \<Rightarrow> nat \<Rightarrow> real" where
  "relin_w cp dcrtBits = 2 ^ (if DigitSize cp = 0 then dcrtBits else DigitSize cp)"

definition delta :: "nat \<Rightarrow> real" where
  "delta n = 2 * sqrt (real n)"

definition deltaMS :: "nat \<Rightarrow> real" where
  "deltaMS n = 4 * sqrt (real n)"

definition Vnorm :: "CryptoParametersBFVRNS \<Rightarrow> nat \<Rightarrow> real" where
  "Vnorm cp n =
     (if EncryptionTech cp = EXTENDED
      then (1 + deltaMS n * Bkey cp) / 2
      else Berr cp * (1 + 2 * delta n * Bkey cp))"

definition noiseKS :: "Build \<Rightarrow> CryptoParametersBFVRNS \<Rightarrow> nat \<Rightarrow> nat \<Rightarrow> real \<Rightarrow> real \<Rightarrow> real" where
  "noiseKS b cp dcrtBits n logqPrev w =
     (if KeySwitchTech cp = HYBRID
      then (if WITH_REDUCED_NOISE b
            then real (NumPerPartQ cp)
                   * (real (NumPartQ cp) * delta n * Berr cp + delta n * Bkey cp + 1) / 2
            else real (NumPerPartQ cp)
                   * (real (NumPartQ cp) * delta n * Berr cp + deltaMS n * Bkey cp + 1))
      else (let numDigitsPerTower =
                  (if DigitSize cp = 0 then 1
                   else real (to_uint32 (dcrtBits div DigitSize cp + 1)))
            in delta n * numDigitsPerTower
                 * (real_of_int \<lfloor>logqPrev / (ln 2 * real dcrtBits)\<rfloor> + 1) * w * Berr cp / 2))"

definition C1 :: "CryptoParametersBFVRNS \<Rightarrow> nat \<Rightarrow> real" where
  "C1 cp n = delta n * deltaMS n * real (PlaintextModulus cp) * Bkey cp"

definition C2 :: "Build \<Rightarrow> CryptoParametersBFVRNS \<Rightarrow> nat \<Rightarrow> nat \<Rightarrow> real \<Rightarrow> real" where
  "C2 b cp dcrtBits n logqPrev =
     delta n * deltaMS n * Bkey cp * Bkey cp / 2
       + noiseKS b cp dcrtBits n logqPrev (relin_w cp dcrtBits)"

definition logqBFV :: "Build \<Rightarrow> nat \<Rightarrow> CryptoParametersBFVRNS \<Rightarrow> nat \<Rightarrow> nat \<Rightarrow> real \<Rightarrow> real" where
  "logqBFV b multiplicativeDepth cp dcrtBits n logqPrev =
     (if multiplicativeDepth > 0
      then ln (4 * real (PlaintextModulus cp))
             + real (multiplicativeDepth - 1) * ln (C1 cp n)
             + ln (C1 cp n * Vnorm cp n
                    + real multiplicativeDepth * C2 b cp dcrtBits n logqPrev)
      else ln (real (PlaintextModulus cp) * (4 * Vnorm cp n)))"

text \<open>The fixed-point iteration of lines 174--177. The loop has no bound in the source;
  \<open>None\<close> is the run that never leaves it.\<close>

partial_function (option) logq_loop :: "(real \<Rightarrow> real) \<Rightarrow> real \<Rightarrow> real \<Rightarrow> real option" where
  "logq_loop f logqPrev logq =
     (if \<bar>logq - logqPrev\<bar> > ln 1.001 then logq_loop f logq (f logq) else Some logq)"

text \<open>Lines 187--195: the clamp of the signed level count and its return as
  \<^verbatim>\<open>uint32_t\<close>.\<close>

definition clamp_levels :: "int \<Rightarrow> nat \<Rightarrow> nat" where
  "clamp_levels levels sizeQ =
     (let levels1 = (if levels < 0 then 0
                     else if levels > int sizeQ - 1 then int sizeQ - 1
                     else levels)
      in nat (levels1 mod 2 ^ 32))"

definition FindLevelsToDrop :: "Build \<Rightarrow> nat \<Rightarrow> CryptoParametersBFVRNS \<Rightarrow> nat \<Rightarrow> bool \<Rightarrow> nat option" where
  "FindLevelsToDrop b multiplicativeDepth cp dcrtBits keySwitch =
     (let p = real (PlaintextModulus cp);
          n = RingDimension cp;
          w = relin_w cp dcrtBits;
          logqPrev = 6 * ln 10;
          logq = logqBFV b multiplicativeDepth cp dcrtBits n logqPrev
      in case logq_loop (logqBFV b multiplicativeDepth cp dcrtBits n) logqPrev logq of
           None \<Rightarrow> None
         | Some logq' \<Rightarrow>
             (let loge = logq' / ln 2 - 2 - log 2 p;
                  logExtra = (if keySwitch then log 2 (noiseKS b cp dcrtBits n logq' w)
                              else log 2 (deltaMS n));
                  levels = \<lfloor>(loge - real (to_uint32 (2 * multiplicativeDepth)) - 16 - logExtra)
                              / real dcrtBits\<rfloor>
              in Some (clamp_levels levels (ParamsSize cp))))"

section \<open>Scheme A: multiplication engine\<close>

text \<open>
  The precomputed tables a basis operation reads are selected in the source by the getter
  it is given (\<^verbatim>\<open>GetParamsQlRl(l)\<close>, \<^verbatim>\<open>GetmNegRlQHatInvModq(l)\<close>, ...). The kernel
  operations take the crypto parameters and the selection; \<open>DefaultIndex\<close> is a getter
  called without argument.
\<close>

datatype TableIndex = DefaultIndex | Index nat

datatype BasisPQ =
  mNegRlQlHatInvModq nat  \<comment> \<open>line 252: from \<open>Q\<^sub>l\<close> through \<open>P\<^sub>l\<close> to \<open>P\<^sub>l Q\<^sub>l\<close>\<close>
  | mNegRlQHatInvModq nat   \<comment> \<open>line 293: from \<open>Q\<close> through \<open>P\<^sub>l\<close> to \<open>P\<^sub>l Q\<^sub>l\<close>\<close>

datatype ScaleTable =
  QlQHatInvModqDivq nat       \<comment> \<open>drop from \<open>Q\<close> to \<open>Q\<^sub>l\<close>\<close>
  | tRSHatInvModsDivs         \<comment> \<open>scale by \<open>t/Q\<close>, result in the basis \<open>R\<close>\<close>
  | tQlSlHatInvModsDivs nat   \<comment> \<open>scale by \<open>t/P\<close>, result in the basis \<open>Q\<^sub>l\<close>\<close>

record ('p, 'k) BFVKernel =
  DefaultPoly :: 'p
  GetNumOfElements :: "'p \<Rightarrow> nat"
  ModulusMSB :: "'p \<Rightarrow> nat"
  GetParams :: "'p \<Rightarrow> nat list"
  SetFormat :: "Format \<Rightarrow> 'p \<Rightarrow> 'p"
  ExpandCRTBasis :: "CryptoParametersBFVRNS \<Rightarrow> TableIndex \<Rightarrow> 'p \<Rightarrow> 'p"
  FastExpandCRTBasisPloverQ :: "CryptoParametersBFVRNS \<Rightarrow> BasisPQ \<Rightarrow> 'p \<Rightarrow> 'p"
  ScaleAndRound :: "CryptoParametersBFVRNS \<Rightarrow> ScaleTable \<Rightarrow> 'p \<Rightarrow> 'p"
  SwitchCRTBasis :: "CryptoParametersBFVRNS \<Rightarrow> 'p \<Rightarrow> 'p"
  ExpandCRTBasisQlHat :: "CryptoParametersBFVRNS \<Rightarrow> nat \<Rightarrow> nat \<Rightarrow> 'p \<Rightarrow> 'p"
  FastBaseConvqToBskMontgomery :: "CryptoParametersBFVRNS \<Rightarrow> 'p \<Rightarrow> 'p"
  FastRNSFloorq :: "CryptoParametersBFVRNS \<Rightarrow> 'p \<Rightarrow> 'p"
  FastBaseConvSK :: "CryptoParametersBFVRNS \<Rightarrow> 'p \<Rightarrow> 'p"
  CloneEmpty :: "('p, CryptoParametersBFVRNS) Ciphertext \<Rightarrow> ('p, CryptoParametersBFVRNS) Ciphertext"
  FindAutomorphismIndex2n :: "nat \<Rightarrow> nat \<Rightarrow> nat"
  GetEvalAutomorphismKeyMap :: "string \<Rightarrow> error + (nat \<rightharpoonup> 'k)"
  EvalFastKeySwitchCore :: "'p list \<Rightarrow> 'k \<Rightarrow> nat list \<Rightarrow> 'p list"
  PrecomputeAutoMap :: "nat \<Rightarrow> nat \<Rightarrow> nat list"
  AutomorphismTransform :: "nat \<Rightarrow> nat list \<Rightarrow> 'p \<Rightarrow> 'p"

text \<open>Lines 226--329 of \<^verbatim>\<open>EvalMult\<close>: both operands are taken into the basis in which the
  tensor product is computed. The result carries the level index \<open>l\<close>.\<close>

definition mult_expand ::
  "Build \<Rightarrow> ('p, 'k) BFVKernel \<Rightarrow> CryptoParametersBFVRNS \<Rightarrow> nat \<Rightarrow> nat
     \<Rightarrow> 'p list \<Rightarrow> 'p list \<Rightarrow> (nat \<times> 'p list \<times> 'p list) option" where
  "mult_expand b K cryptoParams c1depth c2depth cv1 cv2 =
     (let sizeQ = GetNumOfElements K (cv1 ! 0);
          sizeQM = ParamsSize cryptoParams
      in if MultiplicationTech cryptoParams = HPS then
           Some (0, map (ExpandCRTBasis K cryptoParams DefaultIndex) cv1,
                    map (ExpandCRTBasis K cryptoParams DefaultIndex) cv2)
         else if MultiplicationTech cryptoParams = HPSPOVERQ
                 \<or> (MultiplicationTech cryptoParams = HPSPOVERQLEVELED \<and> sizeQ < sizeQM) then
           Some (0, map (ExpandCRTBasis K cryptoParams (Index (size_t_sub sizeQ 1))) cv1,
                    map (\<lambda>c. SetFormat K EVALUATION
                               (FastExpandCRTBasisPloverQ K cryptoParams
                                  (mNegRlQlHatInvModq (size_t_sub sizeQ 1))
                                  (SetFormat K COEFFICIENT c))) cv2)
         else if MultiplicationTech cryptoParams = HPSPOVERQLEVELED \<and> sizeQ = sizeQM then
           (let levels = size_t_sub (max c1depth c2depth) 1;
                dcrtBits = ModulusMSB K (cv1 ! 0)
            in case FindLevelsToDrop b (to_uint32 levels) cryptoParams dcrtBits False of
                 None \<Rightarrow> None
               | Some levelsDropped \<Rightarrow>
                   (let l = (if levelsDropped > 0
                             then size_t_sub (size_t_sub sizeQ 1) levelsDropped
                             else size_t_sub sizeQ 1)
                    in Some (l,
                         map (\<lambda>c. let c1 = SetFormat K COEFFICIENT c;
                                      c2 = (if l < size_t_sub sizeQ 1
                                            then ScaleAndRound K cryptoParams (QlQHatInvModqDivq l) c1
                                            else c1)
                                  in ExpandCRTBasis K cryptoParams (Index l) c2) cv1,
                         map (\<lambda>c. SetFormat K EVALUATION
                                    (FastExpandCRTBasisPloverQ K cryptoParams (mNegRlQHatInvModq l)
                                       (SetFormat K COEFFICIENT c))) cv2)))
         else
           Some (0, map (\<lambda>c. SetFormat K EVALUATION (FastBaseConvqToBskMontgomery K cryptoParams c)) cv1,
                    map (\<lambda>c. SetFormat K EVALUATION (FastBaseConvqToBskMontgomery K cryptoParams c)) cv2))"

text \<open>One iteration of the inner loop of lines 359--369: the first product that reaches a
  position is assigned, the later ones are added.\<close>

fun tensor_step :: "'p::comm_ring list \<Rightarrow> 'p list \<Rightarrow> nat \<Rightarrow> nat \<Rightarrow> 'p list \<times> bool list \<Rightarrow> 'p list \<times> bool list" where
  "tensor_step cv1 cv2 i j (cvMult, isFirstAdd) =
     (if isFirstAdd ! (i + j)
      then (cvMult[i + j := cv1 ! i * cv2 ! j], isFirstAdd[i + j := False])
      else (cvMult[i + j := cvMult ! (i + j) + cv1 ! i * cv2 ! j], isFirstAdd))"

definition tensor_loop :: "'p::comm_ring list \<Rightarrow> 'p list \<Rightarrow> 'p list \<Rightarrow> 'p list" where
  "tensor_loop cv1 cv2 cvMult =
     fst (fold (\<lambda>i. fold (tensor_step cv1 cv2 i) [0..<length cv2]) [0..<length cv1]
            (cvMult, replicate (length cvMult) True))"

text \<open>Lines 331--370. With \<^verbatim>\<open>USE_KARATSUBA\<close> two ciphertexts of two elements are multiplied
  with three products.\<close>

definition tensor_product :: "Build \<Rightarrow> 'p::comm_ring \<Rightarrow> 'p list \<Rightarrow> 'p list \<Rightarrow> 'p list" where
  "tensor_product b dflt cv1 cv2 =
     (let cv1Size = length cv1;
          cv2Size = length cv2;
          cvMultSize = cv1Size + cv2Size - 1;
          cvMult = replicate cvMultSize dflt
      in if USE_KARATSUBA b \<and> cv1Size = 2 \<and> cv2Size = 2 then
           (let a = cv1 ! 0 * cv2 ! 0;
                b' = cv1 ! 1 * cv2 ! 1;
                m = (cv1 ! 0 + cv1 ! 1) * (cv2 ! 0 + cv2 ! 1) - b' - a
            in cvMult[0 := a, 2 := b', 1 := m])
         else tensor_loop cv1 cv2 cvMult)"

text \<open>Lines 372--437: scaling by \<open>t/Q\<close> (or \<open>t/P\<close>) and return to the basis \<open>Q\<close>.\<close>

definition mult_scale ::
  "('p, 'k) BFVKernel \<Rightarrow> CryptoParametersBFVRNS \<Rightarrow> nat \<Rightarrow> nat \<Rightarrow> 'p list \<Rightarrow> 'p list" where
  "mult_scale K cryptoParams sizeQ l cvMult =
     (let sizeQM = ParamsSize cryptoParams
      in if MultiplicationTech cryptoParams = HPS then
           map (\<lambda>c. SwitchCRTBasis K cryptoParams
                      (ScaleAndRound K cryptoParams tRSHatInvModsDivs (SetFormat K COEFFICIENT c))) cvMult
         else if MultiplicationTech cryptoParams = HPSPOVERQ
                 \<or> (MultiplicationTech cryptoParams = HPSPOVERQLEVELED \<and> sizeQ < sizeQM) then
           (let l1 = size_t_sub sizeQ 1
            in map (\<lambda>c. ScaleAndRound K cryptoParams (tQlSlHatInvModsDivs l1)
                          (SetFormat K COEFFICIENT c)) cvMult)
         else if MultiplicationTech cryptoParams = HPSPOVERQLEVELED \<and> sizeQ = sizeQM then
           map (\<lambda>c. let c1 = ScaleAndRound K cryptoParams (tQlSlHatInvModsDivs l)
                                (SetFormat K COEFFICIENT c)
                    in if l < size_t_sub sizeQ 1
                       then ExpandCRTBasisQlHat K cryptoParams l sizeQ c1
                       else c1) cvMult
         else
           map (\<lambda>c. FastBaseConvSK K cryptoParams
                      (FastRNSFloorq K cryptoParams (SetFormat K COEFFICIENT c))) cvMult)"

text \<open>\<^verbatim>\<open>LeveledSHEBFVRNS::EvalMult(ciphertext1, ciphertext2)\<close>, lines 198--442. The outer
  \<open>None\<close> is a run that stays in the loop of \<open>FindLevelsToDrop\<close>. The noise scale degree
  is a \<^verbatim>\<open>size_t\<close>, as lines 268, 269 and 499 read it: the sum of line 440 is taken
  modulo \<open>2^64\<close>.\<close>

definition EvalMult ::
  "Build \<Rightarrow> ('p::comm_ring, 'k) BFVKernel \<Rightarrow> ('p, CryptoParametersBFVRNS) Ciphertext
     \<Rightarrow> ('p, CryptoParametersBFVRNS) Ciphertext
     \<Rightarrow> (error + ('p, CryptoParametersBFVRNS) Ciphertext) option" where
  "EvalMult b K ciphertext1 ciphertext2 =
     (if \<not> (CryptoParameters ciphertext1 = CryptoParameters ciphertext2) then
        Some (Inl ParameterMismatch)
      else
        (let ciphertextMult = CloneEmpty K ciphertext1;
             cryptoParams = CryptoParameters ciphertext1;
             cv1 = Elements ciphertext1;
             cv2 = Elements ciphertext2
         in if cv1 = [] then Some (Inl OutOfRange)
            else
              (let sizeQ = GetNumOfElements K (cv1 ! 0)
               in case mult_expand b K cryptoParams (NoiseScaleDeg ciphertext1)
                         (NoiseScaleDeg ciphertext2) cv1 cv2 of
                    None \<Rightarrow> None
                  | Some (l, cv1e, cv2e) \<Rightarrow>
                      (let cvMult = tensor_product b (DefaultPoly K) cv1e cv2e;
                           cvMult1 = mult_scale K cryptoParams sizeQ l cvMult
                       in Some (Inr (ciphertextMult
                            \<lparr>Elements := cvMult1,
                             NoiseScaleDeg :=
                               size_t_add
                                 (max (NoiseScaleDeg ciphertext1) (NoiseScaleDeg ciphertext2))
                                 1\<rparr>))))))"

section \<open>Scheme A: squaring\<close>

text \<open>Lines 463--551 of \<^verbatim>\<open>EvalSquare\<close>. The second component is the vector
  \<^verbatim>\<open>cvPoverQ\<close>, which stays empty under \<open>HPS\<close> and in the last branch.\<close>

definition square_expand ::
  "Build \<Rightarrow> ('p, 'k) BFVKernel \<Rightarrow> CryptoParametersBFVRNS \<Rightarrow> nat
     \<Rightarrow> 'p list \<Rightarrow> (nat \<times> 'p list \<times> 'p list) option" where
  "square_expand b K cryptoParams cdepth cv =
     (let sizeQ = GetNumOfElements K (cv ! 0);
          sizeQM = ParamsSize cryptoParams
      in if MultiplicationTech cryptoParams = HPS then
           Some (0, map (ExpandCRTBasis K cryptoParams DefaultIndex) cv, [])
         else if MultiplicationTech cryptoParams = HPSPOVERQ
                 \<or> (MultiplicationTech cryptoParams = HPSPOVERQLEVELED \<and> sizeQ < sizeQM) then
           (let cvPoverQ = cv
            in Some (0, map (ExpandCRTBasis K cryptoParams (Index (size_t_sub sizeQ 1))) cv,
                        map (\<lambda>c. SetFormat K EVALUATION
                                   (FastExpandCRTBasisPloverQ K cryptoParams
                                      (mNegRlQlHatInvModq (size_t_sub sizeQ 1))
                                      (SetFormat K COEFFICIENT c))) cvPoverQ))
         else if MultiplicationTech cryptoParams = HPSPOVERQLEVELED \<and> sizeQ = sizeQM then
           (let levels = size_t_sub cdepth 1;
                dcrtBits = ModulusMSB K (cv ! 0)
            in case FindLevelsToDrop b (to_uint32 levels) cryptoParams dcrtBits False of
                 None \<Rightarrow> None
               | Some levelsDropped \<Rightarrow>
                   (let l = (if levelsDropped > 0
                             then size_t_sub (size_t_sub sizeQ 1) levelsDropped
                             else size_t_sub sizeQ 1);
                        cvc = map (SetFormat K COEFFICIENT) cv;
                        cvPoverQ = cvc
                    in Some (l,
                         map (\<lambda>c. let c2 = (if l < size_t_sub sizeQ 1
                                            then ScaleAndRound K cryptoParams (QlQHatInvModqDivq l) c
                                            else c)
                                  in ExpandCRTBasis K cryptoParams (Index l) c2) cvc,
                         map (\<lambda>c. SetFormat K EVALUATION
                                    (FastExpandCRTBasisPloverQ K cryptoParams (mNegRlQHatInvModq l) c))
                             cvPoverQ)))
         else
           Some (0, map (\<lambda>c. SetFormat K EVALUATION (FastBaseConvqToBskMontgomery K cryptoParams c)) cv,
                    []))"

text \<open>One iteration of the inner loop of lines 625--649, which runs over \<open>j \<ge> i\<close> only: a
  product off the diagonal is added twice.\<close>

fun square_step :: "'p::comm_ring list \<Rightarrow> nat \<Rightarrow> nat \<Rightarrow> 'p list \<times> bool list \<Rightarrow> 'p list \<times> bool list" where
  "square_step cv i j (cvSquare, isFirstAdd) =
     (if isFirstAdd ! (i + j) then
        (if j = i then (cvSquare[i + j := cv ! i * cv ! j], isFirstAdd[i + j := False])
         else (let cvtemp = cv ! i * cv ! j;
                   cvSquare1 = cvSquare[i + j := cvtemp]
               in (cvSquare1[i + j := cvSquare1 ! (i + j) + cvtemp], isFirstAdd[i + j := False])))
      else
        (if j = i then (cvSquare[i + j := cvSquare ! (i + j) + cv ! i * cv ! j], isFirstAdd)
         else (let cvtemp = cv ! i * cv ! j;
                   cvSquare1 = cvSquare[i + j := cvSquare ! (i + j) + cvtemp]
               in (cvSquare1[i + j := cvSquare1 ! (i + j) + cvtemp], isFirstAdd))))"

definition square_loop :: "'p::comm_ring list \<Rightarrow> 'p list \<Rightarrow> 'p list" where
  "square_loop cv cvSquare =
     fst (fold (\<lambda>i. fold (square_step cv i) [i..<length cv]) [0..<length cv]
            (cvSquare, replicate (length cvSquare) True))"

text \<open>Lines 621--663, the text between \<^verbatim>\<open>#else\<close> and \<^verbatim>\<open>#endif\<close>: the product
  in a build without \<^verbatim>\<open>USE_KARATSUBA\<close>. Under \<open>HPS\<close> and \<open>BEHZ\<close> the half loop is used;
  otherwise the full loop of the multiplication, on \<^verbatim>\<open>cv\<close> and \<^verbatim>\<open>cvPoverQ\<close>, whose
  elements are read at the indices of \<^verbatim>\<open>cv\<close>.\<close>

definition square_product ::
  "'p::comm_ring \<Rightarrow> MultiplicationTechnique \<Rightarrow> 'p list \<Rightarrow> 'p list \<Rightarrow> error + 'p list" where
  "square_product dflt tech cv cvPoverQ =
     (let cvSize = length cv;
          cvSqSize = 2 * cvSize - 1;
          cvSquare = replicate cvSqSize dflt
      in if tech = HPS \<or> tech = BEHZ then Inr (square_loop cv cvSquare)
         else if length cvPoverQ < cvSize then Inl OutOfRange
         else Inr (fst (fold (\<lambda>i. fold (tensor_step cv cvPoverQ i) [0..<cvSize]) [0..<cvSize]
                          (cvSquare, replicate cvSqSize True))))"

text \<open>\<^verbatim>\<open>LeveledSHEBFVRNS::EvalSquare(ciphertext)\<close>, lines 444--737. With
  \<^verbatim>\<open>USE_KARATSUBA\<close> the product is the text of lines 555--619, and line 561,
  \<^verbatim>\<open>cvSquare[1] = cv1[0] * cv1[1]\<close>, names \<^verbatim>\<open>cv1\<close>, which \<^verbatim>\<open>EvalSquare\<close> does not
  declare: the only vectors in scope are \<^verbatim>\<open>cv\<close>, \<^verbatim>\<open>cvPoverQ\<close> and \<^verbatim>\<open>cvSquare\<close>. In
  such a build the function has no run, whatever its argument, and the embedding does not
  choose a vector in its place. The sum of line 734 is taken modulo \<open>2^64\<close>.\<close>

definition EvalSquare ::
  "Build \<Rightarrow> ('p::comm_ring, 'k) BFVKernel \<Rightarrow> ('p, CryptoParametersBFVRNS) Ciphertext
     \<Rightarrow> (error + ('p, CryptoParametersBFVRNS) Ciphertext) option" where
  "EvalSquare b K ciphertext =
     (if USE_KARATSUBA b then Some (Inl (UndeclaredIdentifier ''cv1''))
      else
        (let ciphertextSq = CloneEmpty K ciphertext;
             cryptoParams = CryptoParameters ciphertext;
             cv = Elements ciphertext
         in if cv = [] then Some (Inl OutOfRange)
            else
              (let sizeQ = GetNumOfElements K (cv ! 0)
               in case square_expand b K cryptoParams (NoiseScaleDeg ciphertext) cv of
                    None \<Rightarrow> None
                  | Some (l, cve, cvPoverQ) \<Rightarrow>
                      (case square_product (DefaultPoly K) (MultiplicationTech cryptoParams)
                              cve cvPoverQ of
                         Inl e \<Rightarrow> Some (Inl e)
                       | Inr cvSquare \<Rightarrow>
                           (let cvSquare1 = mult_scale K cryptoParams sizeQ l cvSquare
                            in Some (Inr (ciphertextSq
                                 \<lparr>Elements := cvSquare1,
                                  NoiseScaleDeg := size_t_add (NoiseScaleDeg ciphertext) 1\<rparr>)))))))"

section \<open>Scheme A: fast rotation\<close>

text \<open>\<^verbatim>\<open>LeveledSHEBFVRNS::EvalFastRotation\<close>, lines 823--891. The parameters of the digits
  are the list of their moduli; under hybrid key switching the auxiliary moduli are removed
  from its end.\<close>

definition EvalFastRotation ::
  "('p::comm_ring, 'k) BFVKernel \<Rightarrow> ('p, CryptoParametersBFVRNS) Ciphertext \<Rightarrow> nat \<Rightarrow> nat
     \<Rightarrow> 'p list \<Rightarrow> error + ('p, CryptoParametersBFVRNS) Ciphertext" where
  "EvalFastRotation K ciphertext index m digits =
     (if index = 0 then Inr ciphertext
      else
        (let autoIndex = FindAutomorphismIndex2n K index m
         in case GetEvalAutomorphismKeyMap K (KeyTag ciphertext) of
              Inl e \<Rightarrow> Inl e
            | Inr evalKeyMap \<Rightarrow>
                (case evalKeyMap autoIndex of
                   None \<Rightarrow> Inl (EvalKeyNotFound autoIndex)
                 | Some evalKey \<Rightarrow>
                     (let cv = Elements ciphertext;
                          cryptoParams = CryptoParameters ciphertext
                      in if digits = [] \<or> cv = [] then Inl OutOfRange
                         else
                           (let elemParams0 = GetParams K (digits ! 0);
                                elemParams =
                                  (if KeySwitchTech cryptoParams = HYBRID
                                   then take (length elemParams0 - ParamsPSize cryptoParams) elemParams0
                                   else elemParams0);
                                ba = EvalFastKeySwitchCore K digits evalKey elemParams;
                                sizeQ = GetNumOfElements K (cv ! 0);
                                sizeQM = ParamsSize cryptoParams
                            in if length ba < 2 then Inl OutOfRange
                               else
                                 (let ba1 =
                                        (if MultiplicationTech cryptoParams = HPSPOVERQLEVELED
                                            \<and> sizeQ = sizeQM
                                         then (let l = to_uint32 (size_t_sub (length elemParams) 1)
                                               in ba[0 := ExpandCRTBasisQlHat K cryptoParams l sizeQ (ba ! 0),
                                                     1 := ExpandCRTBasisQlHat K cryptoParams l sizeQ (ba ! 1)])
                                         else ba);
                                      N = RingDimension cryptoParams;
                                      vec = PrecomputeAutoMap K N autoIndex;
                                      ba2 = ba1[0 := ba1 ! 0 + cv ! 0];
                                      ba3 = ba2[0 := AutomorphismTransform K autoIndex vec (ba2 ! 0)];
                                      ba4 = ba3[1 := AutomorphismTransform K autoIndex vec (ba3 ! 1)]
                                  in Inr (ciphertext\<lparr>Elements := [ba4 ! 0, ba4 ! 1]\<rparr>)))))))"

section \<open>Scheme B: data\<close>

text \<open>In this part \<^verbatim>\<open>uint32_t\<close> values are 32-bit words, so that \<open>+\<close>, \<open>-\<close>, \<open>*\<close> wrap as
  in the source; \<open>sint\<close> is the conversion to \<^verbatim>\<open>int32_t\<close>. \<^verbatim>\<open>std::round\<close> rounds halves
  away from zero.\<close>

definition cpp_round :: "real \<Rightarrow> int" where
  "cpp_round x = (if 0 \<le> x then \<lfloor>x + 1 / 2\<rfloor> else \<lceil>x - 1 / 2\<rceil>)"

definition real_to_uint32 :: "real \<Rightarrow> uint32" where
  "real_to_uint32 x = word_of_int \<lfloor>x\<rfloor>"

definition log2_u32 :: "uint32 \<Rightarrow> real" where
  "log2_u32 x = log 2 (real (unat x))"

record CryptoParametersCKKSRNS =
  GetKeySwitchTechnique :: KeySwitchTechnique
  GetScalingTechnique :: ScalingTechnique
  GetSecretKeyDist :: SecretKeyDist
  GetCompositeDegree :: uint32
  GetPlaintextModulus :: nat
  GetModuli :: "nat list"
  GetScalingFactorReal :: "nat \<Rightarrow> real"

text \<open>The vector that \<^verbatim>\<open>GetCollapsedFFTParams\<close> returns is read through the enumeration
  \<^verbatim>\<open>CKKS_BOOT_PARAMS\<close>; its entries are \<^verbatim>\<open>int32_t\<close>.\<close>

record CollapsedFFTParams =
  LEVEL_BUDGET :: uint32
  LAYERS_COLL :: uint32
  LAYERS_REM :: uint32
  NUM_ROTATIONS :: uint32
  BABY_STEP :: uint32
  GIANT_STEP :: uint32
  NUM_ROTATIONS_REM :: uint32
  BABY_STEP_REM :: uint32
  GIANT_STEP_REM :: uint32

record 'pt CKKSBootstrapPrecom =
  m_slots :: uint32
  m_dim1 :: uint32
  m_paramsEnc :: CollapsedFFTParams
  m_paramsDec :: CollapsedFFTParams
  m_U0hatTPre :: "'pt list"
  m_U0Pre :: "'pt list"
  m_U0hatTPreFFT :: "'pt list list"
  m_U0PreFFT :: "'pt list list"

record 'pt FHECKKSRNS =
  m_correctionFactor :: uint32
  m_bootPrecomMap :: "uint32 \<rightharpoonup> 'pt CKKSBootstrapPrecom"

text \<open>The crypto context of scheme B: its parameters, the constants of the header
  (\<^verbatim>\<open>K_SPARSE\<close>, \<^verbatim>\<open>R_UNIFORM\<close>, the Chebyshev coefficients), the helpers of
  \<^verbatim>\<open>ckksrns-utils\<close>, the operations of the context and of the scheme on ciphertexts, and
  the functions of \<^verbatim>\<open>ckksrns-fhe.cpp\<close> whose bodies are arithmetic on polynomials and on
  encoded plaintexts (\<^verbatim>\<open>AdjustCiphertext\<close>, \<^verbatim>\<open>ExtendCiphertext\<close>,
  \<^verbatim>\<open>EvalLinearTransform\<close>, \<^verbatim>\<open>EvalCoeffsToSlots\<close>, \<^verbatim>\<open>EvalSlotsToCoeffs\<close>,
  \<^verbatim>\<open>Conjugate\<close> and the four precomputations). The embedding describes the runs in which
  these operations return.\<close>

record ('p, 'k, 'pt, 'sk) CKKSContext =
  GetCyclotomicOrder :: uint32
  GetRingDimension :: nat
  GetCryptoParametersCC :: CryptoParametersCKKSRNS
  K_SPARSE :: real
  K_UNIFORM :: real
  K_UNIFORMEXT :: real
  R_UNIFORM :: uint32
  R_SPARSE :: uint32
  g_coefficientsSparse :: "real list"
  g_coefficientsUniform :: "real list"
  g_coefficientsUniformExt :: "real list"
  GetCollapsedFFTParams :: "uint32 \<Rightarrow> uint32 \<Rightarrow> uint32 \<Rightarrow> CollapsedFFTParams"
  ReduceRotation :: "int \<Rightarrow> uint32 \<Rightarrow> uint32"
  GetMultiplicativeDepthByCoeffVector :: "real list \<Rightarrow> bool \<Rightarrow> uint32"
  NumOfElements :: "'p \<Rightarrow> nat"
  DropLastElements :: "nat \<Rightarrow> 'p \<Rightarrow> 'p"
  RaiseElement :: "nat list \<Rightarrow> 'p \<Rightarrow> 'p"
  MultByIntegerInPlace :: "('p, CryptoParametersCKKSRNS) Ciphertext \<Rightarrow> nat \<Rightarrow> ('p, CryptoParametersCKKSRNS) Ciphertext"
  MultByMonomialInPlace :: "('p, CryptoParametersCKKSRNS) Ciphertext \<Rightarrow> uint32 \<Rightarrow> ('p, CryptoParametersCKKSRNS) Ciphertext"
  ModReduceInternalInPlace :: "('p, CryptoParametersCKKSRNS) Ciphertext \<Rightarrow> nat \<Rightarrow> ('p, CryptoParametersCKKSRNS) Ciphertext"
  ModReduceInPlace :: "('p, CryptoParametersCKKSRNS) Ciphertext \<Rightarrow> ('p, CryptoParametersCKKSRNS) Ciphertext"
  EvalSub :: "('p, CryptoParametersCKKSRNS) Ciphertext \<Rightarrow> ('p, CryptoParametersCKKSRNS) Ciphertext \<Rightarrow> ('p, CryptoParametersCKKSRNS) Ciphertext"
  EvalAdd :: "('p, CryptoParametersCKKSRNS) Ciphertext \<Rightarrow> ('p, CryptoParametersCKKSRNS) Ciphertext \<Rightarrow> ('p, CryptoParametersCKKSRNS) Ciphertext"
  EvalAddConst :: "('p, CryptoParametersCKKSRNS) Ciphertext \<Rightarrow> real \<Rightarrow> ('p, CryptoParametersCKKSRNS) Ciphertext"
  EvalMultConst :: "('p, CryptoParametersCKKSRNS) Ciphertext \<Rightarrow> real \<Rightarrow> ('p, CryptoParametersCKKSRNS) Ciphertext"
  EvalSquareInPlace :: "('p, CryptoParametersCKKSRNS) Ciphertext \<Rightarrow> ('p, CryptoParametersCKKSRNS) Ciphertext"
  EvalRotate :: "('p, CryptoParametersCKKSRNS) Ciphertext \<Rightarrow> uint32 \<Rightarrow> ('p, CryptoParametersCKKSRNS) Ciphertext"
  EvalChebyshevSeries :: "('p, CryptoParametersCKKSRNS) Ciphertext \<Rightarrow> real list \<Rightarrow> real \<Rightarrow> real \<Rightarrow> ('p, CryptoParametersCKKSRNS) Ciphertext"
  EvalAutomorphismKeyMap :: "string \<Rightarrow> (uint32 \<rightharpoonup> 'k)"
  AdjustCiphertext :: "('p, CryptoParametersCKKSRNS) Ciphertext \<Rightarrow> real \<Rightarrow> ('p, CryptoParametersCKKSRNS) Ciphertext"
  ExtendCiphertext :: "'p list \<Rightarrow> nat list \<Rightarrow> 'p list"
  EvalLinearTransform :: "'pt list \<Rightarrow> ('p, CryptoParametersCKKSRNS) Ciphertext \<Rightarrow> ('p, CryptoParametersCKKSRNS) Ciphertext"
  EvalCoeffsToSlots :: "'pt list list \<Rightarrow> ('p, CryptoParametersCKKSRNS) Ciphertext \<Rightarrow> ('p, CryptoParametersCKKSRNS) Ciphertext"
  EvalSlotsToCoeffs :: "'pt list list \<Rightarrow> ('p, CryptoParametersCKKSRNS) Ciphertext \<Rightarrow> ('p, CryptoParametersCKKSRNS) Ciphertext"
  Conjugate :: "('p, CryptoParametersCKKSRNS) Ciphertext \<Rightarrow> (uint32 \<rightharpoonup> 'k) \<Rightarrow> ('p, CryptoParametersCKKSRNS) Ciphertext"
  EvalLinearTransformPrecompute :: "complex list list \<Rightarrow> real \<Rightarrow> uint32 \<Rightarrow> 'pt list"
  EvalLinearTransformPrecompute2 :: "complex list list \<Rightarrow> complex list list \<Rightarrow> uint32 \<Rightarrow> real \<Rightarrow> uint32 \<Rightarrow> 'pt list"
  EvalCoeffsToSlotsPrecompute :: "complex list \<Rightarrow> uint32 list \<Rightarrow> bool \<Rightarrow> real \<Rightarrow> uint32 \<Rightarrow> 'pt list list"
  EvalSlotsToCoeffsPrecompute :: "complex list \<Rightarrow> uint32 list \<Rightarrow> bool \<Rightarrow> real \<Rightarrow> uint32 \<Rightarrow> 'pt list list"
  EvalAtIndexKeyGen :: "'sk \<Rightarrow> int list \<Rightarrow> (uint32 \<rightharpoonup> 'k)"
  ConjugateKeyGen :: "'sk \<Rightarrow> 'k"

text \<open>\<^verbatim>\<open>GetBigModulus\<close>, lines 65--73: the product of the first \<^verbatim>\<open>compositeDegree\<close>
  moduli.\<close>

definition GetBigModulus :: "CryptoParametersCKKSRNS \<Rightarrow> error + real" where
  "GetBigModulus cryptoParams =
     (let compositeDegree = unat (GetCompositeDegree cryptoParams)
      in if length (GetModuli cryptoParams) < compositeDegree then Inl OutOfRange
         else Inr (fold (\<lambda>j qDouble. qDouble * real (GetModuli cryptoParams ! j))
                     [0..<compositeDegree] 1))"

text \<open>\<^verbatim>\<open>FHECKKSRNS::GetModDepthInternal\<close>, lines 2134--2141.\<close>

definition GetModDepthInternal :: "('p, 'k, 'pt, 'sk) CKKSContext \<Rightarrow> SecretKeyDist \<Rightarrow> uint32" where
  "GetModDepthInternal cc secretKeyDist =
     (if secretKeyDist = UNIFORM_TERNARY
      then GetMultiplicativeDepthByCoeffVector cc (g_coefficientsUniform cc) False + R_UNIFORM cc
      else GetMultiplicativeDepthByCoeffVector cc (g_coefficientsSparse cc) False + R_SPARSE cc)"

section \<open>Scheme B: bootstrapping setup\<close>

text \<open>Lines 161--177: the powers of five modulo \<open>m\<close> and the powers of the primitive
  \<open>m\<close>-th root of unity.\<close>

primrec rotGroup_from :: "uint32 \<Rightarrow> uint32 \<Rightarrow> nat \<Rightarrow> uint32 list" where
  "rotGroup_from fivePows m 0 = []"
| "rotGroup_from fivePows m (Suc n) = fivePows # rotGroup_from ((fivePows * 5) mod m) m n"

definition ksiPows_of :: "uint32 \<Rightarrow> complex list" where
  "ksiPows_of m =
     map (\<lambda>j. cis (2 * pi * real j / real (unat m))) [0..<unat m] @ [cis 0]"

text \<open>Lines 208--220: the matrices of the one-level linear transforms.\<close>

definition U0_matrix :: "complex list \<Rightarrow> uint32 list \<Rightarrow> uint32 \<Rightarrow> uint32 \<Rightarrow> complex list list" where
  "U0_matrix ksiPows rotGroup m slots =
     map (\<lambda>i. map (\<lambda>j. ksiPows ! ((j * unat (rotGroup ! i)) mod unat m)) [0..<unat slots])
       [0..<unat slots]"

definition U1_matrix :: "complex list \<Rightarrow> uint32 list \<Rightarrow> uint32 \<Rightarrow> uint32 \<Rightarrow> complex list list" where
  "U1_matrix ksiPows rotGroup m slots =
     map (map (\<lambda>u. \<i> * u)) (U0_matrix ksiPows rotGroup m slots)"

definition hatT :: "complex list list \<Rightarrow> uint32 \<Rightarrow> complex list list" where
  "hatT U slots =
     map (\<lambda>j. map (\<lambda>i. cnj (U ! i ! j)) [0..<unat slots]) [0..<unat slots]"

text \<open>Lines 157--235: the block of \<^verbatim>\<open>EvalBootstrapSetup\<close> that runs when
  \<^verbatim>\<open>precompute\<close> is set.\<close>

definition setup_precompute ::
  "('p, 'k, 'pt, 'sk) CKKSContext \<Rightarrow> uint32 \<Rightarrow> real \<Rightarrow> 'pt CKKSBootstrapPrecom
     \<Rightarrow> 'pt CKKSBootstrapPrecom" where
  "setup_precompute cc slots qDouble precom =
     (let cryptoParams = GetCryptoParametersCC cc;
          M = GetCyclotomicOrder cc;
          m = 4 * slots;
          isSparse = (M \<noteq> m);
          rotGroup = rotGroup_from 1 m (unat slots);
          ksiPows = ksiPows_of m;
          compositeDegree = GetCompositeDegree cryptoParams;
          factor = (2::real) ^ unat (real_to_uint32 (real_of_int (cpp_round (log 2 qDouble))));
          pre = (if compositeDegree > 1 then 1 else qDouble / factor);
          k = (if GetSecretKeyDist cryptoParams = SPARSE_TERNARY then K_SPARSE cc else 1);
          scaleEnc = pre / k;
          scaleDec = (if compositeDegree > 1
                      then qDouble / GetScalingFactorReal cryptoParams 0
                      else 1 / pre);
          approxModDepth = GetModDepthInternal cc (GetSecretKeyDist cryptoParams);
          depthBT = approxModDepth + LEVEL_BUDGET (m_paramsEnc precom)
                      + LEVEL_BUDGET (m_paramsDec precom);
          L0 = (word_of_nat (length (GetModuli cryptoParams)) :: uint32);
          L0' = (if GetScalingTechnique cryptoParams = FLEXIBLEAUTOEXT then L0 - 1 else L0);
          lEnc = L0' - compositeDegree * (LEVEL_BUDGET (m_paramsEnc precom) + 1);
          lDec = L0' - compositeDegree * depthBT;
          isLTBootstrap = (LEVEL_BUDGET (m_paramsEnc precom) = 1
                             \<and> LEVEL_BUDGET (m_paramsDec precom) = 1)
      in if isLTBootstrap then
           (let U0 = U0_matrix ksiPows rotGroup m slots;
                U1 = U1_matrix ksiPows rotGroup m slots;
                U0hatT = hatT U0 slots;
                U1hatT = hatT U1 slots
            in if \<not> isSparse then
                 precom\<lparr>m_U0hatTPre := EvalLinearTransformPrecompute cc U0hatT scaleEnc lEnc,
                        m_U0Pre := EvalLinearTransformPrecompute cc U0 scaleDec lDec\<rparr>
               else
                 precom\<lparr>m_U0hatTPre := EvalLinearTransformPrecompute2 cc U0hatT U1hatT 0 scaleEnc lEnc,
                        m_U0Pre := EvalLinearTransformPrecompute2 cc U0 U1 1 scaleDec lDec\<rparr>)
         else
           precom\<lparr>m_U0hatTPreFFT := EvalCoeffsToSlotsPrecompute cc ksiPows rotGroup False scaleEnc lEnc,
                  m_U0PreFFT := EvalSlotsToCoeffsPrecompute cc ksiPows rotGroup False scaleDec lDec\<rparr>)"

text \<open>Lines 97--120: the default correction factor.\<close>

definition default_correctionFactor :: "CryptoParametersCKKSRNS \<Rightarrow> uint32 \<Rightarrow> uint32 \<Rightarrow> uint32" where
  "default_correctionFactor cryptoParams M slots =
     (if GetScalingTechnique cryptoParams = FLEXIBLEAUTO
         \<or> GetScalingTechnique cryptoParams = FLEXIBLEAUTOEXT
         \<or> GetScalingTechnique cryptoParams = COMPOSITESCALINGAUTO
         \<or> GetScalingTechnique cryptoParams = COMPOSITESCALINGMANUAL
      then (let tmp = real_of_int (cpp_round
                        (- 0.265 * (2 * log2_u32 (M div 2) + log2_u32 slots) + 19.1))
            in if tmp < 7 then 7 else if tmp > 13 then 13 else real_to_uint32 tmp)
      else 9)"

text \<open>Lines 127--152: the level budgets are brought into the range from one to
  \<^verbatim>\<open>logSlots\<close>.\<close>

definition logSlots_of :: "uint32 \<Rightarrow> uint32" where
  "logSlots_of slots =
     (let logSlots = real_to_uint32 (log2_u32 slots)
      in if logSlots = 0 then 1 else logSlots)"

definition clamp_budget :: "uint32 \<Rightarrow> uint32 \<Rightarrow> uint32" where
  "clamp_budget logSlots b =
     (let b1 = (if b > logSlots then logSlots else b)
      in if b1 < 1 then 1 else b1)"

text \<open>\<^verbatim>\<open>FHECKKSRNS::EvalBootstrapSetup\<close>, lines 81--236. The state is the object's
  correction factor and its map of precomputations. \<^verbatim>\<open>std::log2\<close> of zero slots is minus
  infinity, whose conversion to \<^verbatim>\<open>uint32_t\<close> is not defined.\<close>

definition EvalBootstrapSetup ::
  "Build \<Rightarrow> ('p, 'k, 'pt, 'sk) CKKSContext \<Rightarrow> 'pt FHECKKSRNS \<Rightarrow> uint32 list \<Rightarrow> uint32 list
     \<Rightarrow> uint32 \<Rightarrow> uint32 \<Rightarrow> bool \<Rightarrow> error + 'pt FHECKKSRNS" where
  "EvalBootstrapSetup bld cc this levelBudget dim1 numSlots correctionFactor precompute =
     (let cryptoParams = GetCryptoParametersCC cc
      in if GetKeySwitchTechnique cryptoParams \<noteq> HYBRID then Inl KeySwitchNotHybrid
         else if NATIVEINT bld = 128
                 \<and> (GetScalingTechnique cryptoParams = FLEXIBLEAUTO
                      \<or> GetScalingTechnique cryptoParams = FLEXIBLEAUTOEXT)
              then Inl NativeInt128Unsupported
         else
           (let M = GetCyclotomicOrder cc;
                slots = (if numSlots = 0 then M div 4 else numSlots);
                cf = (if correctionFactor = 0 then default_correctionFactor cryptoParams M slots
                      else correctionFactor)
            in if length dim1 < 2 \<or> length levelBudget < 2 \<or> slots = 0 then Inl OutOfRange
               else
                 (let logSlots = logSlots_of slots;
                      newBudget0 = clamp_budget logSlots (levelBudget ! 0);
                      newBudget1 = clamp_budget logSlots (levelBudget ! 1);
                      precom = \<lparr>m_slots = slots, m_dim1 = dim1 ! 0,
                                m_paramsEnc = GetCollapsedFFTParams cc slots newBudget0 (dim1 ! 0),
                                m_paramsDec = GetCollapsedFFTParams cc slots newBudget1 (dim1 ! 1),
                                m_U0hatTPre = [], m_U0Pre = [],
                                m_U0hatTPreFFT = [], m_U0PreFFT = []\<rparr>
                  in if precompute then
                       (case GetBigModulus cryptoParams of
                          Inl e \<Rightarrow> Inl e
                        | Inr qDouble \<Rightarrow>
                            Inr (this\<lparr>m_correctionFactor := cf,
                                      m_bootPrecomMap := (m_bootPrecomMap this)
                                        (slots \<mapsto> setup_precompute cc slots qDouble precom)\<rparr>))
                     else
                       Inr (this\<lparr>m_correctionFactor := cf,
                                 m_bootPrecomMap := (m_bootPrecomMap this)(slots \<mapsto> precom)\<rparr>))))"

section \<open>Scheme B: rotation indices and key generation\<close>

text \<open>The loop \<^verbatim>\<open>for (size_t j = 1; j < bound; j <<= 1)\<close>. The counter starts at one, so
  it is never zero; the test \<open>0 < j\<close> only makes the recursion well-founded.\<close>

function pow2_loop :: "nat \<Rightarrow> nat \<Rightarrow> nat list" where
  "pow2_loop j bound = (if 0 < j \<and> j < bound then j # pow2_loop (2 * j) bound else [])"
  by pat_completeness auto
termination
  by (relation "measure (\<lambda>(j, bound). bound - j)") auto

declare pow2_loop.simps [simp del]

text \<open>The additional automorphisms of sparse bootstrapping (lines 868--874, 934--940 and
  1001--1007). The quotient \<^verbatim>\<open>M / m\<close> is an integer division.\<close>

definition sparse_indices :: "uint32 \<Rightarrow> uint32 \<Rightarrow> error + uint32 list" where
  "sparse_indices slots M =
     (let m = slots * 4
      in if m \<noteq> M then
           (if m = 0 then Inl DivisionByZero
            else Inr (map (\<lambda>j. word_of_nat (j * unat slots)) (pow2_loop 1 (unat (M div m)))))
         else Inr [])"

text \<open>\<^verbatim>\<open>FindLinearTransformRotationIndices\<close>, lines 839--877. The three helpers look the
  precomputation up again; here they receive the one their caller has found.\<close>

definition FindLinearTransformRotationIndices ::
  "'pt CKKSBootstrapPrecom \<Rightarrow> uint32 \<Rightarrow> uint32 \<Rightarrow> error + uint32 list" where
  "FindLinearTransformRotationIndices precom slots M =
     (let g = (if m_dim1 precom = 0
               then real_to_uint32 (real_of_int \<lceil>sqrt (real (unat slots))\<rceil>)
               else m_dim1 precom);
          h = real_to_uint32 (real_of_int \<lceil>real (unat slots) / real (unat g)\<rceil>);
          indexListSz = sint (g + h + M - 2)
      in if indexListSz < 0 then Inl IndexListSizeNegative
         else
           (case sparse_indices slots M of
              Inl e \<Rightarrow> Inl e
            | Inr sp \<Rightarrow>
                Inr (map word_of_nat [1..<Suc (unat g)]
                       @ map (\<lambda>i. g * word_of_nat i) [2..<unat h]
                       @ sp)))"

text \<open>One level of the collapsed transform (lines 913--922 and 978--987): the rotations of
  the giant step, reduced modulo \<open>range1\<close>, and those of the baby step, reduced modulo
  \<open>range2\<close>.\<close>

definition level_indices ::
  "('p, 'k, 'pt, 'sk) CKKSContext \<Rightarrow> uint32 \<Rightarrow> uint32 \<Rightarrow> uint32 \<Rightarrow> uint32
     \<Rightarrow> uint32 \<Rightarrow> uint32 \<Rightarrow> uint32 list" where
  "level_indices cc numRotations b g scalingFactor range1 range2 =
     (let halfRots = 1 - (numRotations + 1) div 2
      in map (\<lambda>j. ReduceRotation cc (sint (word_of_int j * scalingFactor)) range1)
           [sint halfRots..sint (g + halfRots) - 1]
         @ map (\<lambda>i. ReduceRotation cc (sint (g * word_of_nat i * scalingFactor)) range2)
             [0..<unat b])"

text \<open>\<^verbatim>\<open>FindCoeffsToSlotsRotationIndices\<close>, lines 882--943.\<close>

definition FindCoeffsToSlotsRotationIndices ::
  "('p, 'k, 'pt, 'sk) CKKSContext \<Rightarrow> 'pt CKKSBootstrapPrecom \<Rightarrow> uint32 \<Rightarrow> uint32
     \<Rightarrow> error + uint32 list" where
  "FindCoeffsToSlotsRotationIndices cc precom slots M =
     (let levelBudget = LEVEL_BUDGET (m_paramsEnc precom);
          layersCollapse = LAYERS_COLL (m_paramsEnc precom);
          remCollapse = LAYERS_REM (m_paramsEnc precom);
          numRotations = NUM_ROTATIONS (m_paramsEnc precom);
          b = BABY_STEP (m_paramsEnc precom);
          g = GIANT_STEP (m_paramsEnc precom);
          numRotationsRem = NUM_ROTATIONS_REM (m_paramsEnc precom);
          bRem = BABY_STEP_REM (m_paramsEnc precom);
          gRem = GIANT_STEP_REM (m_paramsEnc precom);
          flagRem = (if remCollapse = 0 then 0 else 1);
          indexListSz = sint (b + g - 2 + bRem + gRem - 2 + 1 + M)
      in if indexListSz < 0 then Inl IndexListSizeNegative
         else
           (case sparse_indices slots M of
              Inl e \<Rightarrow> Inl e
            | Inr sp \<Rightarrow>
                Inr (concat (map (\<lambda>s. level_indices cc numRotations b g
                                         (push_bit (unat ((word_of_int s - flagRem) * layersCollapse
                                                            + remCollapse)) 1)
                                         slots (M div 4))
                               (rev [sint flagRem..sint levelBudget - 1]))
                       @ (if flagRem \<noteq> 0
                          then level_indices cc numRotationsRem bRem gRem 1 slots (M div 4)
                          else [])
                       @ sp)))"

text \<open>\<^verbatim>\<open>FindSlotsToCoeffsRotationIndices\<close>, lines 945--1010.\<close>

definition FindSlotsToCoeffsRotationIndices ::
  "('p, 'k, 'pt, 'sk) CKKSContext \<Rightarrow> 'pt CKKSBootstrapPrecom \<Rightarrow> uint32 \<Rightarrow> uint32
     \<Rightarrow> error + uint32 list" where
  "FindSlotsToCoeffsRotationIndices cc precom slots M =
     (let levelBudget = LEVEL_BUDGET (m_paramsDec precom);
          layersCollapse = LAYERS_COLL (m_paramsDec precom);
          remCollapse = LAYERS_REM (m_paramsDec precom);
          numRotations = NUM_ROTATIONS (m_paramsDec precom);
          b = BABY_STEP (m_paramsDec precom);
          g = GIANT_STEP (m_paramsDec precom);
          numRotationsRem = NUM_ROTATIONS_REM (m_paramsDec precom);
          bRem = BABY_STEP_REM (m_paramsDec precom);
          gRem = GIANT_STEP_REM (m_paramsDec precom);
          flagRem = (if remCollapse = 0 then 0 else 1);
          indexListSz = sint (b + g - 2 + bRem + gRem - 2 + 1 + M)
      in if levelBudget < flagRem then Inl LevelBudgetLessThanFlagRem
         else if indexListSz < 0 then Inl IndexListSizeNegative
         else
           (case sparse_indices slots M of
              Inl e \<Rightarrow> Inl e
            | Inr sp \<Rightarrow>
                Inr (concat (map (\<lambda>s. level_indices cc numRotations b g
                                         (push_bit (s * unat layersCollapse) 1)
                                         (M div 4) (M div 4))
                               [0..<unat (levelBudget - flagRem)])
                       @ (if flagRem \<noteq> 0
                          then level_indices cc numRotationsRem bRem gRem
                                 (push_bit (unat ((levelBudget - flagRem) * layersCollapse)) 1)
                                 (M div 4) (M div 4)
                          else [])
                       @ sp)))"

text \<open>\<^verbatim>\<open>FHECKKSRNS::FindBootstrapRotationIndices\<close>, lines 802--834. The
  \<^verbatim>\<open>std::set<uint32_t>\<close> holds each index once, in increasing order; the result converts
  its elements to \<^verbatim>\<open>int32_t\<close>.\<close>

definition FindBootstrapRotationIndices ::
  "('p, 'k, 'pt, 'sk) CKKSContext \<Rightarrow> 'pt FHECKKSRNS \<Rightarrow> uint32 \<Rightarrow> uint32 \<Rightarrow> error + int list" where
  "FindBootstrapRotationIndices cc this slots M =
     (case m_bootPrecomMap this slots of
        None \<Rightarrow> Inl (PrecomputationsNotGenerated slots)
      | Some precom \<Rightarrow>
          (let isLTBootstrap = (LEVEL_BUDGET (m_paramsEnc precom) = 1
                                  \<and> LEVEL_BUDGET (m_paramsDec precom) = 1);
               fullIndexList =
                 (if isLTBootstrap then FindLinearTransformRotationIndices precom slots M
                  else
                    (case FindCoeffsToSlotsRotationIndices cc precom slots M of
                       Inl e \<Rightarrow> Inl e
                     | Inr indexListCtS \<Rightarrow>
                         (case FindSlotsToCoeffsRotationIndices cc precom slots M of
                            Inl e \<Rightarrow> Inl e
                          | Inr indexListStC \<Rightarrow> Inr (indexListCtS @ indexListStC))))
           in case fullIndexList of
                Inl e \<Rightarrow> Inl e
              | Inr fullIndexList' \<Rightarrow>
                  (let s = set fullIndexList' - {0} - {M div 4}
                   in Inr (map sint (sorted_list_of_set s)))))"

text \<open>\<^verbatim>\<open>FHECKKSRNS::EvalBootstrapKeyGen\<close>, lines 238--261.\<close>

definition EvalBootstrapKeyGen ::
  "Build \<Rightarrow> ('p, 'k, 'pt, 'sk) CKKSContext \<Rightarrow> 'pt FHECKKSRNS \<Rightarrow> 'sk \<Rightarrow> uint32
     \<Rightarrow> error + (uint32 \<rightharpoonup> 'k)" where
  "EvalBootstrapKeyGen bld cc this privateKey slots =
     (let cryptoParams = GetCryptoParametersCC cc
      in if GetKeySwitchTechnique cryptoParams \<noteq> HYBRID then Inl KeySwitchNotHybrid
         else if NATIVEINT bld = 128
                 \<and> (GetScalingTechnique cryptoParams = FLEXIBLEAUTO
                      \<or> GetScalingTechnique cryptoParams = FLEXIBLEAUTOEXT)
              then Inl NativeInt128Unsupported
         else
           (let M = GetCyclotomicOrder cc;
                slots' = (if slots = 0 then M div 4 else slots)
            in case FindBootstrapRotationIndices cc this slots' M of
                 Inl e \<Rightarrow> Inl e
               | Inr indices \<Rightarrow>
                   (let evalKeys = EvalAtIndexKeyGen cc privateKey indices;
                        conjKey = ConjugateKeyGen cc privateKey
                    in Inr (evalKeys(M - 1 \<mapsto> conjKey)))))"

section \<open>Scheme B: double-angle iterations\<close>

text \<open>\<^verbatim>\<open>FHECKKSRNS::ApplyDoubleAngleIterations\<close>, lines 2275--2286. The counter \<open>j\<close> and the
  bound \<open>r\<close> are \<^verbatim>\<open>int32_t\<close>; \<open>r\<close> is the conversion of \<^verbatim>\<open>numIter\<close>.\<close>

definition double_angle_iteration ::
  "('p, 'k, 'pt, 'sk) CKKSContext \<Rightarrow> int \<Rightarrow> int
     \<Rightarrow> ('p, CryptoParametersCKKSRNS) Ciphertext \<Rightarrow> ('p, CryptoParametersCKKSRNS) Ciphertext" where
  "double_angle_iteration cc r j ciphertext =
     (let c1 = EvalSquareInPlace cc ciphertext;
          c2 = EvalAdd cc c1 c1;
          scalar = - 1 / (2 * pi) powr (2 powr real_of_int (j - r));
          c3 = EvalAddConst cc c2 scalar
      in ModReduceInPlace cc c3)"

function double_angle_loop ::
  "('p, 'k, 'pt, 'sk) CKKSContext \<Rightarrow> int \<Rightarrow> int
     \<Rightarrow> ('p, CryptoParametersCKKSRNS) Ciphertext \<Rightarrow> ('p, CryptoParametersCKKSRNS) Ciphertext" where
  "double_angle_loop cc r j ciphertext =
     (if j < r + 1 then double_angle_loop cc r (j + 1) (double_angle_iteration cc r j ciphertext)
      else ciphertext)"
  by pat_completeness auto
termination
  by (relation "measure (\<lambda>(cc, r, j, ciphertext). nat (r + 1 - j))") auto

declare double_angle_loop.simps [simp del]

definition ApplyDoubleAngleIterations ::
  "('p, 'k, 'pt, 'sk) CKKSContext \<Rightarrow> ('p, CryptoParametersCKKSRNS) Ciphertext \<Rightarrow> uint32
     \<Rightarrow> ('p, CryptoParametersCKKSRNS) Ciphertext" where
  "ApplyDoubleAngleIterations cc ciphertext numIter =
     (let r = sint numIter in double_angle_loop cc r 1 ciphertext)"

section \<open>Scheme B: bootstrapping\<close>

text \<open>\<^verbatim>\<open>GetElements()[0].GetNumOfElements()\<close>: the number of limbs of a ciphertext.\<close>

definition first_towers ::
  "('p, 'k, 'pt, 'sk) CKKSContext \<Rightarrow> ('p, CryptoParametersCKKSRNS) Ciphertext \<Rightarrow> nat option" where
  "first_towers cc ciphertext =
     (case Elements ciphertext of [] \<Rightarrow> None | c # cs \<Rightarrow> Some (NumOfElements cc c))"

text \<open>The loops of lines 600--603 and 701--703 run while the noise scale degree exceeds
  one; their end depends on \<^verbatim>\<open>ModReduceInPlace\<close>.\<close>

partial_function (option) modreduce_pair_loop ::
  "('p, 'k, 'pt, 'sk) CKKSContext \<Rightarrow> ('p, CryptoParametersCKKSRNS) Ciphertext
     \<Rightarrow> ('p, CryptoParametersCKKSRNS) Ciphertext
     \<Rightarrow> (('p, CryptoParametersCKKSRNS) Ciphertext \<times> ('p, CryptoParametersCKKSRNS) Ciphertext) option" where
  "modreduce_pair_loop cc ctxtEnc ctxtEncI =
     (if NoiseScaleDeg ctxtEnc > 1
      then modreduce_pair_loop cc (ModReduceInPlace cc ctxtEnc) (ModReduceInPlace cc ctxtEncI)
      else Some (ctxtEnc, ctxtEncI))"

partial_function (option) modreduce_loop ::
  "('p, 'k, 'pt, 'sk) CKKSContext \<Rightarrow> ('p, CryptoParametersCKKSRNS) Ciphertext
     \<Rightarrow> ('p, CryptoParametersCKKSRNS) Ciphertext option" where
  "modreduce_loop cc ctxtEnc =
     (if NoiseScaleDeg ctxtEnc > 1 then modreduce_loop cc (ModReduceInPlace cc ctxtEnc)
      else Some ctxtEnc)"

text \<open>Lines 620--634 and 728--740: the double-angle iterations that follow the Chebyshev
  series, for one ciphertext.\<close>

definition double_angle_stage ::
  "('p, 'k, 'pt, 'sk) CKKSContext \<Rightarrow> CryptoParametersCKKSRNS
     \<Rightarrow> ('p, CryptoParametersCKKSRNS) Ciphertext \<Rightarrow> ('p, CryptoParametersCKKSRNS) Ciphertext" where
  "double_angle_stage cc cryptoParams ctxtEnc =
     (if GetSecretKeyDist cryptoParams = UNIFORM_TERNARY
         \<or> GetSecretKeyDist cryptoParams = SPARSE_TERNARY
      then
        (let ctxtEnc1 = (if GetScalingTechnique cryptoParams \<noteq> FIXEDMANUAL
                         then ModReduceInternalInPlace cc ctxtEnc
                                (unat (GetCompositeDegree cryptoParams))
                         else ctxtEnc);
             numIter = (if GetSecretKeyDist cryptoParams = UNIFORM_TERNARY
                        then R_UNIFORM cc else R_SPARSE cc)
         in ApplyDoubleAngleIterations cc ctxtEnc1 numIter)
      else ctxtEnc)"

text \<open>Lines 573--611: \<^verbatim>\<open>CoeffToSlot\<close> in the fully packed case, up to the two
  ciphertexts that enter the approximate modular reduction.\<close>

definition fully_packed_coeffs_to_slots ::
  "('p, 'k, 'pt, 'sk) CKKSContext \<Rightarrow> CryptoParametersCKKSRNS \<Rightarrow> 'pt CKKSBootstrapPrecom
     \<Rightarrow> ('p, CryptoParametersCKKSRNS) Ciphertext
     \<Rightarrow> (('p, CryptoParametersCKKSRNS) Ciphertext \<times> ('p, CryptoParametersCKKSRNS) Ciphertext) option" where
  "fully_packed_coeffs_to_slots cc cryptoParams precom raised =
     (let M = GetCyclotomicOrder cc;
          compositeDegree = unat (GetCompositeDegree cryptoParams);
          isLTBootstrap = (LEVEL_BUDGET (m_paramsEnc precom) = 1
                             \<and> LEVEL_BUDGET (m_paramsDec precom) = 1);
          raised1 = ModReduceInternalInPlace cc raised compositeDegree;
          ctxtEnc0 = (if isLTBootstrap then EvalLinearTransform cc (m_U0hatTPre precom) raised1
                      else EvalCoeffsToSlots cc (m_U0hatTPreFFT precom) raised1);
          evalKeyMap = EvalAutomorphismKeyMap cc (KeyTag ctxtEnc0);
          conj = Conjugate cc ctxtEnc0 evalKeyMap;
          ctxtEncI0 = EvalSub cc ctxtEnc0 conj;
          ctxtEnc1 = EvalAdd cc ctxtEnc0 conj;
          ctxtEncI1 = MultByMonomialInPlace cc ctxtEncI0 (3 * M div 4)
      in if GetScalingTechnique cryptoParams = FIXEDMANUAL
         then modreduce_pair_loop cc ctxtEnc1 ctxtEncI1
         else if NoiseScaleDeg ctxtEnc1 = 2
              then Some (ModReduceInternalInPlace cc ctxtEnc1 compositeDegree,
                         ModReduceInternalInPlace cc ctxtEncI1 compositeDegree)
              else Some (ctxtEnc1, ctxtEncI1))"

text \<open>Lines 636--668: the two ciphertexts that leave the approximate modular reduction are
  combined and scaled, and \<^verbatim>\<open>SlotToCoeff\<close> gives \<^verbatim>\<open>ctxtDec\<close>.\<close>

definition fully_packed_slots_to_coeffs ::
  "('p, 'k, 'pt, 'sk) CKKSContext \<Rightarrow> CryptoParametersCKKSRNS \<Rightarrow> 'pt CKKSBootstrapPrecom
     \<Rightarrow> nat \<Rightarrow> ('p, CryptoParametersCKKSRNS) Ciphertext
     \<Rightarrow> ('p, CryptoParametersCKKSRNS) Ciphertext \<Rightarrow> ('p, CryptoParametersCKKSRNS) Ciphertext" where
  "fully_packed_slots_to_coeffs cc cryptoParams precom scalar ctxtEnc4 ctxtEncI4 =
     (let M = GetCyclotomicOrder cc;
          compositeDegree = unat (GetCompositeDegree cryptoParams);
          isLTBootstrap = (LEVEL_BUDGET (m_paramsEnc precom) = 1
                             \<and> LEVEL_BUDGET (m_paramsDec precom) = 1);
          ctxtEncI5 = MultByMonomialInPlace cc ctxtEncI4 (M div 4);
          ctxtEnc5 = EvalAdd cc ctxtEnc4 ctxtEncI5;
          ctxtEnc6 = (if GetScalingTechnique cryptoParams \<noteq> COMPOSITESCALINGAUTO
                         \<and> GetScalingTechnique cryptoParams \<noteq> COMPOSITESCALINGMANUAL
                      then MultByIntegerInPlace cc ctxtEnc5 scalar else ctxtEnc5);
          ctxtEnc7 = (if GetScalingTechnique cryptoParams \<noteq> FIXEDMANUAL
                      then ModReduceInternalInPlace cc ctxtEnc6 compositeDegree
                      else ctxtEnc6)
      in if isLTBootstrap then EvalLinearTransform cc (m_U0Pre precom) ctxtEnc7
         else EvalSlotsToCoeffs cc (m_U0PreFFT precom) ctxtEnc7)"

text \<open>Lines 573--668: the fully packed case, from the raised ciphertext to \<^verbatim>\<open>ctxtDec\<close>.
  Between the two transforms lies the approximate modular reduction of lines 612--634: the
  Chebyshev series and the double-angle iterations, on each of the two ciphertexts.\<close>

definition bootstrap_fully_packed ::
  "('p, 'k, 'pt, 'sk) CKKSContext \<Rightarrow> CryptoParametersCKKSRNS \<Rightarrow> 'pt CKKSBootstrapPrecom
     \<Rightarrow> real list \<Rightarrow> nat \<Rightarrow> ('p, CryptoParametersCKKSRNS) Ciphertext
     \<Rightarrow> ('p, CryptoParametersCKKSRNS) Ciphertext option" where
  "bootstrap_fully_packed cc cryptoParams precom coefficients scalar raised =
     (case fully_packed_coeffs_to_slots cc cryptoParams precom raised of
        None \<Rightarrow> None
      | Some (ctxtEnc2, ctxtEncI2) \<Rightarrow>
          (let ctxtEnc3 = EvalChebyshevSeries cc ctxtEnc2 coefficients (- 1) 1;
               ctxtEncI3 = EvalChebyshevSeries cc ctxtEncI2 coefficients (- 1) 1;
               ctxtEnc4 = double_angle_stage cc cryptoParams ctxtEnc3;
               ctxtEncI4 = double_angle_stage cc cryptoParams ctxtEncI3
           in Some (fully_packed_slots_to_coeffs cc cryptoParams precom scalar
                      ctxtEnc4 ctxtEncI4)))"

text \<open>Lines 674--711: the partial sum and \<^verbatim>\<open>CoeffsToSlots\<close> in the sparsely packed case.
  The bound of the partial sum divides by \<^verbatim>\<open>2 * slots\<close>.\<close>

definition sparse_coeffs_to_slots ::
  "('p, 'k, 'pt, 'sk) CKKSContext \<Rightarrow> CryptoParametersCKKSRNS \<Rightarrow> 'pt CKKSBootstrapPrecom
     \<Rightarrow> uint32 \<Rightarrow> ('p, CryptoParametersCKKSRNS) Ciphertext
     \<Rightarrow> (error + ('p, CryptoParametersCKKSRNS) Ciphertext) option" where
  "sparse_coeffs_to_slots cc cryptoParams precom slots raised =
     (let N = GetRingDimension cc;
          compositeDegree = unat (GetCompositeDegree cryptoParams);
          isLTBootstrap = (LEVEL_BUDGET (m_paramsEnc precom) = 1
                             \<and> LEVEL_BUDGET (m_paramsDec precom) = 1)
      in if 2 * slots = 0 then Some (Inl DivisionByZero)
         else
           (let raised1 = fold (\<lambda>j r. EvalAdd cc r (EvalRotate cc r (word_of_nat j * slots)))
                            (pow2_loop 1 (N div unat (2 * slots))) raised;
                raised2 = ModReduceInternalInPlace cc raised1 compositeDegree;
                ctxtEnc0 = (if isLTBootstrap then EvalLinearTransform cc (m_U0hatTPre precom) raised2
                            else EvalCoeffsToSlots cc (m_U0hatTPreFFT precom) raised2);
                evalKeyMap = EvalAutomorphismKeyMap cc (KeyTag ctxtEnc0);
                conj = Conjugate cc ctxtEnc0 evalKeyMap;
                ctxtEnc1 = EvalAdd cc ctxtEnc0 conj
            in map_option Inr
                 (if GetScalingTechnique cryptoParams = FIXEDMANUAL
                  then modreduce_loop cc ctxtEnc1
                  else if NoiseScaleDeg ctxtEnc1 = 2
                       then Some (ModReduceInternalInPlace cc ctxtEnc1 compositeDegree)
                       else Some ctxtEnc1)))"

text \<open>Lines 741--774: scaling, \<^verbatim>\<open>SlotsToCoeffs\<close> and the final rotation of the sparsely
  packed case.\<close>

definition sparse_slots_to_coeffs ::
  "('p, 'k, 'pt, 'sk) CKKSContext \<Rightarrow> CryptoParametersCKKSRNS \<Rightarrow> 'pt CKKSBootstrapPrecom
     \<Rightarrow> nat \<Rightarrow> uint32 \<Rightarrow> ('p, CryptoParametersCKKSRNS) Ciphertext
     \<Rightarrow> ('p, CryptoParametersCKKSRNS) Ciphertext" where
  "sparse_slots_to_coeffs cc cryptoParams precom scalar slots ctxtEnc4 =
     (let compositeDegree = unat (GetCompositeDegree cryptoParams);
          isLTBootstrap = (LEVEL_BUDGET (m_paramsEnc precom) = 1
                             \<and> LEVEL_BUDGET (m_paramsDec precom) = 1);
          ctxtEnc5 = (if GetScalingTechnique cryptoParams \<noteq> COMPOSITESCALINGAUTO
                         \<and> GetScalingTechnique cryptoParams \<noteq> COMPOSITESCALINGMANUAL
                      then MultByIntegerInPlace cc ctxtEnc4 scalar else ctxtEnc4);
          ctxtEnc6 = (if GetScalingTechnique cryptoParams \<noteq> FIXEDMANUAL
                      then ModReduceInternalInPlace cc ctxtEnc5 compositeDegree
                      else ctxtEnc5);
          ctxtDec = (if isLTBootstrap then EvalLinearTransform cc (m_U0Pre precom) ctxtEnc6
                     else EvalSlotsToCoeffs cc (m_U0PreFFT precom) ctxtEnc6)
      in EvalAdd cc ctxtDec (EvalRotate cc ctxtDec slots))"

text \<open>Lines 669--774: the sparsely packed case. The approximate modular reduction of lines
  721--740 is the Chebyshev series followed by the double-angle iterations.\<close>

definition bootstrap_sparse ::
  "('p, 'k, 'pt, 'sk) CKKSContext \<Rightarrow> CryptoParametersCKKSRNS \<Rightarrow> 'pt CKKSBootstrapPrecom
     \<Rightarrow> real list \<Rightarrow> nat \<Rightarrow> uint32 \<Rightarrow> ('p, CryptoParametersCKKSRNS) Ciphertext
     \<Rightarrow> (error + ('p, CryptoParametersCKKSRNS) Ciphertext) option" where
  "bootstrap_sparse cc cryptoParams precom coefficients scalar slots raised =
     (case sparse_coeffs_to_slots cc cryptoParams precom slots raised of
        None \<Rightarrow> None
      | Some (Inl e) \<Rightarrow> Some (Inl e)
      | Some (Inr ctxtEnc2) \<Rightarrow>
          (let ctxtEnc3 = EvalChebyshevSeries cc ctxtEnc2 coefficients (- 1) 1;
               ctxtEnc4 = double_angle_stage cc cryptoParams ctxtEnc3
           in Some (Inr (sparse_slots_to_coeffs cc cryptoParams precom scalar slots ctxtEnc4))))"

text \<open>Lines 443--570: the precomputations of the slot count are looked up, the modulus of
  the ciphertext is raised and the parameters of the approximate modular reduction are
  set. The result holds the precomputations, the Chebyshev coefficients, the integer
  \<^verbatim>\<open>scalar\<close>, the \<^verbatim>\<open>correction\<close> and the raised ciphertext. \<^verbatim>\<open>std::llround\<close> is
  \<open>cpp_round\<close>.\<close>

definition raise_modulus ::
  "Build \<Rightarrow> ('p, 'k, 'pt, 'sk) CKKSContext \<Rightarrow> 'pt FHECKKSRNS
     \<Rightarrow> ('p, CryptoParametersCKKSRNS) Ciphertext
     \<Rightarrow> error + ('pt CKKSBootstrapPrecom \<times> real list \<times> nat \<times> uint32
                  \<times> ('p, CryptoParametersCKKSRNS) Ciphertext)" where
  "raise_modulus bld cc this ciphertext =
     (let cryptoParams = CryptoParameters ciphertext;
          L0 = (word_of_nat (length (GetModuli cryptoParams)) :: uint32);
          compositeDegree = GetCompositeDegree cryptoParams;
          slots = Slots ciphertext
      in case m_bootPrecomMap this slots of
           None \<Rightarrow> Inl (PrecomputationsNotGenerated slots)
         | Some precom \<Rightarrow>
             (let N = GetRingDimension cc;
                  elementParamsRaised =
                    (if GetScalingTechnique cryptoParams = FLEXIBLEAUTOEXT
                     then butlast (GetModuli cryptoParams) else GetModuli cryptoParams)
              in case GetBigModulus cryptoParams of
                   Inl e \<Rightarrow> Inl e
                 | Inr qDouble \<Rightarrow>
                     (let powP = (2::real) ^ GetPlaintextModulus cryptoParams;
                          deg = cpp_round (log 2 (qDouble / powP))
                      in if NATIVEINT bld \<noteq> 128 \<and> deg > sint (m_correctionFactor this)
                            \<and> GetScalingTechnique cryptoParams \<noteq> COMPOSITESCALINGAUTO
                            \<and> GetScalingTechnique cryptoParams \<noteq> COMPOSITESCALINGMANUAL
                         then Inl DegreeExceedsCorrectionFactor
                         else
                           (let correction = m_correctionFactor this - word_of_int deg;
                                post = 2 powr real_of_int deg;
                                pre = (if compositeDegree > 1
                                       then GetScalingFactorReal cryptoParams 0 / qDouble
                                       else 1 / post);
                                scalar = nat (cpp_round post);
                                raised0 = ModReduceInternalInPlace cc ciphertext
                                            (unat compositeDegree
                                               * size_t_sub (NoiseScaleDeg ciphertext) 1);
                                raised1 = AdjustCiphertext cc raised0 (real (unat correction));
                                ctxtDCRT0 = Elements raised1;
                                ctxtDCRT = (if compositeDegree > 1
                                            then ExtendCiphertext cc ctxtDCRT0 elementParamsRaised
                                            else map (RaiseElement cc elementParamsRaised) ctxtDCRT0)
                            in if ctxtDCRT = [] then Inl OutOfRange
                               else
                                 (let raised2 = raised1
                                        \<lparr>Level := unat (L0 - word_of_nat (NumOfElements cc (ctxtDCRT ! 0))),
                                         Elements := ctxtDCRT\<rparr>;
                                      coefficients =
                                        (if GetSecretKeyDist cryptoParams = SPARSE_TERNARY
                                         then g_coefficientsSparse cc
                                         else if compositeDegree = 1
                                                 \<or> (compositeDegree = 2 \<and> N < 2 ^ 17)
                                              then g_coefficientsUniform cc
                                              else g_coefficientsUniformExt cc);
                                      k = (if GetSecretKeyDist cryptoParams = SPARSE_TERNARY then 1
                                           else if compositeDegree = 1
                                                   \<or> (compositeDegree = 2 \<and> N < 2 ^ 17)
                                                then K_UNIFORM cc
                                                else K_UNIFORMEXT cc);
                                      constantEvalMult = pre * (1 / (k * real N));
                                      raised3 = EvalMultConst cc raised2 constantEvalMult
                                  in Inr (precom, coefficients, scalar, correction, raised3))))))"

text \<open>Lines 443--786: one bootstrapping, from the input to \<^verbatim>\<open>ctxtDec\<close> after its scaling
  by the correction factor, which lines 776--780 apply in a build that is not 128-bit.\<close>

definition bootstrap_single ::
  "Build \<Rightarrow> ('p, 'k, 'pt, 'sk) CKKSContext \<Rightarrow> 'pt FHECKKSRNS
     \<Rightarrow> ('p, CryptoParametersCKKSRNS) Ciphertext
     \<Rightarrow> (error + ('p, CryptoParametersCKKSRNS) Ciphertext) option" where
  "bootstrap_single bld cc this ciphertext =
     (case raise_modulus bld cc this ciphertext of
        Inl e \<Rightarrow> Some (Inl e)
      | Inr (precom, coefficients, scalar, correction, raised) \<Rightarrow>
          (let cryptoParams = CryptoParameters ciphertext;
               M = GetCyclotomicOrder cc;
               slots = Slots ciphertext;
               ctxtDec =
                 (if slots = M div 4
                  then map_option Inr
                         (bootstrap_fully_packed cc cryptoParams precom coefficients scalar raised)
                  else bootstrap_sparse cc cryptoParams precom coefficients scalar slots raised)
           in case ctxtDec of
                None \<Rightarrow> None
              | Some (Inl e) \<Rightarrow> Some (Inl e)
              | Some (Inr ctxtDec') \<Rightarrow>
                  (if NATIVEINT bld \<noteq> 128
                   then Some (Inr (MultByIntegerInPlace cc ctxtDec' (2 ^ unat correction)))
                   else Some (Inr ctxtDec'))))"

text \<open>Lines 393--412 of the iterative mode: the input scaled up, and the first bootstrapping
  reduced and scaled up.\<close>

definition powerOfTwoModulus_of :: "uint32 \<Rightarrow> uint32" where
  "powerOfTwoModulus_of precision = push_bit (unat precision) 1"

definition scaled_bootstrap ::
  "('p, 'k, 'pt, 'sk) CKKSContext \<Rightarrow> nat \<Rightarrow> uint32 \<Rightarrow> ('p, CryptoParametersCKKSRNS) Ciphertext
     \<Rightarrow> ('p, CryptoParametersCKKSRNS) Ciphertext" where
  "scaled_bootstrap cc compositeDegree precision ctInitialBootstrap =
     MultByIntegerInPlace cc
       (ModReduceInternalInPlace cc ctInitialBootstrap compositeDegree)
       (unat (powerOfTwoModulus_of precision))"

text \<open>\<^verbatim>\<open>FHECKKSRNS::EvalBootstrap\<close>, lines 364--796. In the iterative mode the function
  calls itself through the context, first with \<^verbatim>\<open>numIterations - 1\<close>, then with one
  iteration on the bootstrapping error.\<close>

function EvalBootstrap ::
  "Build \<Rightarrow> ('p, 'k, 'pt, 'sk) CKKSContext \<Rightarrow> 'pt FHECKKSRNS
     \<Rightarrow> ('p, CryptoParametersCKKSRNS) Ciphertext \<Rightarrow> uint32 \<Rightarrow> uint32
     \<Rightarrow> (error + ('p, CryptoParametersCKKSRNS) Ciphertext) option" where
  "EvalBootstrap bld cc this ciphertext numIterations precision =
     (let cryptoParams = CryptoParameters ciphertext
      in if GetKeySwitchTechnique cryptoParams \<noteq> HYBRID then Some (Inl KeySwitchNotHybrid)
         else if NATIVEINT bld = 128
                 \<and> (GetScalingTechnique cryptoParams = FLEXIBLEAUTO
                      \<or> GetScalingTechnique cryptoParams = FLEXIBLEAUTOEXT)
              then Some (Inl NativeInt128Unsupported)
         else if numIterations \<noteq> 1 \<and> numIterations \<noteq> 2 then Some (Inl InvalidIterationCount)
         else
           (case first_towers cc ciphertext of
              None \<Rightarrow> Some (Inl OutOfRange)
            | Some initSizeQ \<Rightarrow>
                (if numIterations > 1 then
                   (let L0 = (word_of_nat (length (GetModuli cryptoParams)) :: uint32);
                        compositeDegree = unat (GetCompositeDegree cryptoParams);
                        powerOfTwoModulus = powerOfTwoModulus_of precision;
                        ctScaledUp0 = MultByIntegerInPlace cc ciphertext (unat powerOfTwoModulus)
                    in case first_towers cc ctScaledUp0 of
                         None \<Rightarrow> Some (Inl OutOfRange)
                       | Some scaledUpSizeQ \<Rightarrow>
                           (let ctScaledUp = ctScaledUp0
                                  \<lparr>Level := unat (L0 - word_of_nat scaledUpSizeQ)\<rparr>
                            in case EvalBootstrap bld cc this ciphertext (numIterations - 1) precision of
                                 None \<Rightarrow> None
                               | Some (Inl e) \<Rightarrow> Some (Inl e)
                               | Some (Inr ctBootstrapped) \<Rightarrow>
                                   (let ctInitialBootstrap = scaled_bootstrap cc compositeDegree precision ctBootstrapped;
                                        ctBootstrappedScaledDown = ctInitialBootstrap
                                    in case first_towers cc ctBootstrappedScaledDown of
                                         None \<Rightarrow> Some (Inl OutOfRange)
                                       | Some bootstrappingSizeQ \<Rightarrow>
                                           (if bootstrappingSizeQ \<le> initSizeQ then Some (Inr ciphertext)
                                            else
                                              (let ctBootstrappedScaledDown1 =
                                                     (if GetScalingTechnique cryptoParams \<noteq> COMPOSITESCALINGAUTO
                                                         \<and> GetScalingTechnique cryptoParams \<noteq> COMPOSITESCALINGMANUAL
                                                      then
                                                        (let dropped = map (DropLastElements cc
                                                                             (bootstrappingSizeQ - initSizeQ))
                                                                         (Elements ctBootstrappedScaledDown)
                                                         in ctBootstrappedScaledDown
                                                              \<lparr>Elements := dropped,
                                                               Level := unat (L0 - word_of_nat
                                                                          (NumOfElements cc (dropped ! 0)))\<rparr>)
                                                      else ctBootstrappedScaledDown);
                                                   ctBootstrappingError =
                                                     EvalSub cc ctBootstrappedScaledDown1 ctScaledUp
                                               in case EvalBootstrap bld cc this ctBootstrappingError 1 0 of
                                                    None \<Rightarrow> None
                                                  | Some (Inl e) \<Rightarrow> Some (Inl e)
                                                  | Some (Inr ctBootstrappedError0) \<Rightarrow>
                                                      (let ctBootstrappedError =
                                                             ModReduceInternalInPlace cc ctBootstrappedError0
                                                               compositeDegree;
                                                           finalCiphertext0 =
                                                             EvalSub cc ctInitialBootstrap ctBootstrappedError
                                                       in Some (Inr (EvalMultConst cc finalCiphertext0
                                                                  (1 / real (unat powerOfTwoModulus))))))))))
                 else
                   (case bootstrap_single bld cc this ciphertext of
                      None \<Rightarrow> None
                    | Some (Inl e) \<Rightarrow> Some (Inl e)
                    | Some (Inr ctxtDec) \<Rightarrow>
                        (case first_towers cc ctxtDec of
                           None \<Rightarrow> Some (Inl OutOfRange)
                         | Some bootstrappingNumTowers \<Rightarrow>
                             (if bootstrappingNumTowers \<le> initSizeQ then Some (Inr ciphertext)
                              else Some (Inr ctxtDec)))))))"
  by pat_completeness auto
termination
  by (relation "measure (\<lambda>(bld, cc, this, ciphertext, numIterations, precision). unat numIterations)")
     (auto simp: unat_sub word_le_nat_alt word_less_nat_alt)

declare EvalBootstrap.simps [simp del]

section \<open>Auxiliary definitions\<close>

text \<open>The accumulation of the two double loops, as a list of contributions: one step
  stores or adds a product at a position of the result, \<open>contrib k\<close> is the sum of the
  products sent to position \<open>k\<close>.\<close>

fun acc_step :: "nat \<times> 'p::comm_ring \<Rightarrow> 'p list \<times> bool list \<Rightarrow> 'p list \<times> bool list" where
  "acc_step (k, v) (xs, fs) =
     (if fs ! k then (xs[k := v], fs[k := False]) else (xs[k := xs ! k + v], fs))"

definition contrib :: "nat \<Rightarrow> (nat \<times> 'p::comm_ring) list \<Rightarrow> 'p" where
  "contrib k cs = sum_list (map (\<lambda>c. if fst c = k then snd c else 0) cs)"

definition sq_contrib :: "'p::comm_ring list \<Rightarrow> nat \<Rightarrow> nat \<Rightarrow> (nat \<times> 'p) list" where
  "sq_contrib cv i j =
     (if j = i then [(i + j, cv ! i * cv ! j)]
      else [(i + j, cv ! i * cv ! j), (i + j, cv ! i * cv ! j)])"

definition full_contribs :: "'p::comm_ring list \<Rightarrow> 'p list \<Rightarrow> (nat \<times> 'p) list" where
  "full_contribs cv1 cv2 =
     concat (map (\<lambda>i. map (\<lambda>j. (i + j, cv1 ! i * cv2 ! j)) [0..<length cv2]) [0..<length cv1])"

definition half_contribs :: "'p::comm_ring list \<Rightarrow> (nat \<times> 'p) list" where
  "half_contribs cv =
     concat (map (\<lambda>i. concat (map (sq_contrib cv i) [i..<length cv])) [0..<length cv])"

section \<open>Concrete instances\<close>

text \<open>A kernel over the integers whose basis operations are identities, ciphertexts of
  scheme A, and a context of scheme B with cyclotomic order 16 whose operations leave the
  ciphertext as it is, except that a rescale counts one level. They serve as the inputs at
  which the theorems below are instantiated.\<close>

definition K_int :: "(int, unit) BFVKernel" where
  "K_int = \<lparr>DefaultPoly = 0, GetNumOfElements = (\<lambda>_. 1), ModulusMSB = (\<lambda>_. 60),
     GetParams = (\<lambda>_. [1]), SetFormat = (\<lambda>_ p. p),
     ExpandCRTBasis = (\<lambda>_ _ p. p), FastExpandCRTBasisPloverQ = (\<lambda>_ _ p. p),
     ScaleAndRound = (\<lambda>_ _ p. p), SwitchCRTBasis = (\<lambda>_ p. p),
     ExpandCRTBasisQlHat = (\<lambda>_ _ _ p. p), FastBaseConvqToBskMontgomery = (\<lambda>_ p. p),
     FastRNSFloorq = (\<lambda>_ p. p), FastBaseConvSK = (\<lambda>_ p. p),
     CloneEmpty = (\<lambda>ct. ct\<lparr>Elements := [], NoiseScaleDeg := 1\<rparr>),
     FindAutomorphismIndex2n = (\<lambda>i m. i), GetEvalAutomorphismKeyMap = (\<lambda>_. Inr Map.empty),
     EvalFastKeySwitchCore = (\<lambda>_ _ _. []), PrecomputeAutoMap = (\<lambda>_ _. []),
     AutomorphismTransform = (\<lambda>_ _ p. p)\<rparr>"

definition cp_hps :: CryptoParametersBFVRNS where
  "cp_hps = \<lparr>DistributionParameter = 3, AssuranceMeasure = 36, PlaintextModulus = 65537,
     RingDimension = 8192, DigitSize = 0, KeySwitchTech = HYBRID, EncryptionTech = STANDARD,
     NumPerPartQ = 1, NumPartQ = 3, ThresholdNumOfParties = 1,
     SecretKeyDistribution = UNIFORM_TERNARY, MultiplicationTech = HPS,
     ParamsSize = 3, ParamsPSize = 1\<rparr>"

definition cp_bv :: CryptoParametersBFVRNS where
  "cp_bv = cp_hps\<lparr>KeySwitchTech := BV\<rparr>"

definition build0 :: Build where
  "build0 = \<lparr>USE_KARATSUBA = False, WITH_REDUCED_NOISE = False, NATIVEINT = 64\<rparr>"

definition ct_a :: "(int, CryptoParametersBFVRNS) Ciphertext" where
  "ct_a = \<lparr>Elements = [1, 2], NoiseScaleDeg = 1, Level = 0, Slots = 0, KeyTag = ''a'',
     ScalingFactor = 1, CryptoParameters = cp_hps\<rparr>"

definition ct_b :: "(int, CryptoParametersBFVRNS) Ciphertext" where
  "ct_b = \<lparr>Elements = [3, 4, 5], NoiseScaleDeg = 2, Level = 0, Slots = 0, KeyTag = ''a'',
     ScalingFactor = 1, CryptoParameters = cp_hps\<rparr>"

definition ct_ab :: "(int, CryptoParametersBFVRNS) Ciphertext" where
  "ct_ab = \<lparr>Elements = [3, 10, 13, 10], NoiseScaleDeg = 3, Level = 0, Slots = 0, KeyTag = ''a'',
     ScalingFactor = 1, CryptoParameters = cp_hps\<rparr>"

definition ct_bb :: "(int, CryptoParametersBFVRNS) Ciphertext" where
  "ct_bb = \<lparr>Elements = [9, 24, 46, 40, 25], NoiseScaleDeg = 3, Level = 0, Slots = 0, KeyTag = ''a'',
     ScalingFactor = 1, CryptoParameters = cp_hps\<rparr>"

definition ct_c :: "(int, CryptoParametersBFVRNS) Ciphertext" where
  "ct_c = \<lparr>Elements = [3, 4, 5], NoiseScaleDeg = 2, Level = 0, Slots = 0, KeyTag = ''a'',
     ScalingFactor = 1, CryptoParameters = cp_hps\<lparr>MultiplicationTech := BEHZ\<rparr>\<rparr>"

definition cp_toy :: CryptoParametersCKKSRNS where
  "cp_toy = \<lparr>GetKeySwitchTechnique = HYBRID, GetScalingTechnique = FIXEDAUTO,
     GetSecretKeyDist = GAUSSIAN, GetCompositeDegree = 1, GetPlaintextModulus = 10,
     GetModuli = [1024, 1024], GetScalingFactorReal = (\<lambda>_. 1024)\<rparr>"

definition cc_toy :: "(nat, unit, unit, unit) CKKSContext" where
  "cc_toy = \<lparr>GetCyclotomicOrder = 16, GetRingDimension = 8, GetCryptoParametersCC = cp_toy,
     K_SPARSE = 1, K_UNIFORM = 512, K_UNIFORMEXT = 768, R_UNIFORM = 6, R_SPARSE = 3,
     g_coefficientsSparse = [], g_coefficientsUniform = [], g_coefficientsUniformExt = [],
     GetCollapsedFFTParams = (\<lambda>slots levelBudget dim1.
        \<lparr>LEVEL_BUDGET = levelBudget, LAYERS_COLL = 1, LAYERS_REM = 0, NUM_ROTATIONS = 1,
         BABY_STEP = 1, GIANT_STEP = 1, NUM_ROTATIONS_REM = 0, BABY_STEP_REM = 0,
         GIANT_STEP_REM = 0\<rparr>),
     ReduceRotation = (\<lambda>index slots. word_of_int index),
     GetMultiplicativeDepthByCoeffVector = (\<lambda>_ _. 1),
     NumOfElements = (\<lambda>p. p),
     DropLastElements = (\<lambda>n p. p - n),
     RaiseElement = (\<lambda>params p. length params),
     MultByIntegerInPlace = (\<lambda>ct n. ct),
     MultByMonomialInPlace = (\<lambda>ct n. ct),
     ModReduceInternalInPlace = (\<lambda>ct n. ct),
     ModReduceInPlace = (\<lambda>ct. ct\<lparr>Level := Suc (Level ct)\<rparr>),
     EvalSub = (\<lambda>ct1 ct2. ct1),
     EvalAdd = (\<lambda>ct1 ct2. ct1),
     EvalAddConst = (\<lambda>ct x. ct),
     EvalMultConst = (\<lambda>ct x. ct),
     EvalSquareInPlace = (\<lambda>ct. ct),
     EvalRotate = (\<lambda>ct i. ct),
     EvalChebyshevSeries = (\<lambda>ct cs a b. ct),
     EvalAutomorphismKeyMap = (\<lambda>tag. Map.empty),
     AdjustCiphertext = (\<lambda>ct x. ct),
     ExtendCiphertext = (\<lambda>cv params. map (\<lambda>p. length params) cv),
     EvalLinearTransform = (\<lambda>A ct. ct),
     EvalCoeffsToSlots = (\<lambda>A ct. ct),
     EvalSlotsToCoeffs = (\<lambda>A ct. ct),
     Conjugate = (\<lambda>ct keys. ct),
     EvalLinearTransformPrecompute = (\<lambda>A scale L. []),
     EvalLinearTransformPrecompute2 = (\<lambda>A B orientation scale L. []),
     EvalCoeffsToSlotsPrecompute = (\<lambda>ksi rot flag scale L. []),
     EvalSlotsToCoeffsPrecompute = (\<lambda>ksi rot flag scale L. []),
     EvalAtIndexKeyGen = (\<lambda>sk indices i. if sint i \<in> set indices then Some () else None),
     ConjugateKeyGen = (\<lambda>sk. ())\<rparr>"

definition this_empty :: "unit FHECKKSRNS" where
  "this_empty = \<lparr>m_correctionFactor = 0, m_bootPrecomMap = Map.empty\<rparr>"

definition precom_toy :: "unit CKKSBootstrapPrecom" where
  "precom_toy = \<lparr>m_slots = 4, m_dim1 = 4,
     m_paramsEnc = GetCollapsedFFTParams cc_toy 4 1 4,
     m_paramsDec = GetCollapsedFFTParams cc_toy 4 1 4,
     m_U0hatTPre = [], m_U0Pre = [], m_U0hatTPreFFT = [], m_U0PreFFT = []\<rparr>"

definition this_toy :: "unit FHECKKSRNS" where
  "this_toy = \<lparr>m_correctionFactor = 9, m_bootPrecomMap = [4 \<mapsto> precom_toy]\<rparr>"

definition build64 :: Build where
  "build64 = \<lparr>USE_KARATSUBA = False, WITH_REDUCED_NOISE = False, NATIVEINT = 64\<rparr>"

definition build128 :: Build where
  "build128 = \<lparr>USE_KARATSUBA = False, WITH_REDUCED_NOISE = False, NATIVEINT = 128\<rparr>"

definition ct_toy :: "(nat, CryptoParametersCKKSRNS) Ciphertext" where
  "ct_toy = \<lparr>Elements = [3, 3], NoiseScaleDeg = 1, Level = 0, Slots = 4, KeyTag = ''a'',
     ScalingFactor = 1024, CryptoParameters = cp_toy\<rparr>"

definition ct_bv :: "(nat, CryptoParametersCKKSRNS) Ciphertext" where
  "ct_bv = ct_toy\<lparr>CryptoParameters := cp_toy\<lparr>GetKeySwitchTechnique := BV\<rparr>\<rparr>"

definition ct_flex :: "(nat, CryptoParametersCKKSRNS) Ciphertext" where
  "ct_flex = ct_toy\<lparr>CryptoParameters := cp_toy\<lparr>GetScalingTechnique := FLEXIBLEAUTO\<rparr>\<rparr>"

definition ct_uni :: "(nat, CryptoParametersCKKSRNS) Ciphertext" where
  "ct_uni = \<lparr>Elements = [1, 1], NoiseScaleDeg = 1, Level = 0, Slots = 4, KeyTag = ''a'',
     ScalingFactor = 1024, CryptoParameters = cp_toy\<lparr>GetSecretKeyDist := UNIFORM_TERNARY\<rparr>\<rparr>"

definition ct_uni_up :: "(nat, CryptoParametersCKKSRNS) Ciphertext" where
  "ct_uni_up = ct_uni\<lparr>Elements := [2, 2]\<rparr>"

definition this_four :: "unit FHECKKSRNS" where
  "this_four = \<lparr>m_correctionFactor = 9, m_bootPrecomMap =
     [4 \<mapsto> \<lparr>m_slots = 4, m_dim1 = 4,
               m_paramsEnc = GetCollapsedFFTParams cc_toy 4 2 4,
               m_paramsDec = GetCollapsedFFTParams cc_toy 4 1 4,
               m_U0hatTPre = [], m_U0Pre = [], m_U0hatTPreFFT = [], m_U0PreFFT = []\<rparr>]\<rparr>"

definition this_one :: "unit FHECKKSRNS" where
  "this_one = \<lparr>m_correctionFactor = 9, m_bootPrecomMap =
     [1 \<mapsto> \<lparr>m_slots = 1, m_dim1 = 0,
               m_paramsEnc = GetCollapsedFFTParams cc_toy 1 1 0,
               m_paramsDec = GetCollapsedFFTParams cc_toy 1 1 0,
               m_U0hatTPre = [], m_U0Pre = [], m_U0hatTPreFFT = [], m_U0PreFFT = []\<rparr>]\<rparr>"

section \<open>Scheme A: the level estimate\<close>

text \<open>The loop of lines 174--177 iterates \<open>x \<mapsto> logqBFV x\<close> until two iterates differ by
  at most \<open>ln 1.001\<close>. Under hybrid key switching and for depth zero the bound does not
  depend on \<open>x\<close>. Otherwise it is \<open>A + ln (P + Q * (\<lfloor>x / D\<rfloor> + 1))\<close>: it depends on
  \<open>x\<close> through an integer only and is monotone in it, so the integers of the iterates
  form a monotone sequence; the sequence is bounded because the logarithm grows more
  slowly than every line, hence it becomes stationary and the loop ends.\<close>

lemma clamp_levels_le: "0 < sizeQ \<Longrightarrow> clamp_levels levels sizeQ \<le> sizeQ - 1"
proof -
  assume pos: "0 < sizeQ"
  define levels1 where "levels1 = (if levels < 0 then 0
                     else if levels > int sizeQ - 1 then int sizeQ - 1 else levels)"
  have r: "0 \<le> levels1" "levels1 \<le> int sizeQ - 1" using pos by (auto simp: levels1_def)
  have "levels1 mod 2 ^ 32 \<le> levels1" using r(1) by (simp add: zmod_le_nonneg_dividend)
  then have "nat (levels1 mod 2 ^ 32) \<le> sizeQ - 1" using r by linarith
  then show ?thesis by (simp add: clamp_levels_def levels1_def Let_def)
qed

lemma logq_loop_stationary: "logq_loop f x x = Some x"
proof -
  have "(0::real) < ln 1.001" by simp
  then show ?thesis by (subst logq_loop.simps) simp
qed

lemma logq_loop_const:
  assumes "\<And>x. f x = c"
  shows "logq_loop f logqPrev c = Some c"
  by (subst logq_loop.simps) (simp add: assms logq_loop_stationary)

lemma ln_tangent:
  fixes y t :: real
  assumes "0 < y" and "0 < t"
  shows "ln y \<le> y / t + ln t - 1"
proof -
  have "ln (y / t) \<le> y / t - 1"
    using assms by (intro ln_le_minus_one) simp
  moreover have "ln (y / t) = ln y - ln t"
    using assms by (simp add: ln_div)
  ultimately show ?thesis by simp
qed

lemma log_affine_bound:
  fixes A P Q D :: real
  assumes D: "0 < D" and P: "0 < P" and Q: "0 \<le> Q"
  shows "\<exists>M\<ge>N. 0 \<le> M \<and> A + ln (P + Q * (of_int M + 1)) < D * (of_int M + 1)"
proof -
  define t where "t = 2 * Q / D + 1"
  have t: "0 < t"
    using D Q by (simp add: t_def add_nonneg_pos)
  have "Q \<le> D / 2 * t"
    using D by (simp add: t_def algebra_simps)
  then have Qt: "Q / t \<le> D / 2"
    using t by (simp add: pos_divide_le_eq)
  define E where "E = A + P / t + ln t - 1"
  define M where "M = max (max N 0) \<lceil>2 * E / D\<rceil>"
  have M0: "0 \<le> M" and MN: "N \<le> M"
    by (simp_all add: M_def)
  have "2 * E / D \<le> of_int \<lceil>2 * E / D\<rceil>"
    by (rule le_of_int_ceiling)
  also have "\<dots> \<le> of_int M"
    by (simp add: M_def)
  finally have ME: "2 * E / D \<le> of_int M" .
  have M1: "(0::real) < of_int M + 1"
    using M0 by linarith
  have "2 * E / D < of_int M + 1"
    using ME by linarith
  then have "2 * E < (of_int M + 1) * D"
    using D by (simp add: pos_divide_less_eq)
  then have EM: "E < D / 2 * (of_int M + 1)"
    by (simp add: algebra_simps)
  let ?y = "P + Q * (of_int M + 1)"
  have y: "0 < ?y"
    using P Q M1 by (intro add_pos_nonneg mult_nonneg_nonneg) simp_all
  have "ln ?y \<le> ?y / t + ln t - 1"
    using y t by (rule ln_tangent)
  moreover have "?y / t = P / t + Q / t * (of_int M + 1)"
    by (simp add: add_divide_distrib)
  moreover have "Q / t * (of_int M + 1) \<le> D / 2 * (of_int M + 1)"
    using Qt M1 by (intro mult_right_mono) simp_all
  ultimately have "A + ln ?y \<le> E + D / 2 * (of_int M + 1)"
    by (simp add: E_def)
  also have "\<dots> < D / 2 * (of_int M + 1) + D / 2 * (of_int M + 1)"
    using EM by simp
  also have "\<dots> = D * (of_int M + 1)"
    by simp
  finally have "A + ln ?y < D * (of_int M + 1)" .
  then show ?thesis
    using M0 MN by blast
qed

lemma floor_div_mono:
  fixes a b D :: real
  assumes "0 < D" and "a \<le> b"
  shows "\<lfloor>a / D\<rfloor> \<le> \<lfloor>b / D\<rfloor>"
  using assms by (intro floor_mono divide_right_mono) simp_all

lemma logq_loop_up:
  fixes g :: "int \<Rightarrow> real" and D :: real
  assumes D: "0 < D" and f: "\<And>x. f x = g \<lfloor>x / D\<rfloor>"
    and mono: "\<And>a b. 0 \<le> a \<Longrightarrow> a \<le> b \<Longrightarrow> g a \<le> g b"
    and top: "\<lfloor>g M / D\<rfloor> \<le> M"
  shows "0 \<le> m \<Longrightarrow> m \<le> M \<Longrightarrow> m \<le> \<lfloor>g m / D\<rfloor> \<Longrightarrow> \<lfloor>prev / D\<rfloor> = m
           \<Longrightarrow> \<exists>y. logq_loop f prev (f prev) = Some y"
proof (induction "nat (M - m)" arbitrary: m prev rule: less_induct)
  case less
  define m' where "m' = \<lfloor>g m / D\<rfloor>"
  have cur: "f prev = g m"
    using less.prems(4) by (simp add: f)
  have nxt: "f (g m) = g m'"
    by (simp add: f m'_def)
  have m'M: "m' \<le> M"
  proof -
    have "g m \<le> g M" using less.prems(1,2) by (rule mono)
    then have "m' \<le> \<lfloor>g M / D\<rfloor>" unfolding m'_def using D by (intro floor_div_mono)
    then show ?thesis using top by simp
  qed
  have mm': "m \<le> m'"
    using less.prems(3) by (simp add: m'_def)
  show ?case
  proof (cases "\<bar>g m - prev\<bar> > ln 1.001")
    case False
    then show ?thesis
      by (subst logq_loop.simps) (simp add: cur)
  next
    case True
    have step: "logq_loop f prev (f prev) = logq_loop f (g m) (f (g m))"
      using True by (subst logq_loop.simps) (simp add: cur)
    show ?thesis
    proof (cases "m' = m")
      case True
      then have "f (g m) = g m" using nxt by simp
      then show ?thesis
        using step by (simp add: logq_loop_stationary)
    next
      case False
      then have lt: "m < m'" using mm' by simp
      have "g m \<le> g m'" using less.prems(1) mm' by (rule mono)
      then have up: "m' \<le> \<lfloor>g m' / D\<rfloor>"
        unfolding m'_def [symmetric] using D floor_div_mono [of D "g m" "g m'"]
        by (simp add: m'_def)
      have "\<exists>y. logq_loop f (g m) (f (g m)) = Some y"
      proof (rule less.hyps [of m'])
        show "nat (M - m') < nat (M - m)" using lt m'M by linarith
        show "0 \<le> m'" using less.prems(1) mm' by simp
        show "m' \<le> M" by (rule m'M)
        show "m' \<le> \<lfloor>g m' / D\<rfloor>" by (rule up)
        show "\<lfloor>g m / D\<rfloor> = m'" by (simp add: m'_def)
      qed
      then show ?thesis using step by simp
    qed
  qed
qed

lemma logq_loop_down:
  fixes g :: "int \<Rightarrow> real" and D :: real
  assumes D: "0 < D" and f: "\<And>x. f x = g \<lfloor>x / D\<rfloor>"
    and mono: "\<And>a b. 0 \<le> a \<Longrightarrow> a \<le> b \<Longrightarrow> g a \<le> g b"
    and g0: "0 \<le> g 0"
  shows "0 \<le> m \<Longrightarrow> \<lfloor>g m / D\<rfloor> \<le> m \<Longrightarrow> \<lfloor>prev / D\<rfloor> = m
           \<Longrightarrow> \<exists>y. logq_loop f prev (f prev) = Some y"
proof (induction "nat m" arbitrary: m prev rule: less_induct)
  case less
  define m' where "m' = \<lfloor>g m / D\<rfloor>"
  have cur: "f prev = g m"
    using less.prems(3) by (simp add: f)
  have nxt: "f (g m) = g m'"
    by (simp add: f m'_def)
  have "0 \<le> g m"
    using g0 mono [of 0 m] less.prems(1) by simp
  then have m'0: "0 \<le> m'"
    using D by (simp add: m'_def)
  have m'm: "m' \<le> m"
    using less.prems(2) by (simp add: m'_def)
  show ?case
  proof (cases "\<bar>g m - prev\<bar> > ln 1.001")
    case False
    then show ?thesis
      by (subst logq_loop.simps) (simp add: cur)
  next
    case True
    have step: "logq_loop f prev (f prev) = logq_loop f (g m) (f (g m))"
      using True by (subst logq_loop.simps) (simp add: cur)
    show ?thesis
    proof (cases "m' = m")
      case True
      then have "f (g m) = g m" using nxt by simp
      then show ?thesis
        using step by (simp add: logq_loop_stationary)
    next
      case False
      then have lt: "m' < m" using m'm by simp
      have "g m' \<le> g m" using m'0 m'm by (rule mono)
      then have "\<lfloor>g m' / D\<rfloor> \<le> \<lfloor>g m / D\<rfloor>"
        using D by (intro floor_div_mono)
      then have down: "\<lfloor>g m' / D\<rfloor> \<le> m'"
        by (simp add: m'_def)
      have "\<exists>y. logq_loop f (g m) (f (g m)) = Some y"
      proof (rule less.hyps [of m'])
        show "nat m' < nat m" using lt m'0 by linarith
        show "0 \<le> m'" by (rule m'0)
        show "\<lfloor>g m' / D\<rfloor> \<le> m'" by (rule down)
        show "\<lfloor>g m / D\<rfloor> = m'" by (simp add: m'_def)
      qed
      then show ?thesis using step by simp
    qed
  qed
qed

lemma logq_loop_returns:
  fixes g :: "int \<Rightarrow> real" and D :: real
  assumes D: "0 < D" and f: "\<And>x. f x = g \<lfloor>x / D\<rfloor>"
    and mono: "\<And>a b. 0 \<le> a \<Longrightarrow> a \<le> b \<Longrightarrow> g a \<le> g b"
    and g0: "0 \<le> g 0"
    and bound: "\<And>N. \<exists>M\<ge>N. 0 \<le> M \<and> g M < D * (of_int M + 1)"
    and x0: "0 \<le> x0"
  shows "\<exists>y. logq_loop f x0 (f x0) = Some y"
proof -
  define m where "m = \<lfloor>x0 / D\<rfloor>"
  have m0: "0 \<le> m"
    using x0 D by (simp add: m_def)
  have fl: "\<lfloor>x0 / D\<rfloor> = m"
    by (simp add: m_def)
  show ?thesis
  proof (cases "m \<le> \<lfloor>g m / D\<rfloor>")
    case True
    obtain M where M: "m \<le> M" "0 \<le> M" "g M < D * (of_int M + 1)"
      using bound [of m] by blast
    have "g M / D < of_int M + 1"
      using M(3) D by (simp add: pos_divide_less_eq mult.commute)
    then have top: "\<lfloor>g M / D\<rfloor> \<le> M"
      by (simp add: floor_le_iff)
    show ?thesis
      using D f mono top m0 M(1) True fl by (rule logq_loop_up)
  next
    case False
    then have dn: "\<lfloor>g m / D\<rfloor> \<le> m" by simp
    show ?thesis
      using D f mono g0 m0 dn fl by (rule logq_loop_down)
  qed
qed

lemma delta_deltaMS: "delta n * deltaMS n = 8 * real n"
  by (simp add: delta_def deltaMS_def)

lemma logqBFV_const:
  assumes "KeySwitchTech cp = HYBRID \<or> d = 0"
  shows "logqBFV b d cp bits n x = logqBFV b d cp bits n 0"
  using assms by (auto simp: logqBFV_def C2_def noiseKS_def)

lemma logqBFV_affine:
  assumes "KeySwitchTech cp \<noteq> HYBRID" and "0 < d"
  shows "logqBFV b d cp bits n x =
           ln (4 * real (PlaintextModulus cp)) + real (d - 1) * ln (C1 cp n)
             + ln (C1 cp n * Vnorm cp n + real d * (delta n * deltaMS n * Bkey cp * Bkey cp / 2)
                   + real d * (delta n
                        * (if DigitSize cp = 0 then 1
                           else real (to_uint32 (bits div DigitSize cp + 1)))
                        * relin_w cp bits * Berr cp / 2)
                     * (real_of_int \<lfloor>x / (ln 2 * real bits)\<rfloor> + 1))"
  using assms by (simp add: logqBFV_def C2_def noiseKS_def Let_def algebra_simps)

lemma logq_loop_logqBFV:
  assumes bits: "0 < bits" and p: "0 < PlaintextModulus cp" and n: "0 < n"
    and key: "1 \<le> Bkey cp" and err: "0 \<le> Berr cp"
  shows "\<exists>y. logq_loop (logqBFV b d cp bits n) (6 * ln 10)
                (logqBFV b d cp bits n (6 * ln 10)) = Some y"
proof (cases "KeySwitchTech cp = HYBRID \<or> d = 0")
  case True
  have "\<And>x. logqBFV b d cp bits n x = logqBFV b d cp bits n 0"
    using True by (rule logqBFV_const)
  then have "logq_loop (logqBFV b d cp bits n) (6 * ln 10) (logqBFV b d cp bits n 0)
               = Some (logqBFV b d cp bits n 0)"
    by (rule logq_loop_const)
  then show ?thesis
    using logqBFV_const [OF True] by metis
next
  case False
  then have bv: "KeySwitchTech cp \<noteq> HYBRID" and d: "0 < d" by simp_all
  define D where "D = ln 2 * real bits"
  define A where "A = ln (4 * real (PlaintextModulus cp)) + real (d - 1) * ln (C1 cp n)"
  define P where "P = C1 cp n * Vnorm cp n + real d * (delta n * deltaMS n * Bkey cp * Bkey cp / 2)"
  define Q where "Q = real d * (delta n
                        * (if DigitSize cp = 0 then 1
                           else real (to_uint32 (bits div DigitSize cp + 1)))
                        * relin_w cp bits * Berr cp / 2)"
  define g where "g = (\<lambda>m :: int. A + ln (P + Q * (real_of_int m + 1)))"
  have D: "0 < D"
    using bits by (simp add: D_def)
  have f: "\<And>x. logqBFV b d cp bits n x = g \<lfloor>x / D\<rfloor>"
    using logqBFV_affine [OF bv d] by (simp add: g_def A_def P_def Q_def D_def)
  have rn: "1 \<le> real n" and rp: "1 \<le> real (PlaintextModulus cp)" and rd: "1 \<le> real d"
    using n p d by simp_all
  have key0: "0 \<le> Bkey cp" using key by simp
  have c1: "1 \<le> C1 cp n"
  proof -
    have "1 * 1 * 1 \<le> real n * real (PlaintextModulus cp) * Bkey cp"
      using rn rp key by (intro mult_mono) simp_all
    then show ?thesis
      by (simp add: C1_def delta_deltaMS)
  qed
  have vn: "0 \<le> Vnorm cp n"
    using key0 err by (simp add: Vnorm_def delta_def deltaMS_def)
  have k0: "1 \<le> real d * (delta n * deltaMS n * Bkey cp * Bkey cp / 2)"
  proof -
    have "1 * 1 * 1 \<le> real n * Bkey cp * Bkey cp"
      using rn key by (intro mult_mono) simp_all
    then have "1 \<le> delta n * deltaMS n * Bkey cp * Bkey cp / 2"
      by (simp add: delta_deltaMS)
    then have "1 * 1 \<le> real d * (delta n * deltaMS n * Bkey cp * Bkey cp / 2)"
      using rd by (intro mult_mono) simp_all
    then show ?thesis by simp
  qed
  have "0 \<le> C1 cp n * Vnorm cp n"
    using c1 vn by simp
  then have P1: "1 \<le> P"
    using k0 by (simp add: P_def)
  have Q0: "0 \<le> Q"
    using err by (simp add: Q_def delta_def relin_w_def)
  have A0: "0 \<le> A"
  proof -
    have "0 \<le> ln (4 * real (PlaintextModulus cp))"
      using rp by simp
    moreover have "0 \<le> real (d - 1) * ln (C1 cp n)"
      using c1 by simp
    ultimately show ?thesis by (simp add: A_def)
  qed
  have pos: "1 \<le> P + Q * (real_of_int m + 1)" if "0 \<le> m" for m
  proof -
    have "0 \<le> Q * (real_of_int m + 1)"
      using Q0 that by simp
    then show ?thesis using P1 by simp
  qed
  have mono: "\<And>a c. 0 \<le> a \<Longrightarrow> a \<le> c \<Longrightarrow> g a \<le> g c"
  proof -
    fix a c :: int
    assume a: "0 \<le> a" and ac: "a \<le> c"
    have "Q * (real_of_int a + 1) \<le> Q * (real_of_int c + 1)"
      using Q0 ac by (intro mult_left_mono) simp_all
    moreover have "0 < P + Q * (real_of_int a + 1)"
      using pos [OF a] by simp
    ultimately show "g a \<le> g c"
      by (simp add: g_def)
  qed
  have g0: "0 \<le> g 0"
  proof -
    have "0 \<le> ln (P + Q * (real_of_int 0 + 1))"
      using pos [of 0] by simp
    then show ?thesis using A0 by (simp add: g_def)
  qed
  have bound: "\<And>N. \<exists>M\<ge>N. 0 \<le> M \<and> g M < D * (real_of_int M + 1)"
    unfolding g_def using D P1 Q0 by (intro log_affine_bound) simp_all
  have x0: "(0::real) \<le> 6 * ln 10" by simp
  show ?thesis
    using D f mono g0 bound x0 by (rule logq_loop_returns)
qed

lemma FindLevelsToDrop_returns:
  assumes "KeySwitchTech cp = HYBRID \<or> d = 0
           \<or> (0 < bits \<and> 0 < PlaintextModulus cp \<and> 0 < RingDimension cp
                \<and> 1 \<le> Bkey cp \<and> 0 \<le> Berr cp)"
  shows "\<exists>r. FindLevelsToDrop b d cp bits ks = Some r"
proof -
  have "\<exists>y. logq_loop (logqBFV b d cp bits (RingDimension cp)) (6 * ln 10)
                (logqBFV b d cp bits (RingDimension cp) (6 * ln 10)) = Some y"
  proof (cases "KeySwitchTech cp = HYBRID \<or> d = 0")
    case True
    have "\<And>x. logqBFV b d cp bits (RingDimension cp) x = logqBFV b d cp bits (RingDimension cp) 0"
      using True by (rule logqBFV_const)
    then have "logq_loop (logqBFV b d cp bits (RingDimension cp)) (6 * ln 10)
                 (logqBFV b d cp bits (RingDimension cp) 0)
               = Some (logqBFV b d cp bits (RingDimension cp) 0)"
      by (rule logq_loop_const)
    then show ?thesis
      using logqBFV_const [OF True] by metis
  next
    case False
    then show ?thesis
      using assms by (intro logq_loop_logqBFV) simp_all
  qed
  then show ?thesis
    by (auto simp: FindLevelsToDrop_def Let_def)
qed

lemma FindLevelsToDrop_le:
  assumes "0 < ParamsSize cp" and "FindLevelsToDrop b d cp bits ks = Some r"
  shows "r \<le> ParamsSize cp - 1"
  using assms clamp_levels_le [OF assms(1)]
  by (auto simp: FindLevelsToDrop_def Let_def split: option.splits)

text \<open>Claim C2. \<^verbatim>\<open>FindLevelsToDrop\<close> is a function of its arguments alone: the model
  reads nothing else and returns no state. For parameters with at least one limb, every
  result lies between 0 and the number of limbs minus one. A result exists, that is, the
  loop of the estimate ends, under hybrid key switching, for depth zero, and in every other
  case provided that the tower size, the plaintext modulus and the ring dimension are
  positive, the key bound \<open>Bkey\<close> is at least 1 and the error bound \<open>Berr\<close> is not
  negative. These are properties of every parameter set of the scheme: the key bound is
  the number of parties for a ternary secret and \<open>sqrt parties * sigma * sqrt alpha\<close> for a
  Gaussian one.\<close>

theorem FindLevelsToDrop_range:
  assumes "0 < ParamsSize cp"
  shows "(\<forall>r. FindLevelsToDrop b multiplicativeDepth cp dcrtBits keySwitch = Some r
             \<longrightarrow> r \<le> ParamsSize cp - 1)
       \<and> (KeySwitchTech cp = HYBRID \<or> multiplicativeDepth = 0
            \<or> (0 < dcrtBits \<and> 0 < PlaintextModulus cp \<and> 0 < RingDimension cp
                 \<and> 1 \<le> Bkey cp \<and> 0 \<le> Berr cp)
             \<longrightarrow> (\<exists>r. FindLevelsToDrop b multiplicativeDepth cp dcrtBits keySwitch = Some r
                       \<and> r \<le> ParamsSize cp - 1))"
proof (intro conjI allI impI)
  fix r
  assume "FindLevelsToDrop b multiplicativeDepth cp dcrtBits keySwitch = Some r"
  then show "r \<le> ParamsSize cp - 1"
    using assms by (intro FindLevelsToDrop_le)
next
  assume "KeySwitchTech cp = HYBRID \<or> multiplicativeDepth = 0
            \<or> (0 < dcrtBits \<and> 0 < PlaintextModulus cp \<and> 0 < RingDimension cp
                 \<and> 1 \<le> Bkey cp \<and> 0 \<le> Berr cp)"
  then obtain r where r: "FindLevelsToDrop b multiplicativeDepth cp dcrtBits keySwitch = Some r"
    using FindLevelsToDrop_returns by blast
  then have "r \<le> ParamsSize cp - 1"
    using assms by (intro FindLevelsToDrop_le)
  then show "\<exists>r. FindLevelsToDrop b multiplicativeDepth cp dcrtBits keySwitch = Some r
                       \<and> r \<le> ParamsSize cp - 1"
    using r by blast
qed

text \<open>The theorem at the parameters \<open>cp_hps\<close>, with three limbs and hybrid key
  switching, and at \<open>cp_bv\<close>, the same parameters with \<open>BV\<close> key switching, at depth 2.\<close>

theorem FindLevelsToDrop_range_witness:
  "(\<exists>r. FindLevelsToDrop build0 1 cp_hps 60 True = Some r \<and> r \<le> 2)
   \<and> (\<exists>r. FindLevelsToDrop build0 2 cp_bv 60 True = Some r \<and> r \<le> 2)"
proof -
  have h: "0 < ParamsSize cp_hps" "KeySwitchTech cp_hps = HYBRID" "ParamsSize cp_hps - 1 = 2"
    by (simp_all add: cp_hps_def)
  have v: "0 < ParamsSize cp_bv" "ParamsSize cp_bv - 1 = 2"
    "(0::nat) < 60 \<and> 0 < PlaintextModulus cp_bv \<and> 0 < RingDimension cp_bv
       \<and> 1 \<le> Bkey cp_bv \<and> 0 \<le> Berr cp_bv"
    by (simp_all add: cp_bv_def cp_hps_def Bkey_def Berr_def)
  from FindLevelsToDrop_range [OF h(1), of build0 1 60 True]
    FindLevelsToDrop_range [OF v(1), of build0 2 60 True] h v
  show ?thesis by simp
qed

section \<open>Scheme A: the double loops as contribution lists\<close>

lemma contrib_Nil: "contrib k [] = 0"
  by (simp add: contrib_def)

lemma contrib_Cons: "contrib k (c # cs) = (if fst c = k then snd c else 0) + contrib k cs"
  by (simp add: contrib_def)

lemma acc_step_length:
  "length (fst (acc_step c s)) = length (fst s) \<and> length (snd (acc_step c s)) = length (snd s)"
  by (cases c; cases s) simp

lemma fold_acc_length:
  "length (fst (fold acc_step cs s)) = length (fst s) \<and> length (snd (fold acc_step cs s)) = length (snd s)"
  by (induction cs arbitrary: s) (simp_all add: acc_step_length)

lemma fold_acc_nth:
  assumes "\<forall>c \<in> set cs. fst c < length xs" and "length fs = length xs" and "k < length xs"
  shows "fst (fold acc_step cs (xs, fs)) ! k =
           (if fs ! k then (if k \<in> fst ` set cs then contrib k cs else xs ! k)
            else xs ! k + contrib k cs)"
  using assms
proof (induction cs arbitrary: xs fs)
  case Nil
  then show ?case by (simp add: contrib_Nil)
next
  case (Cons c cs)
  obtain k0 v0 where c: "c = (k0, v0)" by (cases c)
  have k0: "k0 < length xs" using Cons.prems(1) c by simp
  show ?case
  proof (cases "fs ! k0")
    case True
    have step: "acc_step c (xs, fs) = (xs[k0 := v0], fs[k0 := False])"
      using True c by simp
    have ih: "fst (fold acc_step cs (xs[k0 := v0], fs[k0 := False])) ! k =
           (if fs[k0 := False] ! k then (if k \<in> fst ` set cs then contrib k cs else xs[k0 := v0] ! k)
            else xs[k0 := v0] ! k + contrib k cs)"
      using Cons.prems by (intro Cons.IH) simp_all
    show ?thesis
    proof (cases "k = k0")
      case keq: True
      then show ?thesis
        using ih step True k0 Cons.prems(2) c by (simp add: contrib_Cons)
    next
      case False
      then show ?thesis
        using ih step c by (auto simp: contrib_Cons)
    qed
  next
    case False
    have step: "acc_step c (xs, fs) = (xs[k0 := xs ! k0 + v0], fs)"
      using False c by simp
    have ih: "fst (fold acc_step cs (xs[k0 := xs ! k0 + v0], fs)) ! k =
           (if fs ! k then (if k \<in> fst ` set cs then contrib k cs else xs[k0 := xs ! k0 + v0] ! k)
            else xs[k0 := xs ! k0 + v0] ! k + contrib k cs)"
      using Cons.prems by (intro Cons.IH) simp_all
    show ?thesis
    proof (cases "k = k0")
      case keq: True
      then show ?thesis
        using ih step False k0 c by (simp add: contrib_Cons add.assoc)
    next
      case kne: False
      then show ?thesis
        using ih step c by (auto simp: contrib_Cons)
    qed
  qed
qed

lemma fold_concat_fold: "fold f (concat xss) = fold (fold f) xss"
proof
  fix s show "fold f (concat xss) s = fold (fold f) xss s"
    by (induction xss arbitrary: s) simp_all
qed

lemma tensor_step_acc: "tensor_step cv1 cv2 i j s = acc_step (i + j, cv1 ! i * cv2 ! j) s"
  by (cases s) simp

lemma square_step_acc:
  assumes "i + j < length (snd s)"
  shows "square_step cv i j s = fold acc_step (sq_contrib cv i j) s"
  using assms by (cases s) (simp add: sq_contrib_def Let_def)

lemma fold_cong_inv:
  assumes "P s"
    and "\<And>x t. x \<in> set xs \<Longrightarrow> P t \<Longrightarrow> f x t = g x t \<and> P (g x t)"
  shows "fold f xs s = fold g xs s \<and> P (fold g xs s)"
  using assms
proof (induction xs arbitrary: s)
  case Nil
  then show ?case by simp
next
  case (Cons x xs)
  have "f x s = g x s \<and> P (g x s)" using Cons.prems by simp
  moreover have "fold f xs (g x s) = fold g xs (g x s) \<and> P (fold g xs (g x s))"
    using Cons.prems calculation by (intro Cons.IH) simp_all
  ultimately show ?case by simp
qed

lemma tensor_fold_contribs:
  "fold (\<lambda>i. fold (tensor_step cv1 cv2 i) [0..<length cv2]) [0..<length cv1] s
     = fold acc_step (full_contribs cv1 cv2) s"
proof -
  have inner: "\<And>i. fold (tensor_step cv1 cv2 i) [0..<length cv2]
                  = fold acc_step (map (\<lambda>j. (i + j, cv1 ! i * cv2 ! j)) [0..<length cv2])"
    by (simp add: fold_map comp_def tensor_step_acc [abs_def])
  show ?thesis
    by (simp add: full_contribs_def fold_concat_fold fold_map comp_def inner)
qed

lemma square_fold_contribs:
  assumes "length (snd s) = 2 * length cv - 1"
  shows "fold (\<lambda>i. fold (square_step cv i) [i..<length cv]) [0..<length cv] s
     = fold acc_step (half_contribs cv) s"
proof -
  define N where "N = 2 * length cv - 1"
  define P where "P = (\<lambda>t :: 'a list \<times> bool list. length (snd t) = N)"
  have P_fold: "\<And>cs t. P t \<Longrightarrow> P (fold acc_step cs t)"
    by (simp add: P_def fold_acc_length)
  have inner: "fold (square_step cv i) [i..<length cv] t
                 = fold (\<lambda>j. fold acc_step (sq_contrib cv i j)) [i..<length cv] t
               \<and> P (fold (\<lambda>j. fold acc_step (sq_contrib cv i j)) [i..<length cv] t)"
    if "P t" and "i < length cv" for i t
  proof (rule fold_cong_inv [where P = P, OF that(1)])
    fix j u
    assume j: "j \<in> set [i..<length cv]" and u: "P u"
    have "i + j < length (snd u)"
      using j that(2) u by (auto simp: P_def N_def)
    then show "square_step cv i j u = fold acc_step (sq_contrib cv i j) u
                 \<and> P (fold acc_step (sq_contrib cv i j) u)"
      using u by (simp add: square_step_acc P_fold)
  qed
  have "P s" using assms by (simp add: P_def N_def)
  then have "fold (\<lambda>i. fold (square_step cv i) [i..<length cv]) [0..<length cv] s
        = fold (\<lambda>i. fold (\<lambda>j. fold acc_step (sq_contrib cv i j)) [i..<length cv]) [0..<length cv] s
      \<and> P (fold (\<lambda>i. fold (\<lambda>j. fold acc_step (sq_contrib cv i j)) [i..<length cv]) [0..<length cv] s)"
    by (rule fold_cong_inv [where P = P]) (use inner in auto)
  then show ?thesis
    by (simp add: half_contribs_def fold_concat_fold fold_map comp_def)
qed

lemma contrib_append: "contrib k (xs @ ys) = contrib k xs + contrib k ys"
  by (simp add: contrib_def)

lemma contrib_concat: "contrib k (concat xss) = sum_list (map (contrib k) xss)"
  by (induction xss) (simp_all add: contrib_Nil contrib_append)

lemma contrib_full:
  "contrib k (full_contribs cv1 cv2) =
     (\<Sum>i = 0..<length cv1. \<Sum>j = 0..<length cv2. if i + j = k then cv1 ! i * cv2 ! j else 0)"
proof -
  have "contrib k (full_contribs cv1 cv2)
      = sum_list (map (\<lambda>i. contrib k (map (\<lambda>j. (i + j, cv1 ! i * cv2 ! j)) [0..<length cv2]))
          [0..<length cv1])"
    by (simp add: full_contribs_def contrib_concat comp_def)
  also have "\<dots> = (\<Sum>i = 0..<length cv1. \<Sum>j = 0..<length cv2. if i + j = k then cv1 ! i * cv2 ! j else 0)"
    by (simp add: contrib_def comp_def interv_sum_list_conv_sum_set_nat cong: if_cong)
  finally show ?thesis .
qed

lemma contrib_sq:
  "contrib k (sq_contrib cv i j) =
     (if j = i then (if i + j = k then cv ! i * cv ! j else 0)
      else (if i + j = k then cv ! i * cv ! j else 0) + (if j + i = k then cv ! j * cv ! i else 0))"
  by (simp add: sq_contrib_def contrib_def mult.commute add.commute)

lemma contrib_half:
  "contrib k (half_contribs cv) =
     (\<Sum>i = 0..<length cv. \<Sum>j = i..<length cv.
        if j = i then (if i + j = k then cv ! i * cv ! j else 0)
        else (if i + j = k then cv ! i * cv ! j else 0) + (if j + i = k then cv ! j * cv ! i else 0))"
proof -
  have "contrib k (half_contribs cv)
      = sum_list (map (\<lambda>i. sum_list (map (\<lambda>j. contrib k (sq_contrib cv i j)) [i..<length cv]))
          [0..<length cv])"
    by (simp add: half_contribs_def contrib_concat comp_def)
  then show ?thesis
    by (simp add: contrib_sq interv_sum_list_conv_sum_set_nat)
qed

lemma triangle_sum:
  fixes g :: "nat \<Rightarrow> nat \<Rightarrow> 'a::comm_monoid_add"
  shows "(\<Sum>i = 0..<n. \<Sum>j = 0..<n. g i j)
       = (\<Sum>i = 0..<n. \<Sum>j = i..<n. if j = i then g i j else g i j + g j i)"
proof (induction n)
  case 0
  then show ?case by simp
next
  case (Suc n)
  have "(\<Sum>i = 0..<Suc n. \<Sum>j = 0..<Suc n. g i j)
      = (\<Sum>i = 0..<n. \<Sum>j = 0..<n. g i j) + (\<Sum>i = 0..<n. g i n) + ((\<Sum>j = 0..<n. g n j) + g n n)"
    by (simp add: sum.distrib ac_simps)
  moreover have "(\<Sum>i = 0..<Suc n. \<Sum>j = i..<Suc n. if j = i then g i j else g i j + g j i)
      = (\<Sum>i = 0..<n. (\<Sum>j = i..<n. if j = i then g i j else g i j + g j i) + (g i n + g n i)) + g n n"
    by simp
  moreover have "\<dots> = (\<Sum>i = 0..<n. \<Sum>j = i..<n. if j = i then g i j else g i j + g j i)
                    + ((\<Sum>i = 0..<n. g i n) + (\<Sum>i = 0..<n. g n i)) + g n n"
    by (simp add: sum.distrib)
  ultimately show ?case
    using Suc.IH by (simp add: ac_simps)
qed

lemma contrib_full_half: "contrib k (full_contribs cv cv) = contrib k (half_contribs cv)"
  unfolding contrib_full contrib_half
  by (rule triangle_sum)

lemma keys_full_half: "fst ` set (full_contribs cv cv) = fst ` set (half_contribs cv)"
proof -
  have full: "fst ` set (full_contribs cv cv) = {k. \<exists>i j. i < length cv \<and> j < length cv \<and> k = i + j}"
  proof (intro set_eqI iffI)
    fix k assume "k \<in> fst ` set (full_contribs cv cv)"
    then show "k \<in> {k. \<exists>i j. i < length cv \<and> j < length cv \<and> k = i + j}"
      by (auto simp: full_contribs_def)
  next
    fix k assume "k \<in> {k. \<exists>i j. i < length cv \<and> j < length cv \<and> k = i + j}"
    then obtain i j where ij: "i < length cv" "j < length cv" "k = i + j" by blast
    have "(i + j, cv ! i * cv ! j) \<in> set (full_contribs cv cv)"
      using ij by (auto simp: full_contribs_def intro!: bexI [of _ i] image_eqI [of _ _ j])
    then show "k \<in> fst ` set (full_contribs cv cv)"
      using ij(3) by force
  qed
  have half: "fst ` set (half_contribs cv) = {k. \<exists>i j. i < length cv \<and> i \<le> j \<and> j < length cv \<and> k = i + j}"
  proof (intro set_eqI iffI)
    fix k assume "k \<in> fst ` set (half_contribs cv)"
    then obtain i j v where "i < length cv" "i \<le> j" "j < length cv"
        and "(k, v) \<in> set (sq_contrib cv i j)"
      by (auto simp: half_contribs_def)
    then have "i < length cv \<and> i \<le> j \<and> j < length cv \<and> k = i + j"
      by (auto simp: sq_contrib_def split: if_splits)
    then show "k \<in> {k. \<exists>i j. i < length cv \<and> i \<le> j \<and> j < length cv \<and> k = i + j}"
      by blast
  next
    fix k assume "k \<in> {k. \<exists>i j. i < length cv \<and> i \<le> j \<and> j < length cv \<and> k = i + j}"
    then obtain i j where ij: "i < length cv" "i \<le> j" "j < length cv" "k = i + j" by blast
    have m: "(i + j, cv ! i * cv ! j) \<in> set (sq_contrib cv i j)"
      by (simp add: sq_contrib_def)
    have a: "j \<in> set [i..<length cv]" and c: "i \<in> set [0..<length cv]"
      using ij by simp_all
    have b: "(i + j, cv ! i * cv ! j) \<in> set (concat (map (sq_contrib cv i) [i..<length cv]))"
      unfolding set_concat set_map using a m by blast
    have "(i + j, cv ! i * cv ! j) \<in> set (half_contribs cv)"
      unfolding half_contribs_def set_concat set_map using b c by blast
    then show "k \<in> fst ` set (half_contribs cv)"
      using ij(4) by force
  qed
  have "{k. \<exists>i j. i < length cv \<and> j < length cv \<and> k = i + j}
      = {k. \<exists>i j. i < length cv \<and> i \<le> j \<and> j < length cv \<and> k = i + j}" (is "?A = ?B")
  proof
    show "?A \<subseteq> ?B"
    proof
      fix k assume "k \<in> ?A"
      then obtain i j where ij: "i < length cv" "j < length cv" "k = i + j" by blast
      show "k \<in> ?B"
      proof (cases "i \<le> j")
        case True
        then show ?thesis using ij by blast
      next
        case False
        then have "j < length cv \<and> j \<le> i \<and> i < length cv \<and> k = j + i" using ij by simp
        then show ?thesis by blast
      qed
    qed
    show "?B \<subseteq> ?A" by blast
  qed
  then show ?thesis using full half by simp
qed

lemma tensor_loop_square_loop:
  "tensor_loop cv cv (replicate (2 * length cv - 1) d) = square_loop cv (replicate (2 * length cv - 1) d)"
proof -
  define N where "N = 2 * length cv - 1"
  define xs where "xs = replicate N d"
  define fs where "fs = replicate N True"
  have bound_full: "\<forall>c \<in> set (full_contribs cv cv). fst c < length xs"
    by (auto simp: full_contribs_def xs_def N_def)
  have bound_half: "\<forall>c \<in> set (half_contribs cv). fst c < length xs"
    by (auto simp: half_contribs_def sq_contrib_def xs_def N_def split: if_splits)
  have lf: "length fs = length xs" by (simp add: fs_def xs_def)
  have t: "tensor_loop cv cv xs = fst (fold acc_step (full_contribs cv cv) (xs, fs))"
    by (simp add: tensor_loop_def tensor_fold_contribs xs_def fs_def)
  have s: "square_loop cv xs = fst (fold acc_step (half_contribs cv) (xs, fs))"
    by (simp add: square_loop_def square_fold_contribs xs_def fs_def N_def)
  have "fst (fold acc_step (full_contribs cv cv) (xs, fs)) = fst (fold acc_step (half_contribs cv) (xs, fs))"
  proof (rule nth_equalityI)
    show "length (fst (fold acc_step (full_contribs cv cv) (xs, fs)))
        = length (fst (fold acc_step (half_contribs cv) (xs, fs)))"
      by (simp add: fold_acc_length)
  next
    fix k
    assume "k < length (fst (fold acc_step (full_contribs cv cv) (xs, fs)))"
    then have k: "k < length xs" by (simp add: fold_acc_length)
    show "fst (fold acc_step (full_contribs cv cv) (xs, fs)) ! k
        = fst (fold acc_step (half_contribs cv) (xs, fs)) ! k"
      by (simp only: fold_acc_nth [OF bound_full lf k] fold_acc_nth [OF bound_half lf k]
            contrib_full_half keys_full_half)
  qed
  then show ?thesis
    using t s by (simp add: xs_def N_def)
qed

section \<open>Scheme A: size and degree of a product\<close>

lemma tensor_loop_length: "length (tensor_loop cv1 cv2 xs) = length xs"
  by (simp add: tensor_loop_def tensor_fold_contribs fold_acc_length)

lemma tensor_product_length: "length (tensor_product b d cv1 cv2) = length cv1 + length cv2 - 1"
  by (simp add: tensor_product_def Let_def tensor_loop_length)

lemma mult_scale_length: "length (mult_scale K cp sizeQ l xs) = length xs"
  by (simp add: mult_scale_def Let_def)

lemma mult_expand_lengths:
  assumes "mult_expand b K cp d1 d2 cv1 cv2 = Some (l, cv1e, cv2e)"
  shows "length cv1e = length cv1 \<and> length cv2e = length cv2"
  using assms
  by (auto simp: mult_expand_def Let_def split: if_splits option.splits)

lemma mult_expand_returns:
  assumes "MultiplicationTech cp = HPSPOVERQLEVELED
             \<longrightarrow> KeySwitchTech cp = HYBRID
                 \<or> (0 < ModulusMSB K (cv1 ! 0) \<and> 0 < PlaintextModulus cp
                      \<and> 0 < RingDimension cp \<and> 1 \<le> Bkey cp \<and> 0 \<le> Berr cp)"
  shows "\<exists>x. mult_expand b K cp d1 d2 cv1 cv2 = Some x"
proof (cases "MultiplicationTech cp = HPSPOVERQLEVELED")
  case True
  then have h: "KeySwitchTech cp = HYBRID \<or> to_uint32 (size_t_sub (max d1 d2) 1) = 0
                 \<or> (0 < ModulusMSB K (cv1 ! 0) \<and> 0 < PlaintextModulus cp
                      \<and> 0 < RingDimension cp \<and> 1 \<le> Bkey cp \<and> 0 \<le> Berr cp)"
    using assms by blast
  obtain r where "FindLevelsToDrop b (to_uint32 (size_t_sub (max d1 d2) 1)) cp
                    (ModulusMSB K (cv1 ! 0)) False = Some r"
    using FindLevelsToDrop_returns [OF h] by blast
  then show ?thesis
    by (simp add: mult_expand_def Let_def)
next
  case False
  then show ?thesis
    by (simp add: mult_expand_def Let_def)
qed

lemma EvalMult_a_b: "EvalMult build0 K_int ct_a ct_b = Some (Inr ct_ab)"
  by (simp add: EvalMult_def mult_expand_def tensor_product_def tensor_loop_def mult_scale_def
        size_t_add_def K_int_def cp_hps_def build0_def ct_a_def ct_b_def ct_ab_def upt_rec)

lemma EvalMult_b_b: "EvalMult build0 K_int ct_b ct_b = Some (Inr ct_bb)"
  by (simp add: EvalMult_def mult_expand_def tensor_product_def tensor_loop_def mult_scale_def
        size_t_add_def K_int_def cp_hps_def build0_def ct_b_def ct_bb_def upt_rec)

text \<open>Claim C4. A ciphertext returned by \<^verbatim>\<open>EvalMult\<close> has
  \<open>size1 + size2 - 1\<close> elements, whatever the multiplication technique. Its noise scale
  degree is \<open>max deg1 deg2 + 1\<close> in \<^verbatim>\<open>size_t\<close> arithmetic, which is \<open>max deg1 deg2 + 1\<close>
  whenever the degrees are below the largest \<^verbatim>\<open>size_t\<close>. A ciphertext is returned when
  the parameters of the operands are equal and the first operand has an element; under
  \<open>HPSPOVERQLEVELED\<close>, where the level estimate is called with the tower size of the first
  element, this needs the loop of the estimate to end, which holds under hybrid key
  switching and for every parameter set described at claim C2.\<close>

theorem EvalMult_size_and_degree:
  "(\<forall>r. EvalMult b K ciphertext1 ciphertext2 = Some (Inr r)
        \<longrightarrow> length (Elements r)
              = length (Elements ciphertext1) + length (Elements ciphertext2) - 1
            \<and> NoiseScaleDeg r
              = (max (NoiseScaleDeg ciphertext1) (NoiseScaleDeg ciphertext2) + 1) mod 2 ^ 64
            \<and> (max (NoiseScaleDeg ciphertext1) (NoiseScaleDeg ciphertext2) < 2 ^ 64 - 1
                 \<longrightarrow> NoiseScaleDeg r
                       = max (NoiseScaleDeg ciphertext1) (NoiseScaleDeg ciphertext2) + 1))
   \<and> (CryptoParameters ciphertext1 = CryptoParameters ciphertext2
        \<and> Elements ciphertext1 \<noteq> []
        \<and> (MultiplicationTech (CryptoParameters ciphertext1) = HPSPOVERQLEVELED
             \<longrightarrow> KeySwitchTech (CryptoParameters ciphertext1) = HYBRID
                 \<or> (0 < ModulusMSB K (Elements ciphertext1 ! 0)
                      \<and> 0 < PlaintextModulus (CryptoParameters ciphertext1)
                      \<and> 0 < RingDimension (CryptoParameters ciphertext1)
                      \<and> 1 \<le> Bkey (CryptoParameters ciphertext1)
                      \<and> 0 \<le> Berr (CryptoParameters ciphertext1)))
      \<longrightarrow> (\<exists>r. EvalMult b K ciphertext1 ciphertext2 = Some (Inr r)))"
proof (intro conjI allI impI)
  fix r
  assume run: "EvalMult b K ciphertext1 ciphertext2 = Some (Inr r)"
  then obtain l cv1e cv2e where
    ex: "mult_expand b K (CryptoParameters ciphertext1) (NoiseScaleDeg ciphertext1)
           (NoiseScaleDeg ciphertext2) (Elements ciphertext1) (Elements ciphertext2)
           = Some (l, cv1e, cv2e)"
    and r: "r = (CloneEmpty K ciphertext1)
          \<lparr>Elements := mult_scale K (CryptoParameters ciphertext1)
                          (GetNumOfElements K (Elements ciphertext1 ! 0)) l
                          (tensor_product b (DefaultPoly K) cv1e cv2e),
           NoiseScaleDeg := size_t_add
                              (max (NoiseScaleDeg ciphertext1) (NoiseScaleDeg ciphertext2)) 1\<rparr>"
    by (auto simp: EvalMult_def Let_def split: if_splits option.splits)
  show "length (Elements r) = length (Elements ciphertext1) + length (Elements ciphertext2) - 1"
    using mult_expand_lengths [OF ex]
    by (simp add: r mult_scale_length tensor_product_length)
  show w: "NoiseScaleDeg r
         = (max (NoiseScaleDeg ciphertext1) (NoiseScaleDeg ciphertext2) + 1) mod 2 ^ 64"
    by (simp add: r size_t_add_def)
  show "NoiseScaleDeg r = max (NoiseScaleDeg ciphertext1) (NoiseScaleDeg ciphertext2) + 1"
    if "max (NoiseScaleDeg ciphertext1) (NoiseScaleDeg ciphertext2) < 2 ^ 64 - 1"
  proof -
    have "max (NoiseScaleDeg ciphertext1) (NoiseScaleDeg ciphertext2) + 1 < 2 ^ 64"
      using that by simp
    then show ?thesis
      unfolding w by (rule mod_less)
  qed
next
  assume a: "CryptoParameters ciphertext1 = CryptoParameters ciphertext2
        \<and> Elements ciphertext1 \<noteq> []
        \<and> (MultiplicationTech (CryptoParameters ciphertext1) = HPSPOVERQLEVELED
             \<longrightarrow> KeySwitchTech (CryptoParameters ciphertext1) = HYBRID
                 \<or> (0 < ModulusMSB K (Elements ciphertext1 ! 0)
                      \<and> 0 < PlaintextModulus (CryptoParameters ciphertext1)
                      \<and> 0 < RingDimension (CryptoParameters ciphertext1)
                      \<and> 1 \<le> Bkey (CryptoParameters ciphertext1)
                      \<and> 0 \<le> Berr (CryptoParameters ciphertext1)))"
  then obtain x where
    "mult_expand b K (CryptoParameters ciphertext1) (NoiseScaleDeg ciphertext1)
           (NoiseScaleDeg ciphertext2) (Elements ciphertext1) (Elements ciphertext2) = Some x"
    using mult_expand_returns [of "CryptoParameters ciphertext1" K "Elements ciphertext1"] by blast
  then show "\<exists>r. EvalMult b K ciphertext1 ciphertext2 = Some (Inr r)"
    using a by (cases x) (simp add: EvalMult_def Let_def)
qed

text \<open>The product of a ciphertext of two elements and degree 1 with one of three elements
  and degree 2.\<close>

theorem EvalMult_size_and_degree_witness:
  "EvalMult build0 K_int ct_a ct_b = Some (Inr ct_ab)
   \<and> length (Elements ct_ab) = 4 \<and> NoiseScaleDeg ct_ab = 3"
  using EvalMult_size_and_degree [of build0 K_int ct_a ct_b] EvalMult_a_b
  by (simp add: ct_a_def ct_b_def)

text \<open>Claim C5. \<^verbatim>\<open>EvalMult\<close> ends with the parameter-mismatch error exactly when the
  crypto parameters of the operands differ. The comparison is the first statement: in that
  case the outcome is the error alone, no ciphertext is returned, and the operands, which
  the function only reads, are as they were.\<close>

theorem EvalMult_parameter_mismatch:
  "EvalMult b K ciphertext1 ciphertext2 = Some (Inl ParameterMismatch)
     \<longleftrightarrow> CryptoParameters ciphertext1 \<noteq> CryptoParameters ciphertext2"
  by (auto simp: EvalMult_def Let_def split: option.splits)

text \<open>Two operands with different multiplication techniques, and two with the same
  parameters.\<close>

theorem EvalMult_parameter_mismatch_witness:
  "EvalMult build0 K_int ct_a ct_c = Some (Inl ParameterMismatch)
   \<and> EvalMult build0 K_int ct_a ct_b \<noteq> Some (Inl ParameterMismatch)"
  using EvalMult_parameter_mismatch [of build0 K_int ct_a ct_c]
    EvalMult_parameter_mismatch [of build0 K_int ct_a ct_b]
  by (simp add: ct_a_def ct_b_def ct_c_def cp_hps_def)

section \<open>Scheme A: squaring\<close>

lemma square_product_sym:
  assumes "tech = HPS \<or> tech = BEHZ" and "\<not> USE_KARATSUBA b"
  shows "square_product d tech cv cvP = Inr (tensor_product b d cv cv)"
proof -
  have "2 * length cv - 1 = length cv + length cv - 1" by simp
  then show ?thesis
    using assms tensor_loop_square_loop [of cv d]
    by (auto simp: square_product_def tensor_product_def Let_def)
qed

lemma square_product_full:
  assumes "tech \<noteq> HPS" "tech \<noteq> BEHZ" "length cvP = length cv" and "\<not> USE_KARATSUBA b"
  shows "square_product d tech cv cvP = Inr (tensor_product b d cv cvP)"
proof -
  have "2 * length cv - 1 = length cv + length cv - 1" by simp
  then show ?thesis
    using assms by (auto simp: square_product_def tensor_product_def tensor_loop_def Let_def)
qed

text \<open>Claim C1. In a build without \<^verbatim>\<open>USE_KARATSUBA\<close>, \<^verbatim>\<open>EvalSquare\<close> on a
  ciphertext and \<^verbatim>\<open>EvalMult\<close> on that ciphertext twice have the same outcome: the same
  elements and noise scale degree, the same error, or both stay in the loop of the level
  estimate. This holds under each of the four techniques, for a ciphertext none of whose
  elements has more limbs than the crypto parameters, as is the case for every ciphertext
  of a context: with more limbs, under \<open>HPSPOVERQLEVELED\<close>, the squaring reads the empty
  vector \<^verbatim>\<open>cvPoverQ\<close> where the multiplication takes the last branch. The ring of
  polynomials is commutative, which the half loop of the squaring relies on.\<close>

theorem EvalSquare_eq_EvalMult:
  assumes "\<not> USE_KARATSUBA b"
    and "\<forall>c \<in> set (Elements ciphertext).
           GetNumOfElements K c \<le> ParamsSize (CryptoParameters ciphertext)"
  shows "EvalSquare b K ciphertext = EvalMult b K ciphertext ciphertext"
proof (cases "Elements ciphertext = []")
  case True
  then show ?thesis using assms(1) by (simp add: EvalSquare_def EvalMult_def)
next
  case False
  define cp where "cp = CryptoParameters ciphertext"
  define cv where "cv = Elements ciphertext"
  define sizeQ where "sizeQ = GetNumOfElements K (cv ! 0)"
  have ne: "cv \<noteq> []" using False by (simp add: cv_def)
  then have "cv ! 0 \<in> set cv" by (cases cv) simp_all
  then have le: "sizeQ \<le> ParamsSize cp"
    using assms(2) by (simp add: sizeQ_def cv_def cp_def)
  consider (sym) "MultiplicationTech cp = HPS \<or> MultiplicationTech cp = BEHZ"
    | (poq) "MultiplicationTech cp = HPSPOVERQ \<or> (MultiplicationTech cp = HPSPOVERQLEVELED \<and> sizeQ < ParamsSize cp)"
    | (lev) "MultiplicationTech cp = HPSPOVERQLEVELED \<and> sizeQ = ParamsSize cp"
    using le by (cases "MultiplicationTech cp"; cases "sizeQ < ParamsSize cp") auto
  then show ?thesis
  proof cases
    case sym
    then show ?thesis
      using ne assms(1)
      by (auto simp: EvalSquare_def EvalMult_def square_expand_def mult_expand_def Let_def
            square_product_sym [of _ b] cp_def [symmetric] cv_def [symmetric] sizeQ_def [symmetric])
  next
    case poq
    then show ?thesis
      using ne assms(1)
      by (auto simp: EvalSquare_def EvalMult_def square_expand_def mult_expand_def Let_def
            square_product_full [of _ _ _ b] cp_def [symmetric] cv_def [symmetric] sizeQ_def [symmetric])
  next
    case lev
    then show ?thesis
      using ne assms(1)
      by (auto simp: EvalSquare_def EvalMult_def square_expand_def mult_expand_def Let_def
            square_product_full [of _ _ _ b] cp_def [symmetric] cv_def [symmetric] sizeQ_def [symmetric]
            comp_def split: option.splits)
  qed
qed

text \<open>The square of the ciphertext with elements 3, 4, 5.\<close>

theorem EvalSquare_eq_EvalMult_witness:
  "EvalSquare build0 K_int ct_b = Some (Inr ct_bb)"
proof -
  have k: "\<not> USE_KARATSUBA build0"
    by (simp add: build0_def)
  have "\<forall>c \<in> set (Elements ct_b). GetNumOfElements K_int c \<le> ParamsSize (CryptoParameters ct_b)"
    by (simp add: ct_b_def K_int_def cp_hps_def)
  from EvalSquare_eq_EvalMult [OF k this] EvalMult_b_b
  show ?thesis by simp
qed

text \<open>In a build with \<^verbatim>\<open>USE_KARATSUBA\<close> the squaring has no run, because of the
  undeclared \<^verbatim>\<open>cv1\<close> of line 561; the equality above says nothing of such a build.\<close>

lemma EvalSquare_undeclared:
  assumes "USE_KARATSUBA b"
  shows "EvalSquare b K ciphertext = Some (Inl (UndeclaredIdentifier ''cv1''))"
  using assms by (simp add: EvalSquare_def)

section \<open>Scheme A: rotation by zero\<close>

text \<open>Claim C10. \<^verbatim>\<open>EvalFastRotation\<close> with index 0 returns the input ciphertext, for every
  kernel, cyclotomic order and digits: the key map is not consulted, so no key-not-found
  error can arise, and neither key switching nor an automorphism is applied.\<close>

theorem EvalFastRotation_index_zero:
  "EvalFastRotation K ciphertext 0 m digits = Inr ciphertext"
  by (simp add: EvalFastRotation_def)

text \<open>Index 0 with a kernel whose key map is empty.\<close>

theorem EvalFastRotation_index_zero_witness:
  "EvalFastRotation K_int ct_a 0 16 [] = Inr ct_a"
  using EvalFastRotation_index_zero [of K_int ct_a 16 "[]"] by simp

section \<open>Scheme B: level budgets of the setup\<close>

lemma word_one_le: "1 \<le> (b :: uint32) \<longleftrightarrow> b \<noteq> 0"
  by (simp add: linorder_not_less [symmetric])

lemma clamp_budget_range:
  assumes "1 \<le> logSlots"
  shows "1 \<le> clamp_budget logSlots b \<and> clamp_budget logSlots b \<le> logSlots"
  using assms by (auto simp: clamp_budget_def Let_def word_one_le)

lemma clamp_budget_id:
  assumes "1 \<le> b" "b \<le> logSlots"
  shows "clamp_budget logSlots b = b"
  using assms by (auto simp: clamp_budget_def Let_def word_one_le)

lemma logSlots_of_ge1: "1 \<le> logSlots_of slots"
  by (auto simp: logSlots_of_def Let_def word_one_le)

lemma setup_precompute_params:
  "m_paramsEnc (setup_precompute cc slots q precom) = m_paramsEnc precom
   \<and> m_paramsDec (setup_precompute cc slots q precom) = m_paramsDec precom"
  by (simp add: setup_precompute_def Let_def)

lemma log2_u32_4: "real_to_uint32 (log2_u32 4) = 2"
proof -
  have "log 2 4 = 2"
    using log_nat_power [of 2 2 2] by simp
  then show ?thesis by (simp add: real_to_uint32_def log2_u32_def)
qed

lemma log2_u32_1: "real_to_uint32 (log2_u32 1) = 0"
  by (simp add: real_to_uint32_def log2_u32_def)

text \<open>Claim C6, in the form the code satisfies. Let \<open>slots\<close> be \<open>M / 4\<close> when
  \<^verbatim>\<open>numSlots\<close> is 0 and \<^verbatim>\<open>numSlots\<close> otherwise, and let \<open>logSlots\<close> be the integer part of
  \<open>log2 slots\<close>, raised to 1 when it is 0. After a successful setup the parameters stored
  for \<open>slots\<close> are those of \<^verbatim>\<open>GetCollapsedFFTParams\<close> for the two level budgets clamped
  into \<open>[1, logSlots]\<close>: a budget above \<open>logSlots\<close> becomes \<open>logSlots\<close>, a budget below 1
  becomes 1, any other budget is kept.\<close>

theorem EvalBootstrapSetup_level_budget:
  assumes "EvalBootstrapSetup bld cc this levelBudget dim1 numSlots correctionFactor precompute
             = Inr this'"
    and "slots = (if numSlots = 0 then GetCyclotomicOrder cc div 4 else numSlots)"
    and "logSlots = (if real_to_uint32 (log2_u32 slots) = 0 then 1
                     else real_to_uint32 (log2_u32 slots))"
  shows "(\<exists>precom. m_bootPrecomMap this' slots = Some precom
            \<and> m_paramsEnc precom
                = GetCollapsedFFTParams cc slots (clamp_budget logSlots (levelBudget ! 0)) (dim1 ! 0)
            \<and> m_paramsDec precom
                = GetCollapsedFFTParams cc slots (clamp_budget logSlots (levelBudget ! 1)) (dim1 ! 1))
       \<and> 1 \<le> logSlots
       \<and> (\<forall>b. 1 \<le> clamp_budget logSlots b \<and> clamp_budget logSlots b \<le> logSlots
               \<and> (logSlots < b \<longrightarrow> clamp_budget logSlots b = logSlots)
               \<and> (b < 1 \<longrightarrow> clamp_budget logSlots b = 1)
               \<and> (1 \<le> b \<and> b \<le> logSlots \<longrightarrow> clamp_budget logSlots b = b))"
proof -
  have L: "logSlots = logSlots_of slots"
    by (simp add: assms(3) logSlots_of_def Let_def)
  have L1: "1 \<le> logSlots"
    by (simp add: L logSlots_of_ge1)
  have stored: "\<exists>precom. m_bootPrecomMap this' slots = Some precom
            \<and> m_paramsEnc precom
                = GetCollapsedFFTParams cc slots (clamp_budget logSlots (levelBudget ! 0)) (dim1 ! 0)
            \<and> m_paramsDec precom
                = GetCollapsedFFTParams cc slots (clamp_budget logSlots (levelBudget ! 1)) (dim1 ! 1)"
    using assms(1)
    by (auto simp: EvalBootstrapSetup_def Let_def L assms(2) setup_precompute_params
          split: if_splits sum.splits)
  have clamp: "1 \<le> clamp_budget logSlots b \<and> clamp_budget logSlots b \<le> logSlots
               \<and> (logSlots < b \<longrightarrow> clamp_budget logSlots b = logSlots)
               \<and> (b < 1 \<longrightarrow> clamp_budget logSlots b = 1)
               \<and> (1 \<le> b \<and> b \<le> logSlots \<longrightarrow> clamp_budget logSlots b = b)" for b
    using L1 clamp_budget_range [OF L1, of b] clamp_budget_id [of b logSlots]
    by (auto simp: clamp_budget_def Let_def)
  show ?thesis
    using stored L1 clamp by blast
qed

text \<open>Four slots with the budgets 5 and 0: the stored budgets are 2 and 1.\<close>

theorem EvalBootstrapSetup_level_budget_witness:
  "m_bootPrecomMap this_four 4
     = Some \<lparr>m_slots = 4, m_dim1 = 4,
             m_paramsEnc = GetCollapsedFFTParams cc_toy 4 2 4,
             m_paramsDec = GetCollapsedFFTParams cc_toy 4 1 4,
             m_U0hatTPre = [], m_U0Pre = [], m_U0hatTPreFFT = [], m_U0PreFFT = []\<rparr>
   \<and> clamp_budget 2 5 = 2 \<and> clamp_budget 2 0 = 1"
proof -
  have run: "EvalBootstrapSetup build64 cc_toy this_empty [5, 0] [4, 4] 4 9 False = Inr this_four"
    by (simp add: EvalBootstrapSetup_def Let_def logSlots_of_def log2_u32_4 clamp_budget_def
          this_four_def this_empty_def build64_def cc_toy_def cp_toy_def)
  have s: "(4 :: uint32) = (if (4 :: uint32) = 0 then GetCyclotomicOrder cc_toy div 4 else 4)"
    by simp
  have l: "(2 :: uint32) = (if real_to_uint32 (log2_u32 4) = 0 then 1 else real_to_uint32 (log2_u32 4))"
    by (simp add: log2_u32_4)
  from EvalBootstrapSetup_level_budget [OF run s l]
  show ?thesis
    by (simp add: this_four_def clamp_budget_def)
qed

text \<open>With one slot \<open>log2 numSlots\<close> is 0, and the stored budget is 1: it does not lie in
  \<open>[1, log2 numSlots]\<close>, which is empty.\<close>

theorem EvalBootstrapSetup_level_budget_counterexample:
  "EvalBootstrapSetup build64 cc_toy this_empty [3, 3] [0, 0] 1 9 False = Inr this_one
   \<and> LEVEL_BUDGET (m_paramsEnc (the (m_bootPrecomMap this_one 1))) = 1
   \<and> log 2 (real (unat (1 :: uint32))) = 0
   \<and> \<not> real (unat (LEVEL_BUDGET (m_paramsEnc (the (m_bootPrecomMap this_one 1)))))
          \<le> log 2 (real (unat (1 :: uint32)))"
  by (simp add: EvalBootstrapSetup_def Let_def logSlots_of_def log2_u32_1 clamp_budget_def
        this_one_def this_empty_def build64_def cc_toy_def cp_toy_def)

section \<open>Scheme B: rotation indices and keys\<close>

lemma FindBootstrapRotationIndices_props:
  assumes "FindBootstrapRotationIndices cc this slots M = Inr idx"
  shows "distinct idx \<and> 0 \<notin> set idx \<and> sint (M div 4) \<notin> set idx"
proof -
  from assms obtain full where
    idx: "idx = map sint (sorted_list_of_set (set full - {0} - {M div 4}))"
    by (auto simp: FindBootstrapRotationIndices_def Let_def split: option.splits sum.splits if_splits)
  have inj: "inj_on (sint :: uint32 \<Rightarrow> int) A" for A
    by (rule inj_onI) (rule signed_word_eqI)
  have d: "distinct idx"
    unfolding idx by (simp add: distinct_map inj)
  have z: "0 \<notin> set idx"
    unfolding idx by (auto simp: signed_eq_0_iff)
  have q: "sint (M div 4) \<notin> set idx"
    unfolding idx by (auto dest: signed_word_eqI)
  show ?thesis using d z q by simp
qed

lemma sorted_123: "sorted_list_of_set {1, 2, 3 :: uint32} = [1, 2, 3]"
  using sorted_list_of_set_sort_remdups [of "[1, 2, 3 :: uint32]"] by simp

lemma toy_indices: "FindBootstrapRotationIndices cc_toy this_toy 4 16 = Inr [1, 2, 3]"
proof -
  have lt: "FindLinearTransformRotationIndices precom_toy 4 16 = Inr [1, 2, 3, 4]"
    by (simp add: FindLinearTransformRotationIndices_def precom_toy_def Let_def
          real_to_uint32_def sparse_indices_def upt_rec)
  have s: "{1, 2, 3, 4 :: uint32} - {4} = {1, 2, 3}"
    by auto
  have b: "LEVEL_BUDGET (m_paramsEnc precom_toy) = 1 \<and> LEVEL_BUDGET (m_paramsDec precom_toy) = 1"
    by (simp add: precom_toy_def cc_toy_def)
  show ?thesis
    by (simp add: FindBootstrapRotationIndices_def this_toy_def Let_def lt b s sorted_123)
qed

lemma cc_toy_sel:
  "GetCyclotomicOrder cc_toy = 16 \<and> GetCryptoParametersCC cc_toy = cp_toy"
  by (simp add: cc_toy_def)

text \<open>Claim C7. A list returned by \<^verbatim>\<open>FindBootstrapRotationIndices\<close> has no index twice
  and contains neither 0 nor \<open>M / 4\<close>. The keys returned by \<^verbatim>\<open>EvalBootstrapKeyGen\<close> are
  the rotation keys generated for that list, with the conjugation key stored at the index
  \<open>M - 1\<close>.\<close>

theorem EvalBootstrapKeyGen_keys:
  "(\<forall>idx. FindBootstrapRotationIndices cc this slots M = Inr idx
        \<longrightarrow> distinct idx \<and> 0 \<notin> set idx \<and> sint (M div 4) \<notin> set idx)
   \<and> (\<forall>keys. EvalBootstrapKeyGen bld cc this privateKey slots = Inr keys
        \<longrightarrow> (\<exists>idx. FindBootstrapRotationIndices cc this
                      (if slots = 0 then GetCyclotomicOrder cc div 4 else slots)
                      (GetCyclotomicOrder cc) = Inr idx
                  \<and> keys = (EvalAtIndexKeyGen cc privateKey idx)
                             (GetCyclotomicOrder cc - 1 \<mapsto> ConjugateKeyGen cc privateKey)))"
proof -
  have a: "\<forall>idx. FindBootstrapRotationIndices cc this slots M = Inr idx
        \<longrightarrow> distinct idx \<and> 0 \<notin> set idx \<and> sint (M div 4) \<notin> set idx"
    using FindBootstrapRotationIndices_props by blast
  have b: "\<forall>keys. EvalBootstrapKeyGen bld cc this privateKey slots = Inr keys
        \<longrightarrow> (\<exists>idx. FindBootstrapRotationIndices cc this
                      (if slots = 0 then GetCyclotomicOrder cc div 4 else slots)
                      (GetCyclotomicOrder cc) = Inr idx
                  \<and> keys = (EvalAtIndexKeyGen cc privateKey idx)
                             (GetCyclotomicOrder cc - 1 \<mapsto> ConjugateKeyGen cc privateKey))"
    by (auto simp: EvalBootstrapKeyGen_def Let_def split: if_splits sum.splits)
  show ?thesis using a b by (rule conjI)
qed

text \<open>Four slots in the ring of order 16: the indices are 1, 2, 3, and the conjugation key
  is at 15.\<close>

theorem EvalBootstrapKeyGen_keys_witness:
  "FindBootstrapRotationIndices cc_toy this_toy 4 16 = Inr [1, 2, 3]
   \<and> distinct [1, 2, 3 :: int] \<and> (0 :: int) \<notin> set [1, 2, 3]
   \<and> sint (16 div 4 :: uint32) \<notin> set [1, 2, 3]
   \<and> EvalBootstrapKeyGen build64 cc_toy this_toy () 4
       = Inr ((EvalAtIndexKeyGen cc_toy () [1, 2, 3])(15 \<mapsto> ()))"
proof -
  have k: "EvalBootstrapKeyGen build64 cc_toy this_toy () 4
       = Inr ((EvalAtIndexKeyGen cc_toy () [1, 2, 3])(15 \<mapsto> ()))"
    by (simp add: EvalBootstrapKeyGen_def Let_def cc_toy_sel cp_toy_def build64_def toy_indices)
  from EvalBootstrapKeyGen_keys [of cc_toy this_toy 4 16 build64 "()"] toy_indices k
  show ?thesis by simp
qed

section \<open>Scheme B: the checks of the bootstrap\<close>

lemma bootstrap_sparse_errors:
  assumes "bootstrap_sparse cc cp precom coefficients scalar slots raised = Some (Inl e)"
  shows "e = DivisionByZero"
  using assms
  by (auto simp: bootstrap_sparse_def sparse_coeffs_to_slots_def Let_def
        split: if_splits option.splits sum.splits)

lemma GetBigModulus_errors:
  assumes "GetBigModulus cp = Inl e"
  shows "e = OutOfRange"
  using assms by (auto simp: GetBigModulus_def Let_def split: if_splits)

lemma raise_modulus_errors:
  assumes "raise_modulus bld cc this ct = Inl e"
  shows "e = PrecomputationsNotGenerated (Slots ct) \<or> e = OutOfRange
           \<or> e = DegreeExceedsCorrectionFactor"
  using assms
  by (auto simp: raise_modulus_def Let_def
        split: if_splits option.splits sum.splits
        dest!: GetBigModulus_errors)

lemma bootstrap_single_errors:
  assumes "bootstrap_single bld cc this ct = Some (Inl e)"
  shows "e = PrecomputationsNotGenerated (Slots ct) \<or> e = OutOfRange
           \<or> e = DegreeExceedsCorrectionFactor \<or> e = DivisionByZero"
  using assms
  by (auto simp: bootstrap_single_def Let_def
        split: if_splits option.splits sum.splits prod.splits
        dest!: bootstrap_sparse_errors raise_modulus_errors)

lemma EvalBootstrap_one:
  "EvalBootstrap bld cc this ct 1 precision =
     (let cryptoParams = CryptoParameters ct
      in if GetKeySwitchTechnique cryptoParams \<noteq> HYBRID then Some (Inl KeySwitchNotHybrid)
         else if NATIVEINT bld = 128
                 \<and> (GetScalingTechnique cryptoParams = FLEXIBLEAUTO
                      \<or> GetScalingTechnique cryptoParams = FLEXIBLEAUTOEXT)
              then Some (Inl NativeInt128Unsupported)
         else
           (case first_towers cc ct of
              None \<Rightarrow> Some (Inl OutOfRange)
            | Some initSizeQ \<Rightarrow>
                (case bootstrap_single bld cc this ct of
                   None \<Rightarrow> None
                 | Some (Inl e) \<Rightarrow> Some (Inl e)
                 | Some (Inr ctxtDec) \<Rightarrow>
                     (case first_towers cc ctxtDec of
                        None \<Rightarrow> Some (Inl OutOfRange)
                      | Some bootstrappingNumTowers \<Rightarrow>
                          (if bootstrappingNumTowers \<le> initSizeQ then Some (Inr ct)
                           else Some (Inr ctxtDec))))))"
  by (subst EvalBootstrap.simps) (auto simp: Let_def cong: option.case_cong)

lemma EvalBootstrap_one_not_invalid:
  "EvalBootstrap bld cc this ct 1 precision \<noteq> Some (Inl InvalidIterationCount)"
  by (auto simp: EvalBootstrap_one Let_def split: option.splits sum.splits
        dest!: bootstrap_single_errors)

lemma EvalBootstrap_two_not_invalid:
  "EvalBootstrap bld cc this ct 2 precision \<noteq> Some (Inl InvalidIterationCount)"
  by (subst EvalBootstrap.simps)
     (auto simp: Let_def EvalBootstrap_one_not_invalid split: option.splits sum.splits)

text \<open>Claim C9, in the form the code satisfies. The check of the iteration count is the
  third one. Whatever the count, a key switching technique other than \<open>HYBRID\<close> ends with
  the error of the first check, and a 128-bit build with \<open>FLEXIBLEAUTO\<close> or
  \<open>FLEXIBLEAUTOEXT\<close> scaling ends with the error of the second. When these two checks
  pass, every count other than 1 and 2 ends with the invalid-iteration error, before the
  ciphertext is read. For the counts 1 and 2 the invalid-iteration error never arises.\<close>

theorem EvalBootstrap_iteration_check:
  "(GetKeySwitchTechnique (CryptoParameters ciphertext) \<noteq> HYBRID
      \<longrightarrow> EvalBootstrap bld cc this ciphertext numIterations precision
            = Some (Inl KeySwitchNotHybrid))
   \<and> (GetKeySwitchTechnique (CryptoParameters ciphertext) = HYBRID
      \<and> NATIVEINT bld = 128
      \<and> (GetScalingTechnique (CryptoParameters ciphertext) = FLEXIBLEAUTO
           \<or> GetScalingTechnique (CryptoParameters ciphertext) = FLEXIBLEAUTOEXT)
      \<longrightarrow> EvalBootstrap bld cc this ciphertext numIterations precision
            = Some (Inl NativeInt128Unsupported))
   \<and> (GetKeySwitchTechnique (CryptoParameters ciphertext) = HYBRID
      \<and> \<not> (NATIVEINT bld = 128
             \<and> (GetScalingTechnique (CryptoParameters ciphertext) = FLEXIBLEAUTO
                  \<or> GetScalingTechnique (CryptoParameters ciphertext) = FLEXIBLEAUTOEXT))
      \<and> numIterations \<noteq> 1 \<and> numIterations \<noteq> 2
      \<longrightarrow> EvalBootstrap bld cc this ciphertext numIterations precision
            = Some (Inl InvalidIterationCount))
   \<and> (numIterations = 1 \<or> numIterations = 2
      \<longrightarrow> EvalBootstrap bld cc this ciphertext numIterations precision
            \<noteq> Some (Inl InvalidIterationCount))"
proof (intro conjI impI)
  assume "GetKeySwitchTechnique (CryptoParameters ciphertext) \<noteq> HYBRID"
  then show "EvalBootstrap bld cc this ciphertext numIterations precision
            = Some (Inl KeySwitchNotHybrid)"
    by (subst EvalBootstrap.simps) (simp add: Let_def)
next
  assume "GetKeySwitchTechnique (CryptoParameters ciphertext) = HYBRID
      \<and> NATIVEINT bld = 128
      \<and> (GetScalingTechnique (CryptoParameters ciphertext) = FLEXIBLEAUTO
           \<or> GetScalingTechnique (CryptoParameters ciphertext) = FLEXIBLEAUTOEXT)"
  then show "EvalBootstrap bld cc this ciphertext numIterations precision
            = Some (Inl NativeInt128Unsupported)"
    by (subst EvalBootstrap.simps) (simp add: Let_def)
next
  assume "GetKeySwitchTechnique (CryptoParameters ciphertext) = HYBRID
      \<and> \<not> (NATIVEINT bld = 128
             \<and> (GetScalingTechnique (CryptoParameters ciphertext) = FLEXIBLEAUTO
                  \<or> GetScalingTechnique (CryptoParameters ciphertext) = FLEXIBLEAUTOEXT))
      \<and> numIterations \<noteq> 1 \<and> numIterations \<noteq> 2"
  then show "EvalBootstrap bld cc this ciphertext numIterations precision
            = Some (Inl InvalidIterationCount)"
    by (subst EvalBootstrap.simps) (simp add: Let_def)
next
  assume "numIterations = 1 \<or> numIterations = 2"
  then show "EvalBootstrap bld cc this ciphertext numIterations precision
            \<noteq> Some (Inl InvalidIterationCount)"
    using EvalBootstrap_one_not_invalid EvalBootstrap_two_not_invalid by blast
qed

text \<open>The four parts on the example ciphertext: \<open>BV\<close> key switching, a 128-bit build
  with \<open>FLEXIBLEAUTO\<close>, the count 3 and the count 1.\<close>

theorem EvalBootstrap_iteration_check_witness:
  "EvalBootstrap build64 cc_toy this_toy ct_bv 1 0 = Some (Inl KeySwitchNotHybrid)
   \<and> EvalBootstrap build128 cc_toy this_toy ct_flex 3 0 = Some (Inl NativeInt128Unsupported)
   \<and> EvalBootstrap build64 cc_toy this_toy ct_toy 3 0 = Some (Inl InvalidIterationCount)
   \<and> EvalBootstrap build64 cc_toy this_toy ct_toy 1 0 \<noteq> Some (Inl InvalidIterationCount)"
  using EvalBootstrap_iteration_check [of ct_bv build64 cc_toy this_toy 1 0]
    EvalBootstrap_iteration_check [of ct_flex build128 cc_toy this_toy 3 0]
    EvalBootstrap_iteration_check [of ct_toy build64 cc_toy this_toy 3 0]
    EvalBootstrap_iteration_check [of ct_toy build64 cc_toy this_toy 1 0]
  by (simp add: ct_toy_def ct_bv_def ct_flex_def cp_toy_def build64_def build128_def)

text \<open>With \<open>BV\<close> key switching the count 3 ends with the error of the first check, not
  with the invalid-iteration error.\<close>

theorem EvalBootstrap_iteration_check_counterexample:
  "EvalBootstrap build64 cc_toy this_toy ct_bv 3 0 = Some (Inl KeySwitchNotHybrid)
   \<and> EvalBootstrap build64 cc_toy this_toy ct_bv 3 0 \<noteq> Some (Inl InvalidIterationCount)"
  by (subst EvalBootstrap.simps, subst EvalBootstrap.simps)
     (simp add: ct_bv_def ct_toy_def cp_toy_def Let_def)

section \<open>Scheme B: double-angle iterations\<close>

lemma sint_small:
  fixes w :: uint32
  assumes "unat w < 2 ^ 31"
  shows "sint w = int (unat w)"
proof -
  have "int (unat w) < int (2 ^ 31)" using assms by (simp only: of_nat_less_iff)
  then have lt: "uint w < 2 ^ 31" by simp
  have ge: "- (2 ^ 31) \<le> uint w"
    by (rule order_trans [of _ 0]) simp_all
  have "signed_take_bit 31 (uint w) = uint w"
    using ge lt by (rule signed_take_bit_int_eq_self)
  then show ?thesis
    by (simp add: sint_uint)
qed

lemma double_angle_loop_fold:
  assumes "0 \<le> r" and "int n \<le> r"
  shows "double_angle_loop cc r (r + 1 - int n) ct
           = fold (\<lambda>j. double_angle_iteration cc r (int j)) [nat (r + 1) - n..<nat (r + 1)] ct"
  using assms(2)
proof (induction n arbitrary: ct)
  case 0
  show ?case by (subst double_angle_loop.simps) simp
next
  case (Suc n)
  have lt: "r + 1 - int (Suc n) < r + 1" by simp
  have eq: "r + 1 - int (Suc n) + 1 = r + 1 - int n" by simp
  have up: "[nat (r + 1) - Suc n..<nat (r + 1)] = (nat (r + 1) - Suc n) # [nat (r + 1) - n..<nat (r + 1)]"
    using Suc.prems assms(1) by (subst upt_conv_Cons) (auto simp: Suc_diff_Suc)
  have idx: "int (nat (r + 1) - Suc n) = r + 1 - int (Suc n)"
    using Suc.prems assms(1) by simp
  show ?case
  proof -
    have "double_angle_loop cc r (r + 1 - int (Suc n)) ct
        = double_angle_loop cc r (r + 1 - int n) (double_angle_iteration cc r (r + 1 - int (Suc n)) ct)"
      using lt eq by (subst double_angle_loop.simps) (simp only: if_True)
    also have "\<dots> = fold (\<lambda>j. double_angle_iteration cc r (int j)) [nat (r + 1) - n..<nat (r + 1)]
                      (double_angle_iteration cc r (r + 1 - int (Suc n)) ct)"
      using Suc.prems by (intro Suc.IH) simp
    finally show ?thesis
      by (simp only: up fold_Cons comp_apply idx)
  qed
qed

lemma ApplyDoubleAngleIterations_fold:
  assumes "unat numIter < 2 ^ 31 - 1"
  shows "ApplyDoubleAngleIterations cc ciphertext numIter
           = fold (\<lambda>j c. ModReduceInPlace cc
                           (EvalAddConst cc
                              (EvalAdd cc (EvalSquareInPlace cc c) (EvalSquareInPlace cc c))
                              (- 1 / (2 * pi) powr (2 powr (real j - real (unat numIter))))))
               [1..<Suc (unat numIter)] ciphertext"
proof -
  define n where "n = unat numIter"
  have r: "sint numIter = int n"
    using assms by (simp add: n_def sint_small)
  have "double_angle_loop cc (int n) (int n + 1 - int n) ciphertext
          = fold (\<lambda>j. double_angle_iteration cc (int n) (int j))
              [nat (int n + 1) - n..<nat (int n + 1)] ciphertext"
    by (rule double_angle_loop_fold) simp_all
  moreover have "nat (int n + 1) = Suc n" by simp
  ultimately have "double_angle_loop cc (int n) 1 ciphertext
          = fold (\<lambda>j. double_angle_iteration cc (int n) (int j)) [1..<Suc n] ciphertext"
    by simp
  then have "ApplyDoubleAngleIterations cc ciphertext numIter
           = fold (\<lambda>j c. ModReduceInPlace cc
                           (EvalAddConst cc
                              (EvalAdd cc (EvalSquareInPlace cc c) (EvalSquareInPlace cc c))
                              (- 1 / (2 * pi) powr (2 powr (real j - real n)))))
               [1..<Suc n] ciphertext"
    by (simp add: ApplyDoubleAngleIterations_def r double_angle_iteration_def [abs_def] Let_def)
  then show ?thesis
    by (simp add: n_def)
qed

lemma toy_iteration_level:
  "fold (\<lambda>j c. ModReduceInPlace cc_toy
                   (EvalAddConst cc_toy
                      (EvalAdd cc_toy (EvalSquareInPlace cc_toy c) (EvalSquareInPlace cc_toy c))
                      (f j))) js ct = ct\<lparr>Level := Level ct + length js\<rparr>"
  by (induction js arbitrary: ct) (simp_all add: cc_toy_def)

lemma double_angle_stage_ternary:
  assumes "GetSecretKeyDist cryptoParams = UNIFORM_TERNARY \<and> r = R_UNIFORM cc
           \<or> GetSecretKeyDist cryptoParams = SPARSE_TERNARY \<and> r = R_SPARSE cc"
  shows "double_angle_stage cc cryptoParams c
           = ApplyDoubleAngleIterations cc
               (if GetScalingTechnique cryptoParams \<noteq> FIXEDMANUAL
                then ModReduceInternalInPlace cc c (unat (GetCompositeDegree cryptoParams))
                else c) r"
  using assms by (auto simp: double_angle_stage_def Let_def)

lemma raise_uni:
  "raise_modulus build64 cc_toy this_toy ct_uni = Inr (precom_toy, [], 1, 9, ct_uni_up)"
  by (simp add: raise_modulus_def cc_toy_def cp_toy_def this_toy_def build64_def ct_uni_def
        ct_uni_up_def Let_def GetBigModulus_def cpp_round_def)

lemma c2s_uni:
  "fully_packed_coeffs_to_slots cc_toy (CryptoParameters ct_uni) precom_toy ct_uni_up
     = Some (ct_uni_up, ct_uni_up)"
  by (simp add: fully_packed_coeffs_to_slots_def cc_toy_def cp_toy_def ct_uni_def
        ct_uni_up_def precom_toy_def Let_def)

lemma ada_uni:
  "ApplyDoubleAngleIterations cc_toy ct_uni_up 6 = ct_uni_up\<lparr>Level := 6\<rparr>"
proof -
  have "unat (6 :: uint32) < 2 ^ 31 - 1" by simp
  then show ?thesis
    by (simp add: ApplyDoubleAngleIterations_fold toy_iteration_level ct_uni_up_def ct_uni_def)
qed

text \<open>Claim C8. \<^verbatim>\<open>ApplyDoubleAngleIterations\<close> runs the iterations
  \<open>j = 1, ..., numIter\<close> in this order; iteration \<open>j\<close> squares the ciphertext, adds the
  square to itself, adds the scalar \<open>- 1 / (2 pi)^(2^(j - numIter))\<close> and rescales once.
  The count is converted to \<^verbatim>\<open>int32_t\<close> and the loop compares with \<open>numIter + 1\<close>, so the
  statement is for counts below \<open>2^31 - 1\<close>; the callers pass the constants
  \<^verbatim>\<open>R_UNIFORM\<close> and \<^verbatim>\<open>R_SPARSE\<close>. A bootstrap of one iteration that has passed its
  checks and raised the modulus returns, in the fully packed case, the ciphertext obtained
  from the two outputs of \<^verbatim>\<open>CoeffToSlot\<close> by the Chebyshev series, the reduction that
  precedes the iterations, and \<^verbatim>\<open>ApplyDoubleAngleIterations\<close> with \<^verbatim>\<open>R_UNIFORM\<close>
  iterations under the uniform ternary distribution and \<^verbatim>\<open>R_SPARSE\<close> iterations under
  the sparse ternary one, followed by \<^verbatim>\<open>SlotToCoeff\<close>; in the sparsely packed case the
  same holds for its single ciphertext. When that ciphertext has no more limbs than the
  input, the input is returned.\<close>

theorem ApplyDoubleAngleIterations_iterations:
  "(unat numIter < 2 ^ 31 - 1
      \<longrightarrow> ApplyDoubleAngleIterations cc ciphertext numIter
            = fold (\<lambda>j c. ModReduceInPlace cc
                            (EvalAddConst cc
                               (EvalAdd cc (EvalSquareInPlace cc c) (EvalSquareInPlace cc c))
                               (- 1 / (2 * pi) powr (2 powr (real j - real (unat numIter))))))
                [1..<Suc (unat numIter)] ciphertext)
   \<and> (GetKeySwitchTechnique (CryptoParameters input) = HYBRID
      \<and> \<not> (NATIVEINT bld = 128
             \<and> (GetScalingTechnique (CryptoParameters input) = FLEXIBLEAUTO
                  \<or> GetScalingTechnique (CryptoParameters input) = FLEXIBLEAUTOEXT))
      \<and> first_towers cc input = Some initSizeQ
      \<and> raise_modulus bld cc this input = Inr (precom, coefficients, scalar, correction, raised)
      \<and> (GetSecretKeyDist (CryptoParameters input) = UNIFORM_TERNARY \<and> r = R_UNIFORM cc
           \<or> GetSecretKeyDist (CryptoParameters input) = SPARSE_TERNARY \<and> r = R_SPARSE cc)
      \<longrightarrow>
        (Slots input = GetCyclotomicOrder cc div 4
         \<and> fully_packed_coeffs_to_slots cc (CryptoParameters input) precom raised
             = Some (ctxtEnc, ctxtEncI)
         \<longrightarrow> EvalBootstrap bld cc this input 1 precision
              = (let cryptoParams = CryptoParameters input;
                     reduce = (\<lambda>c. if GetScalingTechnique cryptoParams \<noteq> FIXEDMANUAL
                                    then ModReduceInternalInPlace cc c
                                           (unat (GetCompositeDegree cryptoParams))
                                    else c);
                     ctxtEnc' = ApplyDoubleAngleIterations cc
                                  (reduce (EvalChebyshevSeries cc ctxtEnc coefficients (- 1) 1)) r;
                     ctxtEncI' = ApplyDoubleAngleIterations cc
                                   (reduce (EvalChebyshevSeries cc ctxtEncI coefficients (- 1) 1)) r;
                     ctxtDec0 = fully_packed_slots_to_coeffs cc cryptoParams precom scalar
                                  ctxtEnc' ctxtEncI';
                     ctxtDec = (if NATIVEINT bld \<noteq> 128
                                then MultByIntegerInPlace cc ctxtDec0 (2 ^ unat correction)
                                else ctxtDec0)
                 in case first_towers cc ctxtDec of
                      None \<Rightarrow> Some (Inl OutOfRange)
                    | Some bootstrappingNumTowers \<Rightarrow>
                        if bootstrappingNumTowers \<le> initSizeQ then Some (Inr input)
                        else Some (Inr ctxtDec)))
        \<and> (Slots input \<noteq> GetCyclotomicOrder cc div 4
           \<and> sparse_coeffs_to_slots cc (CryptoParameters input) precom (Slots input) raised
               = Some (Inr ctxtEnc)
           \<longrightarrow> EvalBootstrap bld cc this input 1 precision
                = (let cryptoParams = CryptoParameters input;
                       reduce = (\<lambda>c. if GetScalingTechnique cryptoParams \<noteq> FIXEDMANUAL
                                      then ModReduceInternalInPlace cc c
                                             (unat (GetCompositeDegree cryptoParams))
                                      else c);
                       ctxtEnc' = ApplyDoubleAngleIterations cc
                                    (reduce (EvalChebyshevSeries cc ctxtEnc coefficients (- 1) 1)) r;
                       ctxtDec0 = sparse_slots_to_coeffs cc cryptoParams precom scalar
                                    (Slots input) ctxtEnc';
                       ctxtDec = (if NATIVEINT bld \<noteq> 128
                                  then MultByIntegerInPlace cc ctxtDec0 (2 ^ unat correction)
                                  else ctxtDec0)
                   in case first_towers cc ctxtDec of
                        None \<Rightarrow> Some (Inl OutOfRange)
                      | Some bootstrappingNumTowers \<Rightarrow>
                          if bootstrappingNumTowers \<le> initSizeQ then Some (Inr input)
                          else Some (Inr ctxtDec))))"
proof (intro conjI impI)
  assume "unat numIter < 2 ^ 31 - 1"
  then show "ApplyDoubleAngleIterations cc ciphertext numIter
            = fold (\<lambda>j c. ModReduceInPlace cc
                            (EvalAddConst cc
                               (EvalAdd cc (EvalSquareInPlace cc c) (EvalSquareInPlace cc c))
                               (- 1 / (2 * pi) powr (2 powr (real j - real (unat numIter))))))
                [1..<Suc (unat numIter)] ciphertext"
    by (rule ApplyDoubleAngleIterations_fold)
next
  assume a: "GetKeySwitchTechnique (CryptoParameters input) = HYBRID
      \<and> \<not> (NATIVEINT bld = 128
             \<and> (GetScalingTechnique (CryptoParameters input) = FLEXIBLEAUTO
                  \<or> GetScalingTechnique (CryptoParameters input) = FLEXIBLEAUTOEXT))
      \<and> first_towers cc input = Some initSizeQ
      \<and> raise_modulus bld cc this input = Inr (precom, coefficients, scalar, correction, raised)
      \<and> (GetSecretKeyDist (CryptoParameters input) = UNIFORM_TERNARY \<and> r = R_UNIFORM cc
           \<or> GetSecretKeyDist (CryptoParameters input) = SPARSE_TERNARY \<and> r = R_SPARSE cc)"
    and b: "Slots input = GetCyclotomicOrder cc div 4
         \<and> fully_packed_coeffs_to_slots cc (CryptoParameters input) precom raised
             = Some (ctxtEnc, ctxtEncI)"
  have s: "\<And>c. double_angle_stage cc (CryptoParameters input) c
           = ApplyDoubleAngleIterations cc
               (if GetScalingTechnique (CryptoParameters input) \<noteq> FIXEDMANUAL
                then ModReduceInternalInPlace cc c (unat (GetCompositeDegree (CryptoParameters input)))
                else c) r"
    using a by (intro double_angle_stage_ternary) simp
  show "EvalBootstrap bld cc this input 1 precision
              = (let cryptoParams = CryptoParameters input;
                     reduce = (\<lambda>c. if GetScalingTechnique cryptoParams \<noteq> FIXEDMANUAL
                                    then ModReduceInternalInPlace cc c
                                           (unat (GetCompositeDegree cryptoParams))
                                    else c);
                     ctxtEnc' = ApplyDoubleAngleIterations cc
                                  (reduce (EvalChebyshevSeries cc ctxtEnc coefficients (- 1) 1)) r;
                     ctxtEncI' = ApplyDoubleAngleIterations cc
                                   (reduce (EvalChebyshevSeries cc ctxtEncI coefficients (- 1) 1)) r;
                     ctxtDec0 = fully_packed_slots_to_coeffs cc cryptoParams precom scalar
                                  ctxtEnc' ctxtEncI';
                     ctxtDec = (if NATIVEINT bld \<noteq> 128
                                then MultByIntegerInPlace cc ctxtDec0 (2 ^ unat correction)
                                else ctxtDec0)
                 in case first_towers cc ctxtDec of
                      None \<Rightarrow> Some (Inl OutOfRange)
                    | Some bootstrappingNumTowers \<Rightarrow>
                        if bootstrappingNumTowers \<le> initSizeQ then Some (Inr input)
                        else Some (Inr ctxtDec))"
    using a b
    by (simp add: EvalBootstrap_one bootstrap_single_def bootstrap_fully_packed_def s Let_def)
next
  assume a: "GetKeySwitchTechnique (CryptoParameters input) = HYBRID
      \<and> \<not> (NATIVEINT bld = 128
             \<and> (GetScalingTechnique (CryptoParameters input) = FLEXIBLEAUTO
                  \<or> GetScalingTechnique (CryptoParameters input) = FLEXIBLEAUTOEXT))
      \<and> first_towers cc input = Some initSizeQ
      \<and> raise_modulus bld cc this input = Inr (precom, coefficients, scalar, correction, raised)
      \<and> (GetSecretKeyDist (CryptoParameters input) = UNIFORM_TERNARY \<and> r = R_UNIFORM cc
           \<or> GetSecretKeyDist (CryptoParameters input) = SPARSE_TERNARY \<and> r = R_SPARSE cc)"
    and b: "Slots input \<noteq> GetCyclotomicOrder cc div 4
           \<and> sparse_coeffs_to_slots cc (CryptoParameters input) precom (Slots input) raised
               = Some (Inr ctxtEnc)"
  have s: "\<And>c. double_angle_stage cc (CryptoParameters input) c
           = ApplyDoubleAngleIterations cc
               (if GetScalingTechnique (CryptoParameters input) \<noteq> FIXEDMANUAL
                then ModReduceInternalInPlace cc c (unat (GetCompositeDegree (CryptoParameters input)))
                else c) r"
    using a by (intro double_angle_stage_ternary) simp
  show "EvalBootstrap bld cc this input 1 precision
                = (let cryptoParams = CryptoParameters input;
                       reduce = (\<lambda>c. if GetScalingTechnique cryptoParams \<noteq> FIXEDMANUAL
                                      then ModReduceInternalInPlace cc c
                                             (unat (GetCompositeDegree cryptoParams))
                                      else c);
                       ctxtEnc' = ApplyDoubleAngleIterations cc
                                    (reduce (EvalChebyshevSeries cc ctxtEnc coefficients (- 1) 1)) r;
                       ctxtDec0 = sparse_slots_to_coeffs cc cryptoParams precom scalar
                                    (Slots input) ctxtEnc';
                       ctxtDec = (if NATIVEINT bld \<noteq> 128
                                  then MultByIntegerInPlace cc ctxtDec0 (2 ^ unat correction)
                                  else ctxtDec0)
                   in case first_towers cc ctxtDec of
                        None \<Rightarrow> Some (Inl OutOfRange)
                      | Some bootstrappingNumTowers \<Rightarrow>
                          if bootstrappingNumTowers \<le> initSizeQ then Some (Inr input)
                          else Some (Inr ctxtDec))"
    using a b
    by (simp add: EvalBootstrap_one bootstrap_single_def bootstrap_sparse_def s Let_def)
qed

text \<open>Three iterations raise the level of the example ciphertext, which counts the
  rescales, from 0 to 3. The bootstrap of a fully packed ciphertext under the uniform
  ternary distribution, in the example context where \<^verbatim>\<open>R_UNIFORM\<close> is 6, returns a
  ciphertext of level 6.\<close>

theorem ApplyDoubleAngleIterations_iterations_witness:
  "ApplyDoubleAngleIterations cc_toy ct_toy 3 = ct_toy\<lparr>Level := 3\<rparr>
   \<and> EvalBootstrap build64 cc_toy this_toy ct_uni 1 0 = Some (Inr (ct_uni_up\<lparr>Level := 6\<rparr>))"
proof -
  note T = ApplyDoubleAngleIterations_iterations
         [where cc = cc_toy and numIter = 3 and ciphertext = ct_toy and input = ct_uni
            and bld = build64 and this = this_toy and precom = precom_toy
            and coefficients = "[]" and scalar = 1 and correction = 9 and raised = ct_uni_up
            and r = "R_UNIFORM cc_toy" and initSizeQ = 1 and ctxtEnc = ct_uni_up
            and ctxtEncI = ct_uni_up and precision = 0]
  have n3: "unat (3 :: uint32) < 2 ^ 31 - 1" by simp
  have t0: "first_towers cc_toy ct_uni = Some 1"
    by (simp add: first_towers_def ct_uni_def cc_toy_def)
  have pre: "GetKeySwitchTechnique (CryptoParameters ct_uni) = HYBRID
      \<and> \<not> (NATIVEINT build64 = 128
             \<and> (GetScalingTechnique (CryptoParameters ct_uni) = FLEXIBLEAUTO
                  \<or> GetScalingTechnique (CryptoParameters ct_uni) = FLEXIBLEAUTOEXT))
      \<and> first_towers cc_toy ct_uni = Some 1
      \<and> raise_modulus build64 cc_toy this_toy ct_uni = Inr (precom_toy, [], 1, 9, ct_uni_up)
      \<and> (GetSecretKeyDist (CryptoParameters ct_uni) = UNIFORM_TERNARY
             \<and> R_UNIFORM cc_toy = R_UNIFORM cc_toy
           \<or> GetSecretKeyDist (CryptoParameters ct_uni) = SPARSE_TERNARY
             \<and> R_UNIFORM cc_toy = R_SPARSE cc_toy)"
    using t0 raise_uni by (simp add: ct_uni_def cp_toy_def build64_def)
  have packed: "Slots ct_uni = GetCyclotomicOrder cc_toy div 4
         \<and> fully_packed_coeffs_to_slots cc_toy (CryptoParameters ct_uni) precom_toy ct_uni_up
             = Some (ct_uni_up, ct_uni_up)"
    using c2s_uni by (simp add: ct_uni_def cc_toy_def)
  have ru: "R_UNIFORM cc_toy = 6"
    by (simp add: cc_toy_def)
  have ops: "\<And>c n. ModReduceInternalInPlace cc_toy c n = c"
    "\<And>c cs a b. EvalChebyshevSeries cc_toy c cs a b = c"
    "\<And>c n. MultByIntegerInPlace cc_toy c n = c"
    "\<And>s x y. fully_packed_slots_to_coeffs cc_toy (CryptoParameters ct_uni) precom_toy s x y = x"
    by (simp_all add: cc_toy_def fully_packed_slots_to_coeffs_def precom_toy_def Let_def)
  have t1: "first_towers cc_toy (ct_uni_up\<lparr>Level := 6\<rparr>) = Some 2"
    by (simp add: first_towers_def ct_uni_up_def cc_toy_def)
  have one: "ApplyDoubleAngleIterations cc_toy ct_toy 3 = ct_toy\<lparr>Level := 3\<rparr>"
    using T [THEN conjunct1, THEN mp, OF n3]
    by (simp add: toy_iteration_level) (simp add: ct_toy_def)
  have two: "EvalBootstrap build64 cc_toy this_toy ct_uni 1 0 = Some (Inr (ct_uni_up\<lparr>Level := 6\<rparr>))"
    using T [THEN conjunct2, THEN mp, OF pre, THEN conjunct1, THEN mp, OF packed]
    by (simp add: Let_def ops ru ada_uni t1)
  show ?thesis
    using one two by (rule conjI)
qed

section \<open>Scheme B: bootstrap without progress\<close>

lemma bootstrap_single_toy: "bootstrap_single build64 cc_toy this_toy ct_toy = Some (Inr (ct_toy\<lparr>Elements := [2, 2]\<rparr>))"
  by (simp add: bootstrap_single_def raise_modulus_def fully_packed_coeffs_to_slots_def fully_packed_slots_to_coeffs_def cc_toy_def cp_toy_def this_toy_def precom_toy_def build64_def ct_toy_def Let_def GetBigModulus_def cpp_round_def bootstrap_fully_packed_def double_angle_stage_def)

text \<open>Claim C3. In the single-iteration mode, when the bootstrapped ciphertext has no more
  limbs than the input, \<^verbatim>\<open>EvalBootstrap\<close> returns the input ciphertext. In the
  iterative mode, when the ciphertext of the first bootstrap, scaled, has no more limbs
  than the input, it returns the input ciphertext as well. Both are regular returns, not
  errors. Hence a result of the single-iteration mode with no more limbs than the input is
  the input.\<close>

theorem EvalBootstrap_no_progress:
  "(GetKeySwitchTechnique (CryptoParameters ciphertext) = HYBRID
      \<and> \<not> (NATIVEINT bld = 128
             \<and> (GetScalingTechnique (CryptoParameters ciphertext) = FLEXIBLEAUTO
                  \<or> GetScalingTechnique (CryptoParameters ciphertext) = FLEXIBLEAUTOEXT))
      \<and> first_towers cc ciphertext = Some initSizeQ
      \<and> bootstrap_single bld cc this ciphertext = Some (Inr ctxtDec)
      \<and> first_towers cc ctxtDec = Some bootstrappingNumTowers
      \<and> bootstrappingNumTowers \<le> initSizeQ
      \<longrightarrow> EvalBootstrap bld cc this ciphertext 1 precision = Some (Inr ciphertext))
   \<and> (GetKeySwitchTechnique (CryptoParameters ciphertext) = HYBRID
      \<and> \<not> (NATIVEINT bld = 128
             \<and> (GetScalingTechnique (CryptoParameters ciphertext) = FLEXIBLEAUTO
                  \<or> GetScalingTechnique (CryptoParameters ciphertext) = FLEXIBLEAUTOEXT))
      \<and> first_towers cc ciphertext = Some initSizeQ
      \<and> first_towers cc (MultByIntegerInPlace cc ciphertext
                             (unat (powerOfTwoModulus_of precision))) = Some scaledUpSizeQ
      \<and> EvalBootstrap bld cc this ciphertext 1 precision = Some (Inr ctBootstrapped)
      \<and> first_towers cc (scaled_bootstrap cc
                             (unat (GetCompositeDegree (CryptoParameters ciphertext)))
                             precision ctBootstrapped) = Some bootstrappingSizeQ
      \<and> bootstrappingSizeQ \<le> initSizeQ
      \<longrightarrow> EvalBootstrap bld cc this ciphertext 2 precision = Some (Inr ciphertext))
   \<and> (EvalBootstrap bld cc this ciphertext 1 precision = Some (Inr result)
      \<and> first_towers cc ciphertext = Some initSizeQ
      \<and> first_towers cc result = Some resultSizeQ
      \<and> resultSizeQ \<le> initSizeQ
      \<longrightarrow> result = ciphertext)"
proof (intro conjI impI)
  assume "GetKeySwitchTechnique (CryptoParameters ciphertext) = HYBRID
      \<and> \<not> (NATIVEINT bld = 128
             \<and> (GetScalingTechnique (CryptoParameters ciphertext) = FLEXIBLEAUTO
                  \<or> GetScalingTechnique (CryptoParameters ciphertext) = FLEXIBLEAUTOEXT))
      \<and> first_towers cc ciphertext = Some initSizeQ
      \<and> bootstrap_single bld cc this ciphertext = Some (Inr ctxtDec)
      \<and> first_towers cc ctxtDec = Some bootstrappingNumTowers
      \<and> bootstrappingNumTowers \<le> initSizeQ"
  then show "EvalBootstrap bld cc this ciphertext 1 precision = Some (Inr ciphertext)"
    by (simp add: EvalBootstrap_one Let_def)
next
  assume "GetKeySwitchTechnique (CryptoParameters ciphertext) = HYBRID
      \<and> \<not> (NATIVEINT bld = 128
             \<and> (GetScalingTechnique (CryptoParameters ciphertext) = FLEXIBLEAUTO
                  \<or> GetScalingTechnique (CryptoParameters ciphertext) = FLEXIBLEAUTOEXT))
      \<and> first_towers cc ciphertext = Some initSizeQ
      \<and> first_towers cc (MultByIntegerInPlace cc ciphertext
                             (unat (powerOfTwoModulus_of precision))) = Some scaledUpSizeQ
      \<and> EvalBootstrap bld cc this ciphertext 1 precision = Some (Inr ctBootstrapped)
      \<and> first_towers cc (scaled_bootstrap cc
                             (unat (GetCompositeDegree (CryptoParameters ciphertext)))
                             precision ctBootstrapped) = Some bootstrappingSizeQ
      \<and> bootstrappingSizeQ \<le> initSizeQ"
  then show "EvalBootstrap bld cc this ciphertext 2 precision = Some (Inr ciphertext)"
    by (subst EvalBootstrap.simps) (simp add: Let_def)
next
  assume "EvalBootstrap bld cc this ciphertext 1 precision = Some (Inr result)
      \<and> first_towers cc ciphertext = Some initSizeQ
      \<and> first_towers cc result = Some resultSizeQ
      \<and> resultSizeQ \<le> initSizeQ"
  then show "result = ciphertext"
    by (auto simp: EvalBootstrap_one Let_def split: if_splits option.splits sum.splits)
qed

text \<open>In the example context the bootstrapped ciphertext has 2 limbs and the input 3.\<close>

theorem EvalBootstrap_no_progress_witness:
  "EvalBootstrap build64 cc_toy this_toy ct_toy 1 0 = Some (Inr ct_toy)
   \<and> EvalBootstrap build64 cc_toy this_toy ct_toy 2 0 = Some (Inr ct_toy)"
proof -
  have pre: "GetKeySwitchTechnique (CryptoParameters ct_toy) = HYBRID
      \<and> \<not> (NATIVEINT build64 = 128
             \<and> (GetScalingTechnique (CryptoParameters ct_toy) = FLEXIBLEAUTO
                  \<or> GetScalingTechnique (CryptoParameters ct_toy) = FLEXIBLEAUTOEXT))"
    by (simp add: ct_toy_def cp_toy_def build64_def)
  have t0: "first_towers cc_toy ct_toy = Some 3"
    by (simp add: first_towers_def ct_toy_def cc_toy_def)
  have t1: "first_towers cc_toy (ct_toy\<lparr>Elements := [2, 2]\<rparr>) = Some 2"
    by (simp add: first_towers_def cc_toy_def)
  have one: "EvalBootstrap build64 cc_toy this_toy ct_toy 1 0 = Some (Inr ct_toy)"
    using EvalBootstrap_no_progress [of ct_toy build64 cc_toy 3 this_toy "ct_toy\<lparr>Elements := [2, 2]\<rparr>" 2 0]
      pre t0 t1 bootstrap_single_toy by simp
  have m: "MultByIntegerInPlace cc_toy ct_toy (unat (powerOfTwoModulus_of 0)) = ct_toy"
    by (simp add: cc_toy_def)
  have s: "scaled_bootstrap cc_toy (unat (GetCompositeDegree (CryptoParameters ct_toy))) 0 ct_toy = ct_toy"
    by (simp add: scaled_bootstrap_def cc_toy_def)
  have two: "EvalBootstrap build64 cc_toy this_toy ct_toy 2 0 = Some (Inr ct_toy)"
    using EvalBootstrap_no_progress [of ct_toy build64 cc_toy 3 this_toy _ _ 0 3 ct_toy 3]
      pre t0 one m s by simp
  show ?thesis using one two by simp
qed

end
